(* ===== verification/Eon_Prelude.thy ===== *)
theory Eon_Prelude
  imports Main "HOL-Library.Word" "HOL-Library.Multiset"
begin

text \<open>
  The shared base of the development: the C integer types as words, the split of a 64-bit
  value into the two 32-bit halves the device registers take, the round trip of that split,
  and the address lemmas that every register map uses.
\<close>

unbundle bit_operations_syntax

type_synonym u8 = "8 word"
type_synonym u16 = "16 word"
type_synonym u32 = "32 word"
type_synonym u64 = "64 word"


section \<open>Error numbers\<close>

text \<open>The kernel's error numbers the driver returns, as the C \<open>int\<close> they are negated from.\<close>

definition EPERM :: int where
  "EPERM = 1"

definition ENOMEM :: int where
  "ENOMEM = 12"

definition ENOTTY :: int where
  "ENOTTY = 25"

definition u32_of_int :: "int \<Rightarrow> u32" where
  "u32_of_int i = word_of_int i"

section \<open>Halves of a 64-bit value\<close>

definition BIT32_MASK :: u64 where
  "BIT32_MASK = 0xFFFFFFFF"

definition lo32 :: "u64 \<Rightarrow> u32" where
  "lo32 a = ucast (a AND BIT32_MASK)"

definition hi32 :: "u64 \<Rightarrow> u32" where
  "hi32 a = ucast ((drop_bit 32 a) AND BIT32_MASK)"

definition join64 :: "u32 \<Rightarrow> u32 \<Rightarrow> u64" where
  "join64 h l = push_bit 32 (ucast h) OR ucast l"

lemma BIT32_MASK_eq: "BIT32_MASK = mask 32"
  by (simp add: BIT32_MASK_def mask_eq_exp_minus_1)

lemma bit_lo32: "bit (lo32 a) n \<longleftrightarrow> n < 32 \<and> bit a n"
  by (auto simp: lo32_def BIT32_MASK_eq bit_ucast_iff bit_and_iff bit_mask_iff)

lemma bit_hi32: "bit (hi32 a) n \<longleftrightarrow> n < 32 \<and> bit a (n + 32)"
  by (auto simp: hi32_def BIT32_MASK_eq bit_ucast_iff bit_and_iff bit_mask_iff bit_drop_bit_eq
      add.commute dest: bit_imp_le_length)

lemma fold_halves: "ucast (a AND BIT32_MASK) = lo32 a" "lo32 (drop_bit 32 a) = hi32 a"
  by (simp_all add: lo32_def hi32_def)

lemma bit_join64: "bit (join64 h l) n \<longleftrightarrow> (if n < 32 then bit l n else bit h (n - 32) \<and> n < 64)"
  by (auto simp: join64_def bit_or_iff bit_push_bit_iff bit_ucast_iff dest: bit_imp_le_length)

lemma join64_halves [simp]: "join64 (hi32 a) (lo32 a) = a"
  by (rule bit_eqI) (auto simp: bit_join64 bit_hi32 bit_lo32)

lemma lo32_join64 [simp]: "lo32 (join64 h l) = l"
  by (rule bit_eqI) (auto simp: bit_join64 bit_lo32 dest: bit_imp_le_length)

lemma hi32_join64 [simp]: "hi32 (join64 h l) = h"
  by (rule bit_eqI) (auto simp: bit_join64 bit_hi32 dest: bit_imp_le_length)

section \<open>Addresses as base plus offset\<close>

text \<open>
  Every register address is a base plus a small offset, so two of them are equal exactly when
  the offsets are, whatever the base is and even if the sum wraps.
\<close>

lemma add_offset_eq_iff [simp]: "(b :: u64) + x = b + y \<longleftrightarrow> x = y"
  by simp

lemma unat_of_nat_small: "n < 2 ^ 64 \<Longrightarrow> unat (of_nat n :: u64) = n"
  by (simp add: unat_of_nat take_bit_nat_eq_self)

lemma of_nat_eq_iff_small:
  "m < 2 ^ 64 \<Longrightarrow> n < 2 ^ 64 \<Longrightarrow> (of_nat m :: u64) = of_nat n \<longleftrightarrow> m = n"
  by (metis unat_of_nat_small)

lemma unat_lt_length: "unat (n :: 'a::len word) < 2 ^ LENGTH('a)"
  by simp

lemma unat_u8_bound [simp]: "unat (n :: u8) < 256"
  using unat_lt_length [of n] by simp

lemma unat_word_eq_iff: "unat x = unat y \<longleftrightarrow> x = (y :: 'a::len word)"
  by (simp add: word_unat_eq_iff)

lemma unat_ucast_u32 [simp]: "unat (ucast (x :: u32) :: u64) = unat x"
  by (simp add: unsigned_ucast_eq take_bit_nat_eq_self order_less_trans [OF unat_lt_length])

lemma ucast_u8_of_nat: "(ucast (n :: u8) :: u64) = of_nat (unat n)"
  by simp

lemma slot_offset_eq_iff:
  assumes "o1 < s" and "o2 < s"
  shows "i * s + o1 = j * s + (o2 :: nat) \<longleftrightarrow> i = j \<and> o1 = o2"
proof
  assume eq: "i * s + o1 = j * s + o2"
  have "i = (i * s + o1) div s" and "j = (j * s + o2) div s"
    using assms by auto
  with eq have "i = j" by metis
  with eq show "i = j \<and> o1 = o2" by simp
qed simp

lemma slot_offset_bound:
  assumes "i < c" and "o1 < s"
  shows "i * s + o1 < c * (s :: nat)"
proof -
  have "i * s + o1 < Suc i * s" using assms by simp
  also have "\<dots> \<le> c * s" using assms by (intro mult_le_mono1) simp
  finally show ?thesis .
qed

end
