(* ===== verification/Eon_Kernel.thy ===== *)
theory Eon_Kernel
  imports Eon_Prelude
begin

text \<open>
  The driver's boundary: what it does to the device and to the kernel is a history of events,
  newest first, and what the device and the kernel answer is a parameter, the environment
  record \<open>kenv\<close>, whose functions see the whole history. Nothing is assumed about an answer
  unless a theorem says so. The accessors of \<open>eon_drv.c\<close> (\<open>eon_readl\<close>, \<open>eon_writel\<close>,
  \<open>eon_read16\<close>, \<open>eon_write16\<close>, \<open>hdma_writel\<close>) are defined over it, then the observers
  on a history: the last value written to a register, the resources held, the locks held.
\<close>

section \<open>Histories and environments\<close>

datatype resource =
    Res_kmem u64
  | Res_vmem u64
  | Res_page u64
  | Res_sg_table u64
  | Res_sg_map u64
  | Res_dma_map u64
  | Res_irq_vectors
  | Res_irq_handler
  | Res_kfifo
  | Res_kthread
  | Res_cdev u64
  | Res_char_device u32
  | Res_chrdev_region
  | Res_class
  | Res_pci_driver

datatype lock_id = Spin u64 | Mutex u64

datatype event =
    Ev_write32 u64 u32
  | Ev_read32 u64 u32
  | Ev_write16 u64 u16
  | Ev_read16 u64 u16
  | Ev_mb
  | Ev_lock lock_id
  | Ev_unlock lock_id
  | Ev_wake u64
  | Ev_sleep u64 int
  | Ev_acquire resource
  | Ev_release resource
  | Ev_nomem u64
  | Ev_call string int

type_synonym hist = "event list"

record kenv =
  mmio_read32 :: "hist \<Rightarrow> u64 \<Rightarrow> u32"
  mmio_read16 :: "hist \<Rightarrow> u64 \<Rightarrow> u16"
  dyn_debug :: bool
  k_alloc :: "hist \<Rightarrow> u64 \<Rightarrow> u64"
  k_call :: "hist \<Rightarrow> string \<Rightarrow> int"
  k_sizeof :: "string \<Rightarrow> u64"

section \<open>Device accesses\<close>

definition eon_readl :: "'a kenv_scheme \<Rightarrow> u64 \<Rightarrow> hist \<Rightarrow> u32 \<times> hist" where
  "eon_readl env addr h = (let data = mmio_read32 env h addr in (data, Ev_read32 addr data # h))"

definition eon_writel :: "u32 \<Rightarrow> u64 \<Rightarrow> hist \<Rightarrow> hist" where
  "eon_writel data addr h = Ev_write32 addr data # h"

definition eon_read16 :: "'a kenv_scheme \<Rightarrow> u64 \<Rightarrow> hist \<Rightarrow> u16 \<times> hist" where
  "eon_read16 env addr h = (let data = mmio_read16 env h addr in (data, Ev_read16 addr data # h))"

definition eon_write16 :: "u16 \<Rightarrow> u64 \<Rightarrow> hist \<Rightarrow> hist" where
  "eon_write16 data addr h = Ev_write16 addr data # h"

text \<open>
  \<open>hdma_writel\<close> writes and then only decides whether to print the offset, so the HDMA base
  does not change what it does to the device.
\<close>

definition hdma_writel :: "u64 \<Rightarrow> u32 \<Rightarrow> u64 \<Rightarrow> hist \<Rightarrow> hist" where
  "hdma_writel hdma_base data addr h = Ev_write32 addr data # h"

lemmas access_defs = eon_readl_def eon_writel_def eon_read16_def eon_write16_def hdma_writel_def

section \<open>Kernel memory and locks\<close>

text \<open>
  \<open>kmalloc\<close>, \<open>kzalloc\<close> and \<open>vmalloc\<close> return an address or NULL (0); \<open>kfree\<close> and
  \<open>vfree\<close> of NULL do nothing.
\<close>

definition kmalloc :: "'a kenv_scheme \<Rightarrow> u64 \<Rightarrow> hist \<Rightarrow> u64 \<times> hist" where
  "kmalloc env sz h = (let p = k_alloc env h sz in
     if p = 0 then (0, Ev_nomem sz # h) else (p, Ev_acquire (Res_kmem p) # h))"

definition kfree :: "u64 \<Rightarrow> hist \<Rightarrow> hist" where
  "kfree p h = (if p = 0 then h else Ev_release (Res_kmem p) # h)"

definition vmalloc :: "'a kenv_scheme \<Rightarrow> u64 \<Rightarrow> hist \<Rightarrow> u64 \<times> hist" where
  "vmalloc env sz h = (let p = k_alloc env h sz in
     if p = 0 then (0, Ev_nomem sz # h) else (p, Ev_acquire (Res_vmem p) # h))"

definition vfree :: "u64 \<Rightarrow> hist \<Rightarrow> hist" where
  "vfree p h = (if p = 0 then h else Ev_release (Res_vmem p) # h)"

definition spin_lock :: "u64 \<Rightarrow> hist \<Rightarrow> hist" where
  "spin_lock l h = Ev_lock (Spin l) # h"

definition spin_unlock :: "u64 \<Rightarrow> hist \<Rightarrow> hist" where
  "spin_unlock l h = Ev_unlock (Spin l) # h"

definition mutex_lock :: "u64 \<Rightarrow> hist \<Rightarrow> hist" where
  "mutex_lock l h = Ev_lock (Mutex l) # h"

definition mutex_unlock :: "u64 \<Rightarrow> hist \<Rightarrow> hist" where
  "mutex_unlock l h = Ev_unlock (Mutex l) # h"

lemmas kernel_defs = kmalloc_def kfree_def vmalloc_def vfree_def
  spin_lock_def spin_unlock_def mutex_lock_def mutex_unlock_def

section \<open>Observers\<close>

fun last_write :: "u64 \<Rightarrow> hist \<Rightarrow> u32 option" where
  "last_write a [] = None"
| "last_write a (Ev_write32 b d # h) = (if a = b then Some d else last_write a h)"
| "last_write a (_ # h) = last_write a h"

fun writes_of :: "hist \<Rightarrow> (u64 \<times> u32) list" where
  "writes_of [] = []"
| "writes_of (Ev_write32 b d # h) = (b, d) # writes_of h"
| "writes_of (_ # h) = writes_of h"

fun held :: "hist \<Rightarrow> resource multiset" where
  "held [] = {#}"
| "held (Ev_acquire r # h) = add_mset r (held h)"
| "held (Ev_release r # h) = held h - {#r#}"
| "held (_ # h) = held h"

fun locks :: "hist \<Rightarrow> lock_id multiset" where
  "locks [] = {#}"
| "locks (Ev_lock l # h) = add_mset l (locks h)"
| "locks (Ev_unlock l # h) = locks h - {#l#}"
| "locks (_ # h) = locks h"

text \<open>A release of a resource that is not held is a double free.\<close>

fun no_bad_release :: "hist \<Rightarrow> bool" where
  "no_bad_release [] = True"
| "no_bad_release (Ev_release r # h) = (r \<in># held h \<and> no_bad_release h)"
| "no_bad_release (_ # h) = no_bad_release h"

text \<open>
  A task that may sleep (in a wait, or to take a mutex) while it holds a spin lock.
\<close>

fun spin_held :: "hist \<Rightarrow> bool" where
  "spin_held h = (\<exists>l \<in># locks h. case l of Spin _ \<Rightarrow> True | Mutex _ \<Rightarrow> False)"

fun sleeps_in_atomic :: "hist \<Rightarrow> bool" where
  "sleeps_in_atomic [] = False"
| "sleeps_in_atomic (Ev_sleep q t # h) = (spin_held h \<or> sleeps_in_atomic h)"
| "sleeps_in_atomic (Ev_lock (Mutex l) # h) = (spin_held h \<or> sleeps_in_atomic h)"
| "sleeps_in_atomic (_ # h) = sleeps_in_atomic h"

lemma last_write_append:
  "last_write a (g @ h) = (case last_write a g of None \<Rightarrow> last_write a h | Some d \<Rightarrow> Some d)"
  by (induction a g rule: last_write.induct) auto

lemma last_write_None_iff: "last_write a h = None \<longleftrightarrow> a \<notin> fst ` set (writes_of h)"
  by (induction a h rule: last_write.induct) auto

lemma writes_of_append [simp]: "writes_of (g @ h) = writes_of g @ writes_of h"
  by (induction g rule: writes_of.induct) auto

lemma last_write_frame:
  assumes "a \<notin> fst ` set (writes_of g)"
  shows "last_write a (g @ h) = last_write a h"
  using assms by (simp add: last_write_append last_write_None_iff [THEN iffD2])

section \<open>Sequences of device accesses\<close>

text \<open>
  \<open>accesses A h h'\<close>: \<open>h'\<close> is \<open>h\<close> followed by device accesses only, whose writes all go to
  addresses in \<open>A\<close>. It is the contract of every operation that only talks to the device, and
  what it leaves alone follows by rule induction.
\<close>

inductive accesses :: "u64 set \<Rightarrow> hist \<Rightarrow> hist \<Rightarrow> bool" for A h where
  acc_none: "accesses A h h"
| acc_write32: "accesses A h h' \<Longrightarrow> a \<in> A \<Longrightarrow> accesses A h (Ev_write32 a d # h')"
| acc_read32: "accesses A h h' \<Longrightarrow> accesses A h (Ev_read32 a d # h')"
| acc_write16: "accesses A h h' \<Longrightarrow> a \<in> A \<Longrightarrow> accesses A h (Ev_write16 a w # h')"
| acc_read16: "accesses A h h' \<Longrightarrow> accesses A h (Ev_read16 a w # h')"
| acc_mb: "accesses A h h' \<Longrightarrow> accesses A h (Ev_mb # h')"

declare accesses.intros [simp, intro]

lemma accesses_trans: "accesses A h2 h3 \<Longrightarrow> accesses A h1 h2 \<Longrightarrow> accesses A h1 h3"
  by (induction rule: accesses.induct) auto

lemma accesses_mono: "accesses A h h' \<Longrightarrow> A \<subseteq> B \<Longrightarrow> accesses B h h'"
  by (induction rule: accesses.induct) auto

lemma accesses_last_write: "accesses A h h' \<Longrightarrow> a \<notin> A \<Longrightarrow> last_write a h' = last_write a h"
  by (induction rule: accesses.induct) auto

lemma accesses_held: "accesses A h h' \<Longrightarrow> held h' = held h"
  by (induction rule: accesses.induct) auto

lemma accesses_locks: "accesses A h h' \<Longrightarrow> locks h' = locks h"
  by (induction rule: accesses.induct) auto

lemma accesses_no_bad_release: "accesses A h h' \<Longrightarrow> no_bad_release h' = no_bad_release h"
  by (induction rule: accesses.induct) auto

lemma accesses_sleeps: "accesses A h h' \<Longrightarrow> sleeps_in_atomic h' = sleeps_in_atomic h"
  by (induction rule: accesses.induct) auto

lemmas accesses_frame = accesses_held accesses_locks accesses_no_bad_release accesses_sleeps

end
