(* ===== verification/Eon_Device.thy ===== *)
theory Eon_Device
  imports Eon_Kernel
begin

text \<open>
  The driver's data (\<open>eon_drv.h\<close>, \<open>hdma.h\<close>): the device structure, the HDMA channel
  context and the addresses of its registers. Fields carry a short prefix of their struct where
  the C name would hide a HOL constant. An array of pointers is a function from the index to
  an option, NULL being \<open>None\<close>; a lock or a wait queue is the address that identifies it.
  \<open>hc_ptr\<close>, \<open>lk_ptr\<close> and the like hold the address of the object itself, which the C code
  has implicitly.
\<close>

definition MAX_HDMA_NUMBER :: nat where
  "MAX_HDMA_NUMBER = 16"

definition ATU_HDMA_BAR :: nat where
  "ATU_HDMA_BAR = 0"

definition CONFIG_BAR_INDEX :: nat where
  "CONFIG_BAR_INDEX = 2"

definition DESC_BAR :: nat where
  "DESC_BAR = 4"

lemmas bar_index_defs = ATU_HDMA_BAR_def CONFIG_BAR_INDEX_def DESC_BAR_def

record bar_info =
  paddr :: u64
  vaddr :: u64
  bar_sz :: u64

record addr_info =
  iatu_base :: u64
  hdma_base :: u64
  msi_addr_l :: u32
  msi_addr_h :: u32
  msg_data :: u16

datatype hdma_state =
    TRANSFER_STATE_IDLE
  | TRANSFER_STATE_RUNNING
  | TRANSFER_STATE_COMPLETED
  | TRANSFER_STATE_FAILED

record hdma_desc_phy_buf =
  phy_addr :: u64
  virt_addr :: u64
  start_pointer_addr :: u64
  buf_size :: u64
  buf_flag :: int

record hdma_regs =
  r_en :: u64
  r_doorbell :: u64
  r_elem_pf :: u64
  r_llp_low :: u64
  r_llp_high :: u64
  r_cycle_off :: u64
  r_xfer_size :: u64
  r_sar_low :: u64
  r_sar_high :: u64
  r_dar_low :: u64
  r_dar_high :: u64
  r_watermark :: u64
  r_control1 :: u64
  r_func_num :: u64
  r_qos :: u64
  r_status :: u64
  r_int_status :: u64
  r_int_setup :: u64
  r_int_clear :: u64
  r_msi_stop_low :: u64
  r_msi_stop_high :: u64
  r_msi_watermark_low :: u64
  r_msi_watermark_high :: u64
  r_msi_abort_low :: u64
  r_msi_abort_high :: u64
  r_msi_msgd :: u64

record hdma_context =
  hc_ptr :: u64
  hc_id :: u8
  hc_ctx :: hdma_regs
  hc_dpu_dev :: u64
  hc_lock :: u64
  hc_wq :: u64
  hc_state :: hdma_state
  hc_type :: u32
  hc_flag :: u32
  hc_desc_buf :: hdma_desc_phy_buf

record char_dev_ctx =
  cc_ptr :: u64
  cc_char_dev :: u64
  cc_dpu_dev :: u64

record eon_device =
  dev_ptr :: u64
  pdev :: u64
  bar :: "nat \<Rightarrow> bar_info"
  irqs :: u8
  base_addr :: addr_info
  dpu_id :: u32
  char_ctx :: "char_dev_ctx option"
  hdmar :: "nat \<Rightarrow> hdma_context option"
  hdmaw :: "nat \<Rightarrow> hdma_context option"
  config_bar_base :: u64
  conbar_lock :: u64
  hdma_thread :: u64
  hdma_kfifo :: "u8 list"
  thread_wq :: u64
  should_stop_flag :: u32

text \<open>A freshly probed device for the witnesses: six BARs of 4 GB each, far apart.\<close>

definition demo_device :: eon_device where
  "demo_device =
     \<lparr>dev_ptr = 0x9000, pdev = 0x8000,
      bar = (\<lambda>i. \<lparr>paddr = 0x4000000000 + of_nat i * 0x100000000,
                  vaddr = 0x8000000000 + of_nat i * 0x100000000, bar_sz = 0x100000000\<rparr>),
      irqs = 1,
      base_addr = \<lparr>iatu_base = 0x8000009000, hdma_base = 0x8000001000,
                   msi_addr_l = 0xfee00000, msi_addr_h = 0, msg_data = 0x41\<rparr>,
      dpu_id = 0, char_ctx = None, hdmar = (\<lambda>_. None), hdmaw = (\<lambda>_. None),
      config_bar_base = 0, conbar_lock = 0x9100, hdma_thread = 0x9200, hdma_kfifo = [],
      thread_wq = 0x9300, should_stop_flag = 0\<rparr>"

end
