(* ===== verification/Register_Bank.thy ===== *)
theory Register_Bank
  imports Eon_Kernel
begin

text \<open>
  The interface of a register map: \<open>reg b i r\<close> is the address of register \<open>r\<close> of slot \<open>i\<close>
  (an ATU region, a DMA channel) of the block at base \<open>b\<close>. The provider promises that each
  address is the base plus an offset in its own slot and that offsets differ; the client gets
  that registers never alias, that they stay inside the block, and how writes to one register
  show when another is read back. Both register maps of the driver interpret it.
\<close>

locale register_bank =
  fixes reg :: "u64 \<Rightarrow> 'i \<Rightarrow> 'r \<Rightarrow> u64"
    and idx :: "'i \<Rightarrow> nat"
    and off :: "'r \<Rightarrow> nat"
    and stride :: nat
    and count :: nat
  assumes reg_eq: "idx i < count \<Longrightarrow> reg b i r = b + of_nat (idx i * stride + off r)"
    and idx_inj: "idx i = idx j \<longleftrightarrow> i = j"
    and off_less: "off r < stride"
    and off_inj: "off r = off q \<longleftrightarrow> r = q"
    and off_aligned: "4 dvd off r"
    and stride_aligned: "4 dvd stride"
    and block_small: "count * stride \<le> 2 ^ 32"
begin

lemma reg_offset_less: "idx i < count \<Longrightarrow> idx i * stride + off r < count * stride"
  by (simp add: slot_offset_bound off_less)

lemma reg_offset_64: "idx i < count \<Longrightarrow> idx i * stride + off r < 2 ^ 64"
  using reg_offset_less [of i r] block_small by simp

lemma reg_eq_iff:
  assumes "idx i < count" and "idx j < count"
  shows "reg b i r = reg b j q \<longleftrightarrow> i = j \<and> r = q"
proof -
  have "reg b i r = reg b j q \<longleftrightarrow> idx i * stride + off r = idx j * stride + off q"
    using assms by (simp only: reg_eq add_offset_eq_iff of_nat_eq_iff_small reg_offset_64)
  also have "\<dots> \<longleftrightarrow> idx i = idx j \<and> off r = off q"
    using off_less by (intro slot_offset_eq_iff)
  finally show ?thesis by (simp add: off_inj idx_inj)
qed

lemma reg_in_block:
  assumes "idx i < count"
  shows "unat (reg b i r - b) < count * stride"
  using assms
  by (simp add: reg_eq unat_of_nat_small [OF reg_offset_64] reg_offset_less
      del: of_nat_add of_nat_mult)

lemma reg_word_aligned:
  assumes "idx i < count"
  shows "4 dvd unat (reg b i r - b)"
  using assms off_aligned stride_aligned
  by (simp add: reg_eq unat_of_nat_small [OF reg_offset_64] del: of_nat_add of_nat_mult)

lemma last_write_reg:
  assumes "idx i < count" and "idx j < count"
  shows "last_write (reg b i r) (Ev_write32 (reg b j q) d # h) =
    (if i = j \<and> r = q then Some d else last_write (reg b i r) h)"
  using assms by (simp add: reg_eq_iff)

end

text \<open>Two blocks that lie next to each other do not share an address.\<close>

lemma blocks_disjoint:
  assumes "unat (x - b) < m" and "unat (y - (b + of_nat m)) < n" and "m + n \<le> 2 ^ 64"
  shows "x \<noteq> (y :: u64)"
proof
  assume xy: "x = y"
  have split: "y - (b + of_nat m) = (x - b) - of_nat m" using xy by (simp add: diff_diff_eq)
  have m: "unat (of_nat m :: u64) = m"
    using assms by (cases "m < 2 ^ 64") (auto simp: unat_of_nat_small)
  have "x - b < of_nat m" using assms(1) m by (simp add: word_less_nat_alt)
  then have "unat ((x - b) - of_nat m) = unat (x - b) + 2 ^ 64 - m"
    using m by (simp add: unat_sub_if' word_le_nat_alt word_less_nat_alt)
  then have "unat (y - (b + of_nat m)) = unat (x - b) + 2 ^ 64 - m" by (simp only: split)
  with assms(2,3) show False by linarith
qed

end
