(* ===== verification/Eon_Iatu.thy ===== *)
theory Eon_Iatu
  imports Eon_Device Register_Bank
begin

text \<open>
  The address translation unit (\<open>iatu.h\<close>, \<open>iatu.c\<close>): the register address macros, the two
  operations that open a window of a BAR onto a device address, and what a region's registers
  hold after them.
\<close>

section \<open>Register addresses\<close>

definition IATU_BASE_OFFSET :: u64 where
  "IATU_BASE_OFFSET = 0x9000"

definition IATU_INDEX_OFFSET :: u64 where
  "IATU_INDEX_OFFSET = 0x200"

definition IATU_REGION_CTRL_1_OUTBOUND :: "u64 \<Rightarrow> u64 \<Rightarrow> u64" where
  "IATU_REGION_CTRL_1_OUTBOUND base n = base + n * IATU_INDEX_OFFSET + 0"

definition IATU_REGION_CTRL_2_OUTBOUND :: "u64 \<Rightarrow> u64 \<Rightarrow> u64" where
  "IATU_REGION_CTRL_2_OUTBOUND base n = base + n * IATU_INDEX_OFFSET + 0x4"

definition IATU_LWR_BASE_ADDR_OUTBOUND :: "u64 \<Rightarrow> u64 \<Rightarrow> u64" where
  "IATU_LWR_BASE_ADDR_OUTBOUND base n = base + n * IATU_INDEX_OFFSET + 0x8"

definition IATU_UPPER_BASE_ADDR_OUTBOUND :: "u64 \<Rightarrow> u64 \<Rightarrow> u64" where
  "IATU_UPPER_BASE_ADDR_OUTBOUND base n = base + n * IATU_INDEX_OFFSET + 0xc"

definition IATU_LIMIT_ADDR_OUTBOUND :: "u64 \<Rightarrow> u64 \<Rightarrow> u64" where
  "IATU_LIMIT_ADDR_OUTBOUND base n = base + n * IATU_INDEX_OFFSET + 0x10"

definition IATU_LWR_TARGET_ADDR_OUTBOUND :: "u64 \<Rightarrow> u64 \<Rightarrow> u64" where
  "IATU_LWR_TARGET_ADDR_OUTBOUND base n = base + n * IATU_INDEX_OFFSET + 0x14"

definition IATU_UPPER_TARGET_ADDR_OUTBOUND :: "u64 \<Rightarrow> u64 \<Rightarrow> u64" where
  "IATU_UPPER_TARGET_ADDR_OUTBOUND base n = base + n * IATU_INDEX_OFFSET + 0x18"

definition IATU_UPPER_LIMIT_ADDR_OUTBOUND :: "u64 \<Rightarrow> u64 \<Rightarrow> u64" where
  "IATU_UPPER_LIMIT_ADDR_OUTBOUND base n = base + n * IATU_INDEX_OFFSET + 0x20"

definition IATU_REGION_CTRL_1_INBOUND :: "u64 \<Rightarrow> u64 \<Rightarrow> u64" where
  "IATU_REGION_CTRL_1_INBOUND base n = base + n * IATU_INDEX_OFFSET + 0x100"

definition IATU_REGION_CTRL_2_INBOUND :: "u64 \<Rightarrow> u64 \<Rightarrow> u64" where
  "IATU_REGION_CTRL_2_INBOUND base n = base + n * IATU_INDEX_OFFSET + 0x104"

definition IATU_LWR_BASE_ADDR_INBOUND :: "u64 \<Rightarrow> u64 \<Rightarrow> u64" where
  "IATU_LWR_BASE_ADDR_INBOUND base n = base + n * IATU_INDEX_OFFSET + 0x108"

definition IATU_UPPER_BASE_ADDR_INBOUND :: "u64 \<Rightarrow> u64 \<Rightarrow> u64" where
  "IATU_UPPER_BASE_ADDR_INBOUND base n = base + n * IATU_INDEX_OFFSET + 0x10c"

definition IATU_LIMIT_ADDR_INBOUND :: "u64 \<Rightarrow> u64 \<Rightarrow> u64" where
  "IATU_LIMIT_ADDR_INBOUND base n = base + n * IATU_INDEX_OFFSET + 0x110"

definition IATU_LWR_TARGET_ADDR_INBOUND :: "u64 \<Rightarrow> u64 \<Rightarrow> u64" where
  "IATU_LWR_TARGET_ADDR_INBOUND base n = base + n * IATU_INDEX_OFFSET + 0x114"

definition IATU_UPPER_TARGET_ADDR_INBOUND :: "u64 \<Rightarrow> u64 \<Rightarrow> u64" where
  "IATU_UPPER_TARGET_ADDR_INBOUND base n = base + n * IATU_INDEX_OFFSET + 0x118"

definition IATU_UPPER_LIMIT_ADDR_INBOUND :: "u64 \<Rightarrow> u64 \<Rightarrow> u64" where
  "IATU_UPPER_LIMIT_ADDR_INBOUND base n = base + n * IATU_INDEX_OFFSET + 0x120"

lemmas iatu_macro_defs = IATU_INDEX_OFFSET_def
  IATU_REGION_CTRL_1_OUTBOUND_def IATU_REGION_CTRL_2_OUTBOUND_def
  IATU_LWR_BASE_ADDR_OUTBOUND_def IATU_UPPER_BASE_ADDR_OUTBOUND_def
  IATU_LIMIT_ADDR_OUTBOUND_def IATU_LWR_TARGET_ADDR_OUTBOUND_def
  IATU_UPPER_TARGET_ADDR_OUTBOUND_def IATU_UPPER_LIMIT_ADDR_OUTBOUND_def
  IATU_REGION_CTRL_1_INBOUND_def IATU_REGION_CTRL_2_INBOUND_def
  IATU_LWR_BASE_ADDR_INBOUND_def IATU_UPPER_BASE_ADDR_INBOUND_def
  IATU_LIMIT_ADDR_INBOUND_def IATU_LWR_TARGET_ADDR_INBOUND_def
  IATU_UPPER_TARGET_ADDR_INBOUND_def IATU_UPPER_LIMIT_ADDR_INBOUND_def

text \<open>The macros as one map, by direction and register; the regions are numbered by \<open>uint8_t\<close>.\<close>

datatype atu_dir = Outbound | Inbound

datatype atu_reg = Ctrl1 | Ctrl2 | LwrBase | UprBase | Limit | LwrTarget | UprTarget | UprLimit

fun atu_off :: "atu_dir \<times> atu_reg \<Rightarrow> nat" where
  "atu_off (d, r) = (case d of Outbound \<Rightarrow> 0 | Inbound \<Rightarrow> 0x100) +
     (case r of Ctrl1 \<Rightarrow> 0 | Ctrl2 \<Rightarrow> 0x4 | LwrBase \<Rightarrow> 0x8 | UprBase \<Rightarrow> 0xc
      | Limit \<Rightarrow> 0x10 | LwrTarget \<Rightarrow> 0x14 | UprTarget \<Rightarrow> 0x18 | UprLimit \<Rightarrow> 0x20)"

fun atu_addr :: "u64 \<Rightarrow> u64 \<Rightarrow> atu_dir \<times> atu_reg \<Rightarrow> u64" where
  "atu_addr b n (Outbound, Ctrl1) = IATU_REGION_CTRL_1_OUTBOUND b n"
| "atu_addr b n (Outbound, Ctrl2) = IATU_REGION_CTRL_2_OUTBOUND b n"
| "atu_addr b n (Outbound, LwrBase) = IATU_LWR_BASE_ADDR_OUTBOUND b n"
| "atu_addr b n (Outbound, UprBase) = IATU_UPPER_BASE_ADDR_OUTBOUND b n"
| "atu_addr b n (Outbound, Limit) = IATU_LIMIT_ADDR_OUTBOUND b n"
| "atu_addr b n (Outbound, LwrTarget) = IATU_LWR_TARGET_ADDR_OUTBOUND b n"
| "atu_addr b n (Outbound, UprTarget) = IATU_UPPER_TARGET_ADDR_OUTBOUND b n"
| "atu_addr b n (Outbound, UprLimit) = IATU_UPPER_LIMIT_ADDR_OUTBOUND b n"
| "atu_addr b n (Inbound, Ctrl1) = IATU_REGION_CTRL_1_INBOUND b n"
| "atu_addr b n (Inbound, Ctrl2) = IATU_REGION_CTRL_2_INBOUND b n"
| "atu_addr b n (Inbound, LwrBase) = IATU_LWR_BASE_ADDR_INBOUND b n"
| "atu_addr b n (Inbound, UprBase) = IATU_UPPER_BASE_ADDR_INBOUND b n"
| "atu_addr b n (Inbound, Limit) = IATU_LIMIT_ADDR_INBOUND b n"
| "atu_addr b n (Inbound, LwrTarget) = IATU_LWR_TARGET_ADDR_INBOUND b n"
| "atu_addr b n (Inbound, UprTarget) = IATU_UPPER_TARGET_ADDR_INBOUND b n"
| "atu_addr b n (Inbound, UprLimit) = IATU_UPPER_LIMIT_ADDR_INBOUND b n"

lemma atu_addr_eq: "atu_addr b (ucast (n :: u8)) r = b + of_nat (unat n * 0x200 + atu_off r)"
  by (cases "(b, ucast n :: u64, r)" rule: atu_addr.cases) (simp_all add: iatu_macro_defs)

lemma atu_off_less: "atu_off r < 0x200"
  by (cases r rule: atu_off.cases) (auto split: atu_dir.split atu_reg.split)

lemma atu_off_inj: "atu_off r = atu_off q \<longleftrightarrow> r = q"
  by (cases r rule: atu_off.cases; cases q rule: atu_off.cases)
    (auto split: atu_dir.splits atu_reg.splits)

lemma atu_off_aligned: "4 dvd atu_off r"
  by (cases r rule: atu_off.cases) (auto split: atu_dir.split atu_reg.split)

definition atu_reg_at :: "u64 \<Rightarrow> u8 \<Rightarrow> atu_dir \<times> atu_reg \<Rightarrow> u64" where
  "atu_reg_at b n r = atu_addr b (ucast n) r"

interpretation atu: register_bank atu_reg_at unat atu_off "0x200" 256
  by unfold_locales
    (simp_all add: atu_reg_at_def atu_addr_eq unat_word_eq_iff atu_off_less atu_off_inj atu_off_aligned)

lemma atu_addr_folds:
  "IATU_REGION_CTRL_1_OUTBOUND b (ucast (n :: u8)) = atu_reg_at b n (Outbound, Ctrl1)"
  "IATU_REGION_CTRL_2_OUTBOUND b (ucast (n :: u8)) = atu_reg_at b n (Outbound, Ctrl2)"
  "IATU_LWR_TARGET_ADDR_OUTBOUND b (ucast (n :: u8)) = atu_reg_at b n (Outbound, LwrTarget)"
  "IATU_UPPER_TARGET_ADDR_OUTBOUND b (ucast (n :: u8)) = atu_reg_at b n (Outbound, UprTarget)"
  "IATU_REGION_CTRL_1_INBOUND b (ucast (n :: u8)) = atu_reg_at b n (Inbound, Ctrl1)"
  "IATU_REGION_CTRL_2_INBOUND b (ucast (n :: u8)) = atu_reg_at b n (Inbound, Ctrl2)"
  "IATU_LWR_TARGET_ADDR_INBOUND b (ucast (n :: u8)) = atu_reg_at b n (Inbound, LwrTarget)"
  "IATU_UPPER_TARGET_ADDR_INBOUND b (ucast (n :: u8)) = atu_reg_at b n (Inbound, UprTarget)"
  by (simp_all add: atu_reg_at_def)

section \<open>Operations\<close>

definition BAR_SIZE_MASK :: u64 where
  "BAR_SIZE_MASK = 0x1ffffff"

definition atu_base :: "eon_device \<Rightarrow> u64" where
  "atu_base dev = vaddr (bar dev ATU_HDMA_BAR) + IATU_BASE_OFFSET"

definition iatu_map_outbound_bar ::
  "'a kenv_scheme \<Rightarrow> eon_device \<Rightarrow> u8 \<Rightarrow> u8 \<Rightarrow> u64 \<Rightarrow> u64 \<Rightarrow> hist \<Rightarrow> int \<times> hist" where
  "iatu_map_outbound_bar env dev bar_index atu_index addr sz h =
     (let base = vaddr (bar dev ATU_HDMA_BAR) + IATU_BASE_OFFSET; n = ucast atu_index in
      if sz > 0x1000000 then (-1, h)
      else
        let h = eon_writel (ucast (addr AND BIT32_MASK)) (IATU_LWR_TARGET_ADDR_OUTBOUND base n) h;
            h = eon_writel (ucast (drop_bit 32 addr AND BIT32_MASK))
                  (IATU_UPPER_TARGET_ADDR_OUTBOUND base n) h;
            h = eon_writel (ucast (sz AND BAR_SIZE_MASK)) (IATU_REGION_CTRL_1_OUTBOUND base n) h;
            h = eon_writel (0xc0000000 OR push_bit 8 (ucast bar_index))
                  (IATU_REGION_CTRL_2_OUTBOUND base n) h;
            (_, h) = eon_readl env (IATU_REGION_CTRL_2_OUTBOUND base n) h
        in (0, h))"

definition iatu_map_inbound_bar ::
  "'a kenv_scheme \<Rightarrow> eon_device \<Rightarrow> u8 \<Rightarrow> u8 \<Rightarrow> u64 \<Rightarrow> u64 \<Rightarrow> hist \<Rightarrow> int \<times> hist" where
  "iatu_map_inbound_bar env dev bar_index atu_index addr sz h =
     (let base = vaddr (bar dev ATU_HDMA_BAR) + IATU_BASE_OFFSET; n = ucast atu_index in
      if sz > 0x1000000 then (-1, h)
      else
        let h = eon_writel (ucast (addr AND BIT32_MASK)) (IATU_LWR_TARGET_ADDR_INBOUND base n) h;
            h = eon_writel (ucast (drop_bit 32 addr AND BIT32_MASK))
                  (IATU_UPPER_TARGET_ADDR_INBOUND base n) h;
            h = eon_writel (ucast (sz AND BAR_SIZE_MASK)) (IATU_REGION_CTRL_1_INBOUND base n) h;
            h = eon_writel (0xc0000000 OR push_bit 8 (ucast bar_index))
                  (IATU_REGION_CTRL_2_INBOUND base n) h;
            (_, h) = eon_readl env (IATU_REGION_CTRL_2_INBOUND base n) h
        in (0, h))"

section \<open>What the operations leave in the registers\<close>

text \<open>
  Both operations issue the same five accesses, in the direction's registers. \<open>atu_program\<close>
  is that sequence (newest first), and the two operations are shown to be it.
\<close>

definition atu_program ::
  "'a kenv_scheme \<Rightarrow> eon_device \<Rightarrow> atu_dir \<Rightarrow> u8 \<Rightarrow> u8 \<Rightarrow> u64 \<Rightarrow> u64 \<Rightarrow> hist \<Rightarrow> hist" where
  "atu_program env dev d bar_index n addr sz h =
     (let b = atu_base dev;
          g = [Ev_write32 (atu_reg_at b n (d, Ctrl2)) (0xc0000000 OR push_bit 8 (ucast bar_index)),
               Ev_write32 (atu_reg_at b n (d, Ctrl1)) (ucast (sz AND BAR_SIZE_MASK)),
               Ev_write32 (atu_reg_at b n (d, UprTarget)) (hi32 addr),
               Ev_write32 (atu_reg_at b n (d, LwrTarget)) (lo32 addr)] @ h
      in Ev_read32 (atu_reg_at b n (d, Ctrl2)) (mmio_read32 env g (atu_reg_at b n (d, Ctrl2))) # g)"

lemma iatu_map_outbound_bar_eq:
  "iatu_map_outbound_bar env dev bi n addr sz h =
     (if sz > 0x1000000 then (-1, h) else (0, atu_program env dev Outbound bi n addr sz h))"
  by (simp add: iatu_map_outbound_bar_def atu_program_def atu_base_def access_defs Let_def
      atu_addr_folds lo32_def hi32_def)

lemma iatu_map_inbound_bar_eq:
  "iatu_map_inbound_bar env dev bi n addr sz h =
     (if sz > 0x1000000 then (-1, h) else (0, atu_program env dev Inbound bi n addr sz h))"
  by (simp add: iatu_map_inbound_bar_def atu_program_def atu_base_def access_defs Let_def
      atu_addr_folds lo32_def hi32_def)

definition atu_reg_val :: "eon_device \<Rightarrow> u8 \<Rightarrow> atu_dir \<times> atu_reg \<Rightarrow> hist \<Rightarrow> u32 option" where
  "atu_reg_val dev n r h = last_write (atu_reg_at (atu_base dev) n r) h"

text \<open>The device address a region translates to, once both halves of it are written.\<close>

definition atu_target :: "eon_device \<Rightarrow> atu_dir \<Rightarrow> u8 \<Rightarrow> hist \<Rightarrow> u64 option" where
  "atu_target dev d n h =
     (case (atu_reg_val dev n (d, UprTarget) h, atu_reg_val dev n (d, LwrTarget) h) of
        (Some u, Some l) \<Rightarrow> Some (join64 u l)
      | _ \<Rightarrow> None)"

lemma atu_reg_val_program:
  "atu_reg_val dev m (d', r) (atu_program env dev d bi n addr sz h) =
     (if m = n \<and> d' = d then
        (case r of Ctrl1 \<Rightarrow> Some (ucast (sz AND BAR_SIZE_MASK))
         | Ctrl2 \<Rightarrow> Some (0xc0000000 OR push_bit 8 (ucast bi))
         | LwrTarget \<Rightarrow> Some (lo32 addr)
         | UprTarget \<Rightarrow> Some (hi32 addr)
         | _ \<Rightarrow> atu_reg_val dev m (d', r) h)
      else atu_reg_val dev m (d', r) h)"
  by (auto simp: atu_reg_val_def atu_program_def Let_def atu.reg_eq_iff split: atu_reg.split)

lemma atu_target_program:
  "atu_target dev d' m (atu_program env dev d bi n addr sz h) =
     (if m = n \<and> d' = d then Some addr else atu_target dev d' m h)"
  by (simp add: atu_target_def atu_reg_val_program)

section \<open>Properties\<close>

lemma ucast_size_mask:
  assumes "\<not> sz > 0x1000000"
  shows "(ucast (sz AND BAR_SIZE_MASK) :: u32) = ucast sz"
proof -
  have "unat sz \<le> 0x1000000" using assms by (simp add: word_less_nat_alt)
  moreover have "unat (sz AND BAR_SIZE_MASK) = unat sz mod 2 ^ 25"
  proof -
    have "sz AND BAR_SIZE_MASK = take_bit 25 sz"
      by (simp add: BAR_SIZE_MASK_def take_bit_eq_mask mask_eq_exp_minus_1)
    then show ?thesis by (simp add: take_bit_eq_mod unat_mod_distrib)
  qed
  ultimately have "unat (sz AND BAR_SIZE_MASK) = unat sz" by simp
  then show ?thesis by (simp only: unat_word_eq_iff)
qed

text \<open>
  The contract of a call that programs region \<open>n\<close> in direction \<open>d\<close>, over the history before and
  the result and history after.
\<close>

definition atu_opened ::
  "eon_device \<Rightarrow> atu_dir \<Rightarrow> u8 \<Rightarrow> u8 \<Rightarrow> u64 \<Rightarrow> u64 \<Rightarrow> hist \<Rightarrow> int \<times> hist \<Rightarrow> bool" where
  "atu_opened dev d bi n addr sz h r =
     (if sz > 0x1000000 then r = (-1, h)
      else fst r = 0 \<and> atu_target dev d n (snd r) = Some addr \<and>
        atu_reg_val dev n (d, Ctrl1) (snd r) = Some (ucast sz) \<and>
        atu_reg_val dev n (d, Ctrl2) (snd r) = Some (0xc0000000 OR push_bit 8 (ucast bi)) \<and>
        (\<forall>e m x. (e, m) \<noteq> (d, n) \<longrightarrow>
          atu_reg_val dev m (e, x) (snd r) = atu_reg_val dev m (e, x) h) \<and>
        (\<forall>x \<in> {LwrBase, UprBase, Limit, UprLimit}.
          atu_reg_val dev n (d, x) (snd r) = atu_reg_val dev n (d, x) h))"

text \<open>
  C19: programming a region. Up to 16 MB, either function returns 0, its side of the region then
  translates to the given 64-bit device address, with the size and the enabled BAR-match word in
  the control registers, and every other register of the ATU keeps its value; above 16 MB it
  returns -1 and issues no access.
\<close>

theorem iatu_map_correct:
  "atu_opened dev Inbound bi n addr sz h (iatu_map_inbound_bar env dev bi n addr sz h) \<and>
   atu_opened dev Outbound bi n addr sz h (iatu_map_outbound_bar env dev bi n addr sz h)"
  by (auto simp: atu_opened_def iatu_map_inbound_bar_eq iatu_map_outbound_bar_eq
      atu_target_program atu_reg_val_program ucast_size_mask)

end
