(* ===== verification/Eon_Sg.thy ===== *)
theory Eon_Sg
  imports Eon_Device
begin

text \<open>
  Pinning the user buffer and building its scatter list (\<open>test_dev.c\<close>: \<open>get_pages_nr\<close>,
  \<open>dpu_get_pages\<close>, \<open>dpu_put_pages\<close>, \<open>dpu_setup_sg\<close>, \<open>dpu_teardown_sg\<close>). The kernel's
  \<open>get_user_pages_fast\<close>, \<open>sg_alloc_table\<close> and \<open>pci_map_sg\<close> are parameters: what they
  return is any function of the history. Pages are those of x86, 4096 bytes.
\<close>

section \<open>Data\<close>

record dpu_page_blocks =
  pb_pages :: u64
  pb_pages_nr :: u32

text \<open>\<open>hm_blocks\<close> is the array's address, \<open>hm_block_arr\<close> what it holds.\<close>

record dpu_host_mem_info =
  hm_addr :: u64
  hm_len :: u64
  hm_blocks :: u64
  hm_block_arr :: "dpu_page_blocks list"
  hm_blocks_nr :: u32

record sg_entry =
  sg_page :: u64
  sg_length :: u32
  sg_offset :: u32
  sg_dma_address :: u64
  sg_dma_len :: u32

record xfer_job =
  xj_src :: u64
  xj_dst :: u64
  xj_size :: u64

record dpu_xfer_info =
  xi_sgt :: u64
  xi_sg :: "sg_entry list"
  xi_sglen :: u32
  xi_align :: xfer_job
  xi_hmem_info :: dpu_host_mem_info
  xi_size :: u64
  xi_dir :: u64

record sg_env = kenv +
  k_gup :: "hist \<Rightarrow> u64 \<Rightarrow> u32 \<Rightarrow> int \<times> (nat \<Rightarrow> u64)"
  k_sg_alloc_table :: "hist \<Rightarrow> int \<Rightarrow> int"
  k_map_sg :: "hist \<Rightarrow> sg_entry list \<Rightarrow> u64 \<Rightarrow> int \<times> (nat \<Rightarrow> u64 \<times> u32)"

section \<open>Pages of a buffer\<close>

definition PAGE_SHIFT :: nat where
  "PAGE_SHIFT = 12"

definition PAGE_SIZE :: u64 where
  "PAGE_SIZE = 4096"

definition PAGE_MASK :: u64 where
  "PAGE_MASK = NOT (PAGE_SIZE - 1)"

definition offset_in_page :: "u64 \<Rightarrow> u32" where
  "offset_in_page p = ucast (p AND NOT PAGE_MASK)"

definition get_pages_nr :: "u64 \<Rightarrow> u64 \<Rightarrow> u64" where
  "get_pages_nr buf n = drop_bit PAGE_SHIFT ((buf + n + PAGE_SIZE - 1) - (buf AND PAGE_MASK))"

section \<open>Pinning and releasing the pages\<close>

text \<open>\<open>get_user_pages_fast\<close> pins the pages it returns; \<open>put_page\<close> unpins one.\<close>

definition get_user_pages_fast ::
  "'a sg_env_scheme \<Rightarrow> u64 \<Rightarrow> u32 \<Rightarrow> hist \<Rightarrow> int \<times> (nat \<Rightarrow> u64) \<times> hist" where
  "get_user_pages_fast env buf nr h =
     (let (ret, pages) = k_gup env h buf nr
      in (ret, pages, rev (map (\<lambda>i. Ev_acquire (Res_page (pages i))) [0..<nat ret]) @ h))"

definition put_page :: "u64 \<Rightarrow> hist \<Rightarrow> hist" where
  "put_page p h = Ev_release (Res_page p) # h"

text \<open>The loop over an array of page pointers that skips the NULL ones.\<close>

primrec put_each :: "u64 list \<Rightarrow> hist \<Rightarrow> hist" where
  "put_each [] h = h"
| "put_each (p # ps) h = put_each ps (if p \<noteq> 0 then put_page p h else h)"

text \<open>
  The test for a short pin compares the \<open>int\<close> result with the \<open>uint32_t\<close> cnt, so C
  converts the result to unsigned first.
\<close>

definition dpu_get_pages ::
  "'a sg_env_scheme \<Rightarrow> u64 \<Rightarrow> u64 \<Rightarrow> dpu_host_mem_info option \<Rightarrow> hist \<Rightarrow>
   int \<times> dpu_host_mem_info option \<times> hist" where
  "dpu_get_pages env buf n info h =
     (case info of None \<Rightarrow> (-1, None, h)
      | Some info \<Rightarrow>
        let info = info\<lparr>hm_addr := buf\<rparr>;
            blocks_nr = get_pages_nr buf n;
            (blocks_tmp, h) = vmalloc env (blocks_nr * 16) h
        in if blocks_tmp = 0 then (-1, Some info, h)
        else
          let info = info\<lparr>hm_blocks_nr := ucast blocks_nr\<rparr>;
              (pages_tmp, h) = vmalloc env (ucast (hm_blocks_nr info) * 8) h
          in if pages_tmp = 0 then (-2, Some info, vfree blocks_tmp h)
          else
            let (ret, pages, h) = get_user_pages_fast env buf (hm_blocks_nr info) h
            in if u32_of_int ret < hm_blocks_nr info then
                 let h = (if ret > 0 then put_each (map pages [0..<nat ret]) h else h)
                 in (-3, Some info, vfree blocks_tmp (vfree pages_tmp h))
               else
                 let info = info\<lparr>hm_blocks := blocks_tmp,
                       hm_block_arr := map (\<lambda>i. \<lparr>pb_pages = pages i, pb_pages_nr = 1\<rparr>)
                         [0..<unat blocks_nr]\<rparr>
                 in (0, Some info, vfree pages_tmp h))"

definition dpu_put_pages :: "dpu_host_mem_info option \<Rightarrow> hist \<Rightarrow> int \<times> hist" where
  "dpu_put_pages info h =
     (case info of None \<Rightarrow> (-1, h)
      | Some info \<Rightarrow>
        let h = (if hm_blocks info \<noteq> 0
                 then put_each (map pb_pages (take (unat (hm_blocks_nr info)) (hm_block_arr info))) h
                 else h)
        in (0, vfree (hm_blocks info) h))"

section \<open>The scatter list\<close>

text \<open>
  One turn of the \<open>for_each_sg\<close> loop per block: the part of the block behind the offset in
  the page, or the bytes left (compared as \<open>unsigned int\<close>) if they are fewer.
\<close>

primrec sg_fill :: "u64 \<Rightarrow> u64 \<Rightarrow> dpu_page_blocks list \<Rightarrow> sg_entry list" where
  "sg_fill host_addr cnt [] = []"
| "sg_fill host_addr cnt (block # blocks) =
     (let offset = offset_in_page host_addr;
          sz = (ucast (ucast (pb_pages_nr block) * PAGE_SIZE - ucast offset) :: u32);
          nbytes = min sz (ucast cnt)
      in \<lparr>sg_page = pb_pages block, sg_length = nbytes, sg_offset = offset,
           sg_dma_address = 0, sg_dma_len = 0\<rparr>
         # sg_fill (host_addr + ucast nbytes) (cnt - ucast nbytes) blocks)"

definition set_dma :: "(nat \<Rightarrow> u64 \<times> u32) \<Rightarrow> sg_entry list \<Rightarrow> sg_entry list" where
  "set_dma f es = map (\<lambda>(i, e). e\<lparr>sg_dma_address := fst (f i), sg_dma_len := snd (f i)\<rparr>)
     (enumerate 0 es)"

definition sg_free_table :: "u64 \<Rightarrow> hist \<Rightarrow> hist" where
  "sg_free_table sgt h = Ev_release (Res_sg_table sgt) # h"

definition dpu_setup_sg ::
  "'a sg_env_scheme \<Rightarrow> dpu_xfer_info \<Rightarrow> u64 \<Rightarrow> u64 \<Rightarrow> u32 \<Rightarrow> hist \<Rightarrow> int \<times> dpu_xfer_info \<times> hist"
  where
  "dpu_setup_sg env xfer_info pd host_addr in_out_bound h =
     (let cnt = xi_size xfer_info;
          (ret, info, h) = dpu_get_pages env host_addr cnt (Some (xi_hmem_info xfer_info)) h;
          hmem_info = the info;
          xfer_info = xfer_info\<lparr>xi_hmem_info := hmem_info\<rparr>
      in if ret \<noteq> 0 then (ret, xfer_info, h)
      else
        let sg_nr = hm_blocks_nr hmem_info;
            (sgt, h) = kmalloc env (k_sizeof env ''struct sg_table'') h
        in if sgt = 0 then (-1, xfer_info, snd (dpu_put_pages (Some hmem_info) h))
        else if k_sg_alloc_table env h (uint sg_nr) \<noteq> 0
        then (-2, xfer_info, snd (dpu_put_pages (Some hmem_info) (kfree sgt h)))
        else
          let h = Ev_acquire (Res_sg_table sgt) # h;
              es = sg_fill host_addr cnt (take (unat sg_nr) (hm_block_arr hmem_info));
              (nents, dma) = k_map_sg env h es (xi_dir xfer_info)
          in if nents = 0
             then (-3, xfer_info,
                   snd (dpu_put_pages (Some hmem_info) (kfree sgt (sg_free_table sgt h))))
             else
               let h = Ev_acquire (Res_sg_map sgt) # h;
                   xfer_info = xfer_info\<lparr>xi_sgt := sgt, xi_sg := set_dma dma es,
                     xi_sglen := sg_nr,
                     xi_align := (xi_align xfer_info)\<lparr>xj_size := xi_size xfer_info\<rparr>\<rparr>
               in (0, xfer_info, h))"

definition dpu_teardown_sg :: "dpu_xfer_info \<Rightarrow> hist \<Rightarrow> hist" where
  "dpu_teardown_sg xfer_info h =
     (let h = sg_free_table (xi_sgt xfer_info) h;
          h = kfree (xi_sgt xfer_info) h
      in snd (dpu_put_pages (Some (xi_hmem_info xfer_info)) h))"

section \<open>Page arithmetic\<close>

lemma unat_and_low12: "unat ((a :: u64) AND 4095) = unat a mod 4096"
proof -
  have "a AND 4095 = take_bit 12 a"
    by (simp add: take_bit_eq_mask mask_eq_exp_minus_1)
  then show ?thesis by (simp add: take_bit_eq_mod unat_mod_distrib)
qed

lemma not_page_mask: "NOT PAGE_MASK = 4095"
  by (simp add: PAGE_MASK_def PAGE_SIZE_def)

lemma unat_offset_in_page: "unat (offset_in_page a) = unat a mod 4096"
proof -
  have "unat a mod 4096 < 4096" by simp
  then show ?thesis
    by (simp add: offset_in_page_def not_page_mask unat_and_low12 unsigned_ucast_eq take_bit_nat_eq_self)
qed

lemma and_page_mask: "(a :: u64) AND PAGE_MASK = a - (a AND 4095)"
proof -
  have "(a AND 4095) + (a AND NOT 4095) = a"
    by (subst disjunctive_add) (auto simp: bit_simps simp flip: bit.conj_disj_distrib)
  then show ?thesis
    by (simp add: PAGE_MASK_def PAGE_SIZE_def algebra_simps)
qed

text \<open>\<open>npages a n\<close> is the number of pages from address \<open>a\<close> on that \<open>n\<close> bytes take.\<close>

definition npages :: "nat \<Rightarrow> nat \<Rightarrow> nat" where
  "npages a n = (a mod 4096 + n + 4095) div 4096"

lemma unat_get_pages_nr:
  assumes "unat a + unat n + 4096 < 2 ^ 64"
  shows "unat (get_pages_nr a n) = npages (unat a) (unat n)"
proof -
  have s1: "unat (a + n) = unat a + unat n"
    using assms by (simp add: unat_add_lem [THEN iffD1])
  have s2: "unat (a + n + 4096) = unat a + unat n + 4096"
    using assms s1 by (subst unat_add_lem [THEN iffD1]) simp_all
  have s3: "unat (a + n + 4096 - 1) = unat a + unat n + 4095"
    using s2 by (subst unat_minus_one) auto
  have m: "unat (a - (a AND 4095)) = unat a - unat a mod 4096"
    by (subst unat_sub) (simp_all add: unat_and_low12 word_and_le2)
  have "unat ((a + n + 4096 - 1) - (a - (a AND 4095))) = unat a mod 4096 + unat n + 4095"
    using s3 m by (subst unat_sub) (simp_all add: word_le_nat_alt)
  then show ?thesis
    by (simp add: get_pages_nr_def PAGE_SHIFT_def and_page_mask npages_def drop_bit_eq_div
        unat_div_distrib PAGE_SIZE_def)
qed

section \<open>The scatter list covers the buffer\<close>

lemma npages_image:
  fixes a n :: nat
  assumes "0 < n"
  shows "(\<lambda>i. (a + i) div 4096) ` {..<n} = {a div 4096 .. (a + n - 1) div 4096}"
proof (intro equalityI subsetI)
  fix p assume "p \<in> (\<lambda>i. (a + i) div 4096) ` {..<n}"
  then obtain i where "i < n" "p = (a + i) div 4096" by auto
  then show "p \<in> {a div 4096 .. (a + n - 1) div 4096}"
    using div_le_mono [of a "a + i" 4096] div_le_mono [of "a + i" "a + n - 1" 4096] by simp
next
  fix p assume p: "p \<in> {a div 4096 .. (a + n - 1) div 4096}"
  define i where "i = p * 4096 - a"
  have up: "p * 4096 \<le> a + n - 1"
    using p by (simp add: less_eq_div_iff_mult_less_eq)
  have lo: "a < Suc p * 4096"
  proof -
    have "a < 4096 + (a div 4096) * 4096" by (rule dividend_less_div_times) simp
    moreover have "(a div 4096) * 4096 \<le> p * 4096" using p by simp
    ultimately show ?thesis by simp
  qed
  have "(a + i) div 4096 = p"
  proof (cases "a \<le> p * 4096")
    case True
    then show ?thesis by (simp add: i_def)
  next
    case False
    then have "a div 4096 = p" using lo by (intro div_nat_eqI) simp_all
    with False show ?thesis by (simp add: i_def)
  qed
  moreover have "i < n" using up assms by (simp add: i_def)
  ultimately show "p \<in> (\<lambda>i. (a + i) div 4096) ` {..<n}" by auto
qed

lemma npages_card:
  assumes "0 < n"
  shows "npages a n = card ((\<lambda>i. (a + i) div 4096) ` {..<n})"
proof -
  have "npages a n + a div 4096 = Suc ((a + n - 1) div 4096)"
  proof -
    have "npages a n + a div 4096 = (a mod 4096 + n + 4095 + 4096 * (a div 4096)) div 4096"
      unfolding npages_def by (simp only: div_mult_self2 [of 4096] add.commute)
    also have "a mod 4096 + n + 4095 + 4096 * (a div 4096) = a + n - 1 + 4096"
      using assms by (simp add: algebra_simps)
    finally show ?thesis by simp
  qed
  then show ?thesis by (simp add: npages_image [OF assms])
qed

definition seg_len :: "u64 \<Rightarrow> u64 \<Rightarrow> u32" where
  "seg_len a n = min (ucast (PAGE_SIZE - ucast (offset_in_page a))) (ucast n)"

lemma unat_seg_len:
  assumes "unat n < 2 ^ 32"
  shows "unat (seg_len a n) = min (4096 - unat a mod 4096) (unat n)"
proof -
  have o: "unat (ucast (offset_in_page a) :: u64) = unat a mod 4096"
    by (simp add: unsigned_ucast_eq unat_offset_in_page take_bit_nat_eq_self order_less_trans [of _ 4096])
  have "unat (PAGE_SIZE - ucast (offset_in_page a)) = 4096 - unat a mod 4096"
    using o by (subst unat_sub) (simp_all add: PAGE_SIZE_def word_le_nat_alt)
  then have s: "unat (ucast (PAGE_SIZE - ucast (offset_in_page a)) :: u32) = 4096 - unat a mod 4096"
    by (simp add: unsigned_ucast_eq take_bit_nat_eq_self)
  have c: "unat (ucast n :: u32) = unat n"
    using assms by (simp add: unsigned_ucast_eq take_bit_nat_eq_self)
  show ?thesis
    using s c by (simp add: seg_len_def min_def word_le_nat_alt)
qed

lemma sg_fill_Cons:
  assumes "pb_pages_nr b = 1"
  shows "sg_fill a n (b # bs) =
    \<lparr>sg_page = pb_pages b, sg_length = seg_len a n, sg_offset = offset_in_page a,
      sg_dma_address = 0, sg_dma_len = 0\<rparr>
    # sg_fill (a + ucast (seg_len a n)) (n - ucast (seg_len a n)) bs"
  using assms by (simp add: sg_fill.simps seg_len_def Let_def)

declare sg_fill.simps(2) [simp del]

lemma npages_last:
  assumes "npages a n = Suc 0"
  shows "n \<le> 4096 - a mod 4096"
proof -
  have "a mod 4096 + n + 4095 < 2 * 4096"
    using assms unfolding npages_def by arith
  then show ?thesis by simp
qed

lemma npages_more:
  assumes "npages a n = Suc (Suc k)" and "l = min (4096 - a mod 4096) n"
  shows "l = 4096 - a mod 4096" "npages (a + l) (n - l) = Suc k"
    "(a + l) mod 4096 = 0" "(a + l) div 4096 = Suc (a div 4096)"
proof -
  define r q where "r = a mod 4096" and "q = a div 4096"
  have a: "a = 4096 * q + r" and r: "r < 4096" by (simp_all add: r_def q_def)
  have k: "Suc (Suc k) = (r + n + 4095) div 4096"
    using assms(1) by (simp add: npages_def r_def)
  then have big: "4096 - r < n" using r by arith
  show l: "l = 4096 - a mod 4096" using assms(2) big by (simp add: r_def)
  then have lr: "l = 4096 - r" by (simp add: r_def)
  then have al: "a + l = Suc q * 4096" using a r by simp
  have "r + n + 4095 = n - l + 4095 + 4096" using lr r big by simp
  then have "Suc k = (n - l + 4095) div 4096" using k by simp
  moreover have "(a + l) mod 4096 = 0" unfolding al by (rule mod_mult_self2_is_0)
  ultimately show "npages (a + l) (n - l) = Suc k" and "(a + l) mod 4096 = 0"
    unfolding npages_def by simp_all
  show "(a + l) div 4096 = Suc (a div 4096)"
    unfolding al by (simp add: q_def)
qed

definition sg_sum :: "sg_entry list \<Rightarrow> nat" where
  "sg_sum es = sum_list (map (\<lambda>e. unat (sg_length e)) es)"

lemma sg_sum_simps [simp]: "sg_sum [] = 0" "sg_sum (e # es) = unat (sg_length e) + sg_sum es"
  by (simp_all add: sg_sum_def)

lemma length_sg_fill [simp]: "length (sg_fill a n bs) = length bs"
  by (induction bs arbitrary: a n) (simp_all add: sg_fill.simps Let_def)

lemma unat_seg_step:
  assumes "unat n < 2 ^ 32" and "unat a + unat n < 2 ^ 64"
  shows "unat (a + ucast (seg_len a n)) = unat a + unat (seg_len a n)"
    and "unat (n - ucast (seg_len a n)) = unat n - unat (seg_len a n)"
proof -
  have le: "unat (seg_len a n) \<le> unat n" using assms by (simp add: unat_seg_len)
  show "unat (a + ucast (seg_len a n)) = unat a + unat (seg_len a n)"
    using assms le by (subst unat_add_lem [THEN iffD1]) simp_all
  show "unat (n - ucast (seg_len a n)) = unat n - unat (seg_len a n)"
    using le by (subst unat_sub) (simp_all add: word_le_nat_alt)
qed

lemma sg_fill_tiles:
  assumes "\<forall>b \<in> set bs. pb_pages_nr b = 1" and "unat n < 2 ^ 32"
    and "unat a + unat n < 2 ^ 64"
    and "length bs = npages (unat a) (unat n) \<or> bs = [] \<and> n = 0"
  shows "sg_sum (sg_fill a n bs) = unat n \<and>
    (\<forall>i < length bs. let e = sg_fill a n bs ! i; s = unat a + sg_sum (take i (sg_fill a n bs)) in
      sg_page e = pb_pages (bs ! i) \<and> unat (sg_offset e) = s mod 4096 \<and>
      s div 4096 = unat a div 4096 + i \<and> unat (sg_offset e) + unat (sg_length e) \<le> 4096)"
  using assms
proof (induction bs arbitrary: a n)
  case Nil
  have "n = 0"
  proof (cases "n = 0")
    case False
    then have "1 \<le> unat n" by (simp add: unat_gt_0 Suc_le_eq)
    then have "0 < npages (unat a) (unat n)" by (simp add: npages_def div_greater_zero_iff)
    with Nil False show ?thesis by auto
  qed
  then show ?case by simp
next
  case (Cons b bs)
  let ?l = "seg_len a n"
  let ?a = "a + ucast ?l" and ?n = "n - ucast ?l"
  have l: "unat ?l = min (4096 - unat a mod 4096) (unat n)"
    using Cons.prems by (simp add: unat_seg_len)
  have a: "unat ?a = unat a + unat ?l" and n: "unat ?n = unat n - unat ?l"
    using Cons.prems by (simp_all add: unat_seg_step)
  have np: "npages (unat a) (unat n) = Suc (length bs)"
    using Cons.prems by auto
  have b1: "pb_pages_nr b = 1" using Cons.prems by simp
  have "length bs = npages (unat ?a) (unat ?n) \<or> bs = [] \<and> ?n = 0"
  proof (cases bs)
    case Nil
    then have "unat ?n = 0" using npages_last np l n by simp
    then show ?thesis using Nil by (simp add: unat_eq_0)
  next
    case (Cons c cs)
    then show ?thesis using npages_more(2) [OF _ l] np a n by simp
  qed
  moreover have "unat ?l \<le> unat n" using l by simp
  then have "unat ?a + unat ?n < 2 ^ 64" "unat ?n < 2 ^ 32"
    using Cons.prems(2,3) unfolding a n by linarith+
  ultimately have IH: "sg_sum (sg_fill ?a ?n bs) = unat ?n"
    "\<And>i. i < length bs \<Longrightarrow>
      let e = sg_fill ?a ?n bs ! i; s = unat ?a + sg_sum (take i (sg_fill ?a ?n bs)) in
      sg_page e = pb_pages (bs ! i) \<and> unat (sg_offset e) = s mod 4096 \<and>
      s div 4096 = unat ?a div 4096 + i \<and> unat (sg_offset e) + unat (sg_length e) \<le> 4096"
    using Cons.IH [of ?n ?a] Cons.prems(1) by simp_all
  show ?case
  proof (intro conjI allI impI)
    show "sg_sum (sg_fill a n (b # bs)) = unat n"
      using IH(1) n l by (simp add: sg_fill_Cons [OF b1])
    fix i assume i: "i < length (b # bs)"
    show "let e = sg_fill a n (b # bs) ! i; s = unat a + sg_sum (take i (sg_fill a n (b # bs))) in
      sg_page e = pb_pages ((b # bs) ! i) \<and> unat (sg_offset e) = s mod 4096 \<and>
      s div 4096 = unat a div 4096 + i \<and> unat (sg_offset e) + unat (sg_length e) \<le> 4096"
    proof (cases i)
      case 0
      then show ?thesis
        using l by (simp add: sg_fill_Cons [OF b1] unat_offset_in_page Let_def)
    next
      case (Suc j)
      with i have j: "j < length bs" by simp
      then obtain k where "length bs = Suc k" by (cases "length bs") auto
      with np l a have "unat ?a div 4096 = Suc (unat a div 4096)"
        using npages_more(4) by metis
      then show ?thesis
        using IH(2) [OF j] a Suc by (simp add: sg_fill_Cons [OF b1] Let_def add.assoc)
    qed
  qed
qed

section \<open>Resources of the pinned buffer\<close>

lemma held_acquires:
  "held (rev (map (\<lambda>x. Ev_acquire (f x)) xs) @ h) = mset (map f xs) + held h"
  by (induction xs rule: rev_induct) simp_all

lemma no_bad_acquires:
  "no_bad_release (rev (map (\<lambda>x. Ev_acquire (f x)) xs) @ h) = no_bad_release h"
  by (induction xs rule: rev_induct) simp_all

lemma put_each_held:
  "0 \<notin> set ps \<Longrightarrow> held (put_each ps h) = held h - mset (map Res_page ps)"
  by (induction ps arbitrary: h) (simp_all add: put_page_def diff_diff_add_mset)

lemma put_each_no_bad:
  "mset (map Res_page ps) \<subseteq># held h \<Longrightarrow> no_bad_release h \<Longrightarrow> no_bad_release (put_each ps h)"
proof (induction ps arbitrary: h)
  case (Cons p ps)
  show ?case
  proof (cases "p = 0")
    case True
    then show ?thesis using Cons by (auto dest: mset_subset_eq_insertD)
  next
    case False
    have "Res_page p \<in># held h" "mset (map Res_page ps) \<subseteq># held h - {#Res_page p#}"
      using Cons.prems(1) by (simp_all add: insert_subset_eq_iff)
    then show ?thesis using Cons False by (simp add: put_page_def)
  qed
qed simp

text \<open>What a host-memory descriptor holds: its block array and the pinned pages.\<close>

definition hmem_pages :: "dpu_host_mem_info \<Rightarrow> u64 list" where
  "hmem_pages info = map pb_pages (take (unat (hm_blocks_nr info)) (hm_block_arr info))"

definition hmem_res :: "dpu_host_mem_info \<Rightarrow> resource multiset" where
  "hmem_res info = add_mset (Res_vmem (hm_blocks info)) (mset (map Res_page (hmem_pages info)))"

definition hmem_ok :: "dpu_host_mem_info \<Rightarrow> bool" where
  "hmem_ok info \<longleftrightarrow> hm_blocks info \<noteq> 0 \<and> 0 \<notin> set (hmem_pages info)"

lemma dpu_put_pages_held:
  assumes "hmem_ok info"
  shows "held (snd (dpu_put_pages (Some info) h)) = held h - hmem_res info"
  using assms
  by (simp add: dpu_put_pages_def hmem_ok_def vfree_def put_each_held hmem_res_def
      diff_diff_add_mset flip: hmem_pages_def)

lemma dpu_put_pages_no_bad:
  assumes "hmem_ok info" and "hmem_res info \<subseteq># held h" and "no_bad_release h"
  shows "no_bad_release (snd (dpu_put_pages (Some info) h))"
proof -
  let ?P = "mset (map Res_page (hmem_pages info))"
  obtain D where D: "held h = hmem_res info + D"
    using assms(2) by (auto simp: mset_subset_eq_exists_conv)
  then have "?P \<subseteq># held h" by (simp add: hmem_res_def subset_mset.add_increasing2 mset_subset_eq_exists_conv)
  then have "no_bad_release (put_each (hmem_pages info) h)"
    using assms(3) by (rule put_each_no_bad)
  moreover have "Res_vmem (hm_blocks info) \<in># held h - ?P"
    by (simp add: D hmem_res_def)
  ultimately show ?thesis
    using assms(1)
    by (simp add: dpu_put_pages_def hmem_ok_def vfree_def put_each_held flip: hmem_pages_def)
qed

text \<open>
  The documented results of \<open>get_user_pages_fast\<close> but for its negative error codes: a count
  between 0 and the number asked for, and that many page pointers.
\<close>

definition gup_counts :: "'a sg_env_scheme \<Rightarrow> bool" where
  "gup_counts env \<longleftrightarrow> (\<forall>h a n. 0 \<le> fst (k_gup env h a n) \<and> fst (k_gup env h a n) \<le> uint n \<and>
     (\<forall>i < nat (fst (k_gup env h a n)). snd (k_gup env h a n) i \<noteq> 0))"

lemma gup_countsD:
  assumes "gup_counts env" and "k_gup env h a n = (ret, pages)"
  shows "0 \<le> ret" "ret \<le> uint n" "i < nat ret \<Longrightarrow> pages i \<noteq> 0"
  using assms unfolding gup_counts_def by (metis fst_conv snd_conv)+

lemma uint_u32_of_int: "0 \<le> i \<Longrightarrow> i \<le> uint (n :: u32) \<Longrightarrow> uint (u32_of_int i) = i"
proof -
  assume i: "0 \<le> i" "i \<le> uint n"
  have "uint n < 2 ^ 32" using unsigned_less [of n] by simp
  with i show ?thesis by (simp add: u32_of_int_def unsigned_of_int take_bit_int_eq_self)
qed

lemma vmalloc_res:
  assumes "vmalloc env s h = (p, h')"
  shows "held h' = (if p = 0 then held h else add_mset (Res_vmem p) (held h))"
    and "no_bad_release h' = no_bad_release h"
  using assms by (auto simp: vmalloc_def Let_def split: if_splits)

lemma kmalloc_res:
  assumes "kmalloc env s h = (p, h')"
  shows "held h' = (if p = 0 then held h else add_mset (Res_kmem p) (held h))"
    and "no_bad_release h' = no_bad_release h"
  using assms by (auto simp: kmalloc_def Let_def split: if_splits)

lemma vfree_res:
  "held (vfree p h) = (if p = 0 then held h else held h - {#Res_vmem p#})"
  "no_bad_release (vfree p h) = ((p = 0 \<or> Res_vmem p \<in># held h) \<and> no_bad_release h)"
  by (auto simp: vfree_def)

lemma kfree_res:
  "held (kfree p h) = (if p = 0 then held h else held h - {#Res_kmem p#})"
  "no_bad_release (kfree p h) = ((p = 0 \<or> Res_kmem p \<in># held h) \<and> no_bad_release h)"
  by (auto simp: kfree_def)

lemmas alloc_res = vmalloc_res kmalloc_res vfree_res kfree_res

lemma unpin:
  assumes "0 \<notin> f ` set xs"
  shows "held (put_each (map f xs) (rev (map (\<lambda>i. Ev_acquire (Res_page (f i))) xs) @ h)) = held h"
    and "no_bad_release h \<Longrightarrow>
      no_bad_release (put_each (map f xs) (rev (map (\<lambda>i. Ev_acquire (Res_page (f i))) xs) @ h))"
  using assms by (auto simp: put_each_held held_acquires [where f = "\<lambda>i. Res_page (f i)"] o_def
      no_bad_acquires [where f = "\<lambda>i. Res_page (f i)"] intro!: put_each_no_bad)

text \<open>The four outcomes of \<open>dpu_get_pages\<close>, with the calls it made named.\<close>

lemma dpu_get_pages_cases:
  assumes "dpu_get_pages env a n (Some x) h = (ret, info', h')"
  obtains (no_blocks) h1 where "vmalloc env (get_pages_nr a n * 16) h = (0, h1)"
      "ret = -1" "h' = h1"
  | (no_tmp) b h1 h2 where "vmalloc env (get_pages_nr a n * 16) h = (b, h1)" "b \<noteq> 0"
      "vmalloc env (ucast (ucast (get_pages_nr a n) :: u32) * 8) h1 = (0, h2)"
      "ret = -2" "h' = vfree b h2"
  | (short) b t r pages h1 h2 where "vmalloc env (get_pages_nr a n * 16) h = (b, h1)" "b \<noteq> 0"
      "vmalloc env (ucast (ucast (get_pages_nr a n) :: u32) * 8) h1 = (t, h2)" "t \<noteq> 0"
      "k_gup env h2 a (ucast (get_pages_nr a n)) = (r, pages)"
      "u32_of_int r < ucast (get_pages_nr a n)" "ret = -3"
      "h' = vfree b (vfree t
         (if r > 0 then put_each (map pages [0..<nat r])
            (rev (map (\<lambda>i. Ev_acquire (Res_page (pages i))) [0..<nat r]) @ h2) else h2))"
  | (pinned) b t r pages h1 h2 where "vmalloc env (get_pages_nr a n * 16) h = (b, h1)" "b \<noteq> 0"
      "vmalloc env (ucast (ucast (get_pages_nr a n) :: u32) * 8) h1 = (t, h2)" "t \<noteq> 0"
      "k_gup env h2 a (ucast (get_pages_nr a n)) = (r, pages)"
      "\<not> u32_of_int r < ucast (get_pages_nr a n)" "ret = 0"
      "info' = Some (x\<lparr>hm_addr := a, hm_blocks_nr := ucast (get_pages_nr a n), hm_blocks := b,
         hm_block_arr := map (\<lambda>i. \<lparr>pb_pages = pages i, pb_pages_nr = 1\<rparr>) [0..<unat (get_pages_nr a n)]\<rparr>)"
      "h' = vfree t (rev (map (\<lambda>i. Ev_acquire (Res_page (pages i))) [0..<nat r]) @ h2)"
proof -
  obtain b h1 where 1: "vmalloc env (get_pages_nr a n * 16) h = (b, h1)" by fastforce
  obtain t h2 where 2: "vmalloc env (ucast (ucast (get_pages_nr a n) :: u32) * 8) h1 = (t, h2)"
    by fastforce
  obtain r pages where 3: "k_gup env h2 a (ucast (get_pages_nr a n)) = (r, pages)" by fastforce
  have nil: "r \<le> 0 \<Longrightarrow> rev (map (\<lambda>i. Ev_acquire (Res_page (pages i))) [0..<nat r]) @ h2 = h2" by simp
  consider "b = 0" | "b \<noteq> 0" "t = 0" | "b \<noteq> 0" "t \<noteq> 0" "u32_of_int r < ucast (get_pages_nr a n)"
    | "b \<noteq> 0" "t \<noteq> 0" "\<not> u32_of_int r < ucast (get_pages_nr a n)" by blast
  then show ?thesis
  proof cases
    case 1
    then show ?thesis using no_blocks \<open>vmalloc env (get_pages_nr a n * 16) h = (b, h1)\<close> assms
      by (simp add: dpu_get_pages_def Let_def)
  next
    case c: 2
    then show ?thesis using no_tmp 1 2 assms by (simp add: dpu_get_pages_def Let_def)
  next
    case c: 3
    then show ?thesis using assms
      by (intro short [OF 1 _ 2 _ 3]; cases "0 < r")
        (simp_all add: dpu_get_pages_def Let_def 1 2 3 get_user_pages_fast_def nil)
  next
    case c: 4
    then show ?thesis using assms
      by (intro pinned [OF 1 _ 2 _ 3])
        (simp_all add: dpu_get_pages_def Let_def 1 2 3 get_user_pages_fast_def)
  qed
qed

lemma dpu_get_pages_fail:
  assumes "gup_counts env" and "dpu_get_pages env a n info h = (ret, info', h')" and "ret \<noteq> 0"
  shows "held h' = held h \<and> (no_bad_release h \<longrightarrow> no_bad_release h')"
proof (cases info)
  case None
  then show ?thesis using assms(2) by (simp add: dpu_get_pages_def)
next
  case (Some x)
  from assms(2) [unfolded Some] show ?thesis
  proof (cases rule: dpu_get_pages_cases)
    case (short b t r pages h1 h2)
    have "0 \<notin> pages ` set [0..<nat r]" using gup_countsD(3) [OF assms(1) short(5)] by fastforce
    with short show ?thesis by (auto simp: alloc_res unpin)
  qed (use assms(3) in \<open>auto simp: alloc_res\<close>)
qed

lemma dpu_get_pages_ok:
  assumes "gup_counts env" and "dpu_get_pages env a n (Some x) h = (0, info', h')"
  shows "\<exists>i. info' = Some i \<and> hmem_ok i \<and> held h' = held h + hmem_res i \<and>
    (no_bad_release h \<longrightarrow> no_bad_release h') \<and>
    hm_blocks_nr i = ucast (get_pages_nr a n) \<and> length (hm_block_arr i) = unat (get_pages_nr a n) \<and>
    (\<forall>b \<in> set (hm_block_arr i). pb_pages_nr b = 1)"
  using assms(2)
proof (cases rule: dpu_get_pages_cases)
  case (pinned b t r pages h1 h2)
  let ?nr = "ucast (get_pages_nr a n) :: u32"
  have r: "0 \<le> r" "r \<le> uint ?nr" using gup_countsD [OF assms(1) pinned(5)] by auto
  then have "uint (u32_of_int r) = r" by (rule uint_u32_of_int)
  with pinned(6) r have "r = uint ?nr" by (simp add: word_less_def)
  then have nr: "nat r = unat ?nr" by simp
  have le: "unat ?nr \<le> unat (get_pages_nr a n)"
    by (simp add: unsigned_ucast_eq take_bit_nat_less_eq_self)
  let ?i = "x\<lparr>hm_addr := a, hm_blocks_nr := ucast (get_pages_nr a n), hm_blocks := b,
         hm_block_arr := map (\<lambda>i. \<lparr>pb_pages = pages i, pb_pages_nr = 1\<rparr>) [0..<unat (get_pages_nr a n)]\<rparr>"
  have pg: "hmem_pages ?i = map pages [0..<nat r]"
    using le by (simp add: hmem_pages_def nr take_map)
  have "0 \<notin> pages ` set [0..<nat r]" using gup_countsD(3) [OF assms(1) pinned(5)] by fastforce
  then have "hmem_ok ?i" using pinned by (simp add: hmem_ok_def pg)
  moreover have "held h' = held h + hmem_res ?i"
    using pinned by (simp add: alloc_res hmem_res_def pg held_acquires [where f = "\<lambda>i. Res_page (pages i)"] o_def)
  moreover have "no_bad_release h \<longrightarrow> no_bad_release h'"
    using pinned by (simp add: alloc_res held_acquires [where f = "\<lambda>i. Res_page (pages i)"]
        no_bad_acquires [where f = "\<lambda>i. Res_page (pages i)"])
  ultimately show ?thesis using pinned by auto
qed simp_all



definition sgt_res :: "u64 \<Rightarrow> resource multiset" where
  "sgt_res sgt = {#Res_kmem sgt, Res_sg_table sgt#}"

definition xfer_ok :: "dpu_xfer_info \<Rightarrow> bool" where
  "xfer_ok x \<longleftrightarrow> xi_sgt x \<noteq> 0 \<and> hmem_ok (xi_hmem_info x)"

definition xfer_res :: "dpu_xfer_info \<Rightarrow> resource multiset" where
  "xfer_res x = sgt_res (xi_sgt x) + hmem_res (xi_hmem_info x)"

lemma sg_free_table_res:
  "held (sg_free_table p h) = held h - {#Res_sg_table p#}"
  "no_bad_release (sg_free_table p h) = (Res_sg_table p \<in># held h \<and> no_bad_release h)"
  by (simp_all add: sg_free_table_def)

lemma dpu_setup_sg_cases:
  assumes "gup_counts env" and "dpu_setup_sg env x pd a f h = (ret, x', h')"
  obtains (failed) "ret \<noteq> 0" "held h' = held h" "no_bad_release h \<Longrightarrow> no_bad_release h'"
  | (ready) i dma where "ret = 0" "xfer_ok x'"
      "held h' = add_mset (Res_sg_map (xi_sgt x')) (held h + xfer_res x')"
      "no_bad_release h \<Longrightarrow> no_bad_release h'"
      "xi_hmem_info x' = i" "hm_blocks_nr i = ucast (get_pages_nr a (xi_size x))"
      "length (hm_block_arr i) = unat (get_pages_nr a (xi_size x))"
      "\<forall>b \<in> set (hm_block_arr i). pb_pages_nr b = 1"
      "xi_sglen x' = hm_blocks_nr i"
      "xi_sg x' = set_dma dma (sg_fill a (xi_size x) (take (unat (hm_blocks_nr i)) (hm_block_arr i)))"
      "xi_size x' = xi_size x" "xi_dir x' = xi_dir x"
      "xi_align x' = (xi_align x)\<lparr>xj_size := xi_size x\<rparr>"
proof -
  obtain r info h1 where g: "dpu_get_pages env a (xi_size x) (Some (xi_hmem_info x)) h = (r, info, h1)"
    by (metis prod_cases3)
  show ?thesis
  proof (cases "r = 0")
    case False
    then show ?thesis using assms(2) dpu_get_pages_fail [OF assms(1) g] failed
      by (simp add: dpu_setup_sg_def g)
  next
    case True
    obtain i where i: "info = Some i" "hmem_ok i" "held h1 = held h + hmem_res i"
      "no_bad_release h \<longrightarrow> no_bad_release h1" "hm_blocks_nr i = ucast (get_pages_nr a (xi_size x))"
      "length (hm_block_arr i) = unat (get_pages_nr a (xi_size x))"
      "\<forall>b \<in> set (hm_block_arr i). pb_pages_nr b = 1"
      using dpu_get_pages_ok [OF assms(1) g [unfolded True]] by blast
    obtain sgt h2 where k: "kmalloc env (k_sizeof env ''struct sg_table'') h1 = (sgt, h2)"
      by fastforce
    note h2 = kmalloc_res [OF k]
    let ?es = "sg_fill a (xi_size x) (take (unat (hm_blocks_nr i)) (hm_block_arr i))"
    let ?h3 = "Ev_acquire (Res_sg_table sgt) # h2"
    obtain nents dma where m: "k_map_sg env ?h3 ?es (xi_dir x) = (nents, dma)" by fastforce
    note unfold = dpu_setup_sg_def g True i(1) k m Let_def
    note put = dpu_put_pages_held [OF i(2)] dpu_put_pages_no_bad [OF i(2)]
    consider "sgt = 0" | "sgt \<noteq> 0" "k_sg_alloc_table env h2 (uint (hm_blocks_nr i)) \<noteq> 0"
      | "sgt \<noteq> 0" "k_sg_alloc_table env h2 (uint (hm_blocks_nr i)) = 0" "nents = 0"
      | "sgt \<noteq> 0" "k_sg_alloc_table env h2 (uint (hm_blocks_nr i)) = 0" "nents \<noteq> 0" by blast
    then show ?thesis
    proof cases
      case 1
      then have "h' = snd (dpu_put_pages (Some i) h2)" "ret = -1"
        using assms(2) by (simp_all add: unfold)
      then show ?thesis using i h2 1 by (intro failed) (simp_all add: put)
    next
      case 2
      then have "h' = snd (dpu_put_pages (Some i) (kfree sgt h2))" "ret = -2"
        using assms(2) by (simp_all add: unfold)
      then show ?thesis using i h2 2 by (intro failed) (simp_all add: put kfree_res)
    next
      case 3
      then have "h' = snd (dpu_put_pages (Some i) (kfree sgt (sg_free_table sgt ?h3)))" "ret = -3"
        using assms(2) by (simp_all add: unfold)
      then show ?thesis using i h2 3
        by (intro failed) (simp_all add: put kfree_res sg_free_table_res)
    next
      case 4
      let ?x = "x\<lparr>xi_hmem_info := i, xi_sgt := sgt, xi_sg := set_dma dma ?es, xi_sglen := hm_blocks_nr i,
         xi_align := (xi_align x)\<lparr>xj_size := xi_size x\<rparr>\<rparr>"
      have "x' = ?x" "h' = Ev_acquire (Res_sg_map sgt) # ?h3" "ret = 0"
        using assms(2) 4 by (simp_all add: unfold)
      then show ?thesis using i h2 4
        by (intro ready [of i dma]) (simp_all add: xfer_ok_def xfer_res_def sgt_res_def)
    qed
  qed
qed

lemma dpu_teardown_sg_res:
  assumes "xfer_ok x" and "xfer_res x \<subseteq># held h"
  shows "held (dpu_teardown_sg x h) = held h - xfer_res x"
    and "no_bad_release h \<Longrightarrow> no_bad_release (dpu_teardown_sg x h)"
proof -
  obtain D where D: "held h = xfer_res x + D"
    using assms(2) by (auto simp: mset_subset_eq_exists_conv)
  have ok: "hmem_ok (xi_hmem_info x)" "xi_sgt x \<noteq> 0" using assms(1) by (simp_all add: xfer_ok_def)
  show "held (dpu_teardown_sg x h) = held h - xfer_res x"
    using ok by (simp add: dpu_teardown_sg_def dpu_put_pages_held kfree_res sg_free_table_res D
        xfer_res_def sgt_res_def)
  show "no_bad_release h \<Longrightarrow> no_bad_release (dpu_teardown_sg x h)"
    unfolding dpu_teardown_sg_def Let_def using ok
    by (intro dpu_put_pages_no_bad)
      (simp_all add: kfree_res sg_free_table_res D xfer_res_def sgt_res_def)
qed

lemma length_set_dma [simp]: "length (set_dma f es) = length es"
  by (simp add: set_dma_def)

lemma nth_set_dma:
  "i < length es \<Longrightarrow>
    set_dma f es ! i = (es ! i)\<lparr>sg_dma_address := fst (f i), sg_dma_len := snd (f i)\<rparr>"
  by (simp add: set_dma_def nth_enumerate_eq)

lemma map_length_set_dma: "map sg_length (set_dma f es) = map sg_length es"
  by (rule nth_equalityI) (simp_all add: nth_set_dma)

lemma sg_sum_map: "sg_sum es = sum_list (map unat (map sg_length es))"
  by (simp add: sg_sum_def o_def)

lemma sg_sum_set_dma [simp]: "sg_sum (set_dma f es) = sg_sum es"
  by (simp only: sg_sum_map map_length_set_dma)

lemma sg_sum_take_set_dma [simp]: "sg_sum (take i (set_dma f es)) = sg_sum (take i es)"
  by (simp only: sg_sum_map map_length_set_dma flip: take_map)

lemma seg_len_low32_zero: "ucast n = (0 :: u32) \<Longrightarrow> seg_len a n = 0"
  by (simp add: seg_len_def)

lemma sg_fill_low32_zero:
  assumes "ucast n = (0 :: u32)" and "\<forall>b \<in> set bs. pb_pages_nr b = 1"
  shows "sg_sum (sg_fill a n bs) = 0"
  using assms by (induction bs) (simp_all add: sg_fill_Cons seg_len_low32_zero)

lemma pages_nr_fits:
  assumes "unat n < 2 ^ 32" and "unat a + unat n + 4096 < 2 ^ 64"
  shows "unat (ucast (get_pages_nr a n) :: u32) = unat (get_pages_nr a n)"
proof -
  have "npages (unat a) (unat n) \<le> (4095 + 2 ^ 32 + 4095) div 4096"
    unfolding npages_def using assms(1) by (intro div_le_mono) simp
  then have "unat (get_pages_nr a n) < 2 ^ 32"
    using unat_get_pages_nr [OF assms(2)] by simp
  then show ?thesis by (simp add: unsigned_ucast_eq take_bit_nat_eq_self)
qed

text \<open>A kernel for the witnesses: every call succeeds and every page asked for is pinned.\<close>

definition demo_sg_env :: sg_env where
  "demo_sg_env =
     \<lparr>mmio_read32 = (\<lambda>_ _. 0), mmio_read16 = (\<lambda>_ _. 0), dyn_debug = False,
      k_alloc = (\<lambda>_ _. 0x1000), k_call = (\<lambda>_ _. 0),
      k_sizeof = (\<lambda>_. 64), k_gup = (\<lambda>_ _ n. (uint n, \<lambda>_. 0x7000)),
      k_sg_alloc_table = (\<lambda>_ _. 0),
      k_map_sg = (\<lambda>_ _ _. (1, \<lambda>i. (0x80000000 + 0x1000 * of_nat i, 0x1000)))\<rparr>"

definition demo_xfer :: "u64 \<Rightarrow> dpu_xfer_info" where
  "demo_xfer n =
     \<lparr>xi_sgt = 0, xi_sg = [], xi_sglen = 0, xi_align = \<lparr>xj_src = 0, xj_dst = 0, xj_size = 0\<rparr>,
      xi_hmem_info = \<lparr>hm_addr = 0, hm_len = 0, hm_blocks = 0, hm_block_arr = [], hm_blocks_nr = 0\<rparr>,
      xi_size = n, xi_dir = 1\<rparr>"

lemma demo_gup_counts: "gup_counts demo_sg_env"
  by (simp add: gup_counts_def demo_sg_env_def)

lemma demo_setup_runs: "fst (dpu_setup_sg demo_sg_env x pd a f h) = 0"
  by (simp add: dpu_setup_sg_def dpu_get_pages_def demo_sg_env_def vmalloc_def kmalloc_def
      get_user_pages_fast_def u32_of_int_def Let_def)

lemma dpu_setup_sg_tiles:
  assumes "gup_counts env" and "dpu_setup_sg env x pd a f h = (0, x', h')"
    and "unat (xi_size x) < 2 ^ 32" and "unat a + unat (xi_size x) + 4096 < 2 ^ 64"
  shows "sg_sum (xi_sg x') = unat (xi_size x) \<and>
    length (xi_sg x') = unat (get_pages_nr a (xi_size x)) \<and>
    (\<forall>i < length (xi_sg x').
      let e = xi_sg x' ! i; s = unat a + sg_sum (take i (xi_sg x')) in
      sg_page e = hmem_pages (xi_hmem_info x') ! i \<and> unat (sg_offset e) = s mod 4096 \<and>
      s div 4096 = unat a div 4096 + i \<and> unat (sg_offset e) + unat (sg_length e) \<le> 4096)"
  using assms(1,2)
proof (cases rule: dpu_setup_sg_cases)
  case (ready i dma)
  let ?bs = "hm_block_arr i" and ?n = "xi_size x"
  have nr: "take (unat (hm_blocks_nr i)) ?bs = ?bs" "length ?bs = npages (unat a) (unat ?n)"
    using ready pages_nr_fits [OF assms(3,4)] unat_get_pages_nr [OF assms(4)] by simp_all
  have pg: "hmem_pages i = map pb_pages ?bs" by (simp add: hmem_pages_def nr)
  have wrap: "unat a + unat ?n < 2 ^ 64" using assms(4) by simp
  have "length ?bs = npages (unat a) (unat ?n) \<or> ?bs = [] \<and> ?n = 0" using nr by simp
  from sg_fill_tiles [OF ready(8) assms(3) wrap this] show ?thesis
    using ready nr by (auto simp: nth_set_dma pg Let_def)
qed simp

section \<open>Properties\<close>

text \<open>
  Without wrap-around, \<open>get_pages_nr\<close> is the number of pages the buffer touches.
\<close>

lemma get_pages_nr_counts_pages:
  assumes "0 < n" and "unat a + unat n + 4096 < 2 ^ 64"
  shows "unat (get_pages_nr a n) = card ((\<lambda>i. (unat a + i) div 4096) ` {..<unat n})"
  using assms by (simp add: unat_get_pages_nr npages_card word_less_nat_alt)

text \<open>
  C7: when \<open>dpu_setup_sg\<close> succeeds on a buffer under 4 GiB, the scatter list covers it exactly:
  the lengths add up to the size, and entry \<open>i\<close> describes the part of the buffer that lies in
  its \<open>i\<close>-th page, starting where the entries before it end and staying inside that page.
\<close>

theorem dpu_setup_sg_covers:
  assumes "gup_counts env" and "dpu_setup_sg env x pd a f h = (0, x', h')"
    and "unat (xi_size x) < 2 ^ 32" and "unat a + unat (xi_size x) + 4096 < 2 ^ 64"
  shows "sg_sum (xi_sg x') = unat (xi_size x) \<and>
    length (xi_sg x') = unat (get_pages_nr a (xi_size x)) \<and>
    (\<forall>i < length (xi_sg x').
      let e = xi_sg x' ! i; s = unat a + sg_sum (take i (xi_sg x')) in
      sg_page e = hmem_pages (xi_hmem_info x') ! i \<and> unat (sg_offset e) = s mod 4096 \<and>
      s div 4096 = unat a div 4096 + i \<and> unat (sg_offset e) + unat (sg_length e) \<le> 4096)"
  by (rule dpu_setup_sg_tiles [OF assms])

theorem dpu_setup_sg_covers_witness:
  "\<exists>x' h'. dpu_setup_sg demo_sg_env (demo_xfer 4) 0 0x1ffe 1 [] = (0, x', h') \<and>
    sg_sum (xi_sg x') = 4 \<and> length (xi_sg x') = 2"
proof -
  obtain x' h' where r: "dpu_setup_sg demo_sg_env (demo_xfer 4) 0 0x1ffe 1 [] = (0, x', h')"
    using demo_setup_runs by (metis fst_conv prod_cases3)
  have s: "xi_size (demo_xfer 4) = 4" by (simp add: demo_xfer_def)
  have "get_pages_nr 0x1ffe 4 = 2"
    by (simp add: get_pages_nr_def PAGE_SIZE_def PAGE_MASK_def PAGE_SHIFT_def)
  then show ?thesis
    using dpu_setup_sg_covers [OF demo_gup_counts r] r s by auto
qed

text \<open>
  C27: kernel resources of a transfer. A failing \<open>dpu_setup_sg\<close> gives back everything it took,
  without a double free; a successful one followed by \<open>dpu_teardown_sg\<close> gives back everything
  but the DMA mapping of the scatter list, which no function of the driver ever unmaps.
\<close>

theorem dpu_setup_teardown_balance:
  assumes "gup_counts env" and "dpu_setup_sg env x pd a f h = (ret, x', h')"
  shows "(if ret \<noteq> 0 then held h' = held h
          else held (dpu_teardown_sg x' h') = add_mset (Res_sg_map (xi_sgt x')) (held h)) \<and>
    (no_bad_release h \<longrightarrow> no_bad_release h' \<and> (ret = 0 \<longrightarrow> no_bad_release (dpu_teardown_sg x' h')))"
  using assms
proof (cases rule: dpu_setup_sg_cases)
  case (ready i dma)
  then have "xfer_res x' \<subseteq># held h'" by (simp add: subset_mset.add_increasing)
  note t = dpu_teardown_sg_res [OF ready(2) this]
  show ?thesis using ready t by simp
qed simp

theorem dpu_setup_teardown_balance_witness:
  "\<exists>x' h'. dpu_setup_sg demo_sg_env (demo_xfer 4) 0 0x1ffe 1 [] = (0, x', h') \<and>
    held (dpu_teardown_sg x' h') = {#Res_sg_map (xi_sgt x')#}"
proof -
  obtain x' h' where r: "dpu_setup_sg demo_sg_env (demo_xfer 4) 0 0x1ffe 1 [] = (0, x', h')"
    using demo_setup_runs by (metis fst_conv prod_cases3)
  then show ?thesis using dpu_setup_teardown_balance [OF demo_gup_counts r] by simp
qed

text \<open>
  C34: a transfer whose size is a multiple of 4 GiB is accepted, and its scatter list describes no
  byte at all: the bytes left are compared as a 32-bit number.
\<close>

theorem dpu_setup_sg_4gib_empty:
  assumes "gup_counts env" and "dpu_setup_sg env x pd a f h = (0, x', h')"
    and "ucast (xi_size x) = (0 :: u32)"
  shows "sg_sum (xi_sg x') = 0 \<and> xj_size (xi_align x') = xi_size x"
  using assms(1,2)
proof (cases rule: dpu_setup_sg_cases)
  case (ready i dma)
  have "\<forall>b \<in> set (take (unat (hm_blocks_nr i)) (hm_block_arr i)). pb_pages_nr b = 1"
    using ready(8) by (auto dest: in_set_takeD)
  then show ?thesis using ready by (simp add: sg_fill_low32_zero [OF assms(3)])
qed simp

theorem dpu_setup_sg_4gib_empty_witness:
  "\<exists>x' h'. dpu_setup_sg demo_sg_env (demo_xfer 0x100000000) 0 0x10000 1 [] = (0, x', h') \<and>
    sg_sum (xi_sg x') = 0 \<and> xj_size (xi_align x') = 0x100000000"
proof -
  obtain x' h' where r: "dpu_setup_sg demo_sg_env (demo_xfer 0x100000000) 0 0x10000 1 [] = (0, x', h')"
    using demo_setup_runs by (metis fst_conv prod_cases3)
  have "xi_size (demo_xfer 0x100000000) = 0x100000000" by (simp add: demo_xfer_def)
  then show ?thesis using dpu_setup_sg_4gib_empty [OF demo_gup_counts r] r by simp
qed

text \<open>
  C33: an error of \<open>get_user_pages_fast\<close> is taken for success. Any negative error number, read
  as unsigned, is not below the page count, so \<open>dpu_get_pages\<close> returns 0 with no page pinned.
\<close>

theorem dpu_get_pages_accepts_error:
  assumes "vmalloc env (get_pages_nr a n * 16) h = (b, h1)" and "b \<noteq> 0"
    and "vmalloc env (ucast (ucast (get_pages_nr a n) :: u32) * 8) h1 = (t, h2)" and "t \<noteq> 0"
    and "k_gup env h2 a (ucast (get_pages_nr a n)) = (e, pages)"
    and "-4095 \<le> e" and "e < 0" and "get_pages_nr a n < 0x80000000"
  shows "\<exists>i. dpu_get_pages env a n (Some x) h = (0, Some i, vfree t h2) \<and>
    hm_block_arr i = map (\<lambda>i. \<lparr>pb_pages = pages i, pb_pages_nr = 1\<rparr>) [0..<unat (get_pages_nr a n)]"
proof -
  have "e mod 2 ^ 32 = (e + 2 ^ 32) mod 2 ^ 32" by simp
  also have "\<dots> = e + 2 ^ 32"
    using assms(6,7) by (intro mod_pos_pos_trivial) simp_all
  finally have "uint (u32_of_int e) = e + 2 ^ 32"
    by (simp add: u32_of_int_def unsigned_of_int take_bit_eq_mod)
  moreover have "uint (ucast (get_pages_nr a n) :: u32) < 2 ^ 31"
  proof -
    have "unat (get_pages_nr a n) < 2 ^ 31" using assms(8) by (simp add: word_less_nat_alt)
    then have "unat (ucast (get_pages_nr a n) :: u32) < 2 ^ 31"
      by (simp add: unsigned_ucast_eq take_bit_nat_eq_self)
    then show ?thesis by (metis of_nat_less_iff of_nat_numeral of_nat_power uint_nat)
  qed
  ultimately have "\<not> u32_of_int e < ucast (get_pages_nr a n)"
    using assms(6) by (simp add: word_less_def)
  moreover have "nat e = 0" using assms(7) by simp
  ultimately show ?thesis
    using assms(1-5) by (simp add: dpu_get_pages_def Let_def get_user_pages_fast_def)
qed

theorem dpu_get_pages_accepts_error_witness:
  "\<exists>i h'. dpu_get_pages (demo_sg_env\<lparr>k_gup := \<lambda>_ _ _. (-14, \<lambda>_. 0xdead)\<rparr>) 0x1000 0x1000
      (Some (xi_hmem_info (demo_xfer 0))) [] = (0, Some i, h') \<and>
    hm_block_arr i = [\<lparr>pb_pages = 0xdead, pb_pages_nr = 1\<rparr>]"
proof -
  let ?env = "demo_sg_env\<lparr>k_gup := \<lambda>_ _ _. (-14, \<lambda>_. 0xdead)\<rparr>"
  let ?h1 = "[Ev_acquire (Res_vmem 0x1000)]" and ?h2 = "[Ev_acquire (Res_vmem 0x1000), Ev_acquire (Res_vmem 0x1000)]"
  have nr: "get_pages_nr 0x1000 0x1000 = 1"
    by (simp add: get_pages_nr_def PAGE_SIZE_def PAGE_MASK_def PAGE_SHIFT_def)
  have "vmalloc ?env (get_pages_nr 0x1000 0x1000 * 16) [] = (0x1000, ?h1)"
    and "vmalloc ?env (ucast (ucast (get_pages_nr 0x1000 0x1000) :: u32) * 8) ?h1 = (0x1000, ?h2)"
    and "k_gup ?env ?h2 0x1000 (ucast (get_pages_nr 0x1000 0x1000)) = (-14, \<lambda>_. 0xdead)"
    by (simp_all add: vmalloc_def demo_sg_env_def)
  from dpu_get_pages_accepts_error [OF this(1) _ this(2) _ this(3),
      where x = "xi_hmem_info (demo_xfer 0)"]
  obtain i where "dpu_get_pages ?env 0x1000 0x1000 (Some (xi_hmem_info (demo_xfer 0))) []
      = (0, Some i, vfree 0x1000 ?h2)" "hm_block_arr i = [\<lparr>pb_pages = 0xdead, pb_pages_nr = 1\<rparr>]"
    by (auto simp: nr)
  then show ?thesis by blast
qed


end
