(* ===== verification/Eon_Window.thy ===== *)
theory Eon_Window
  imports Eon_Iatu Eon_Sg
begin

text \<open>
  Access to device registers through the configuration BAR (\<open>test_dev.c\<close>: \<open>regs_operations\<close>,
  \<open>eon_rw_reg\<close>). The BAR shows 16 MB of the device's address space; the driver slides that
  window with the ATU, region 1, and remembers in \<open>config_bar_base\<close> where it is. The
  specification is the access the device sees: \<open>soc_view\<close> reads a history as the list of
  accesses at device addresses, translating each through the window that was open at the time.
\<close>

section \<open>Data\<close>

record dpu_reg_args =
  ra_reg_addr :: u64
  ra_reg_data :: u32
  ra_rw_flag :: u8

definition REGS_ADDR_MIN :: u64 where
  "REGS_ADDR_MIN = 0x40000000"

definition REGS_ADDR_MAX :: u64 where
  "REGS_ADDR_MAX = 0xf0000000"

definition CONFIG_BAR_SIZE :: u64 where
  "CONFIG_BAR_SIZE = 0x1000000"

definition REG_WRITE :: u8 where
  "REG_WRITE = 1"

definition REG_READ :: u8 where
  "REG_READ = 2"

definition REG_WRITE16 :: u8 where
  "REG_WRITE16 = 3"

definition REG_READ16 :: u8 where
  "REG_READ16 = 4"

lemmas reg_consts = REG_WRITE_def REG_READ_def REG_WRITE16_def REG_READ16_def

text \<open>
  User memory: the structure read from a user address (\<open>None\<close> when the copy faults), what a
  fresh allocation holds, and whether a copy to the user address succeeds.
\<close>

record io_env = sg_env +
  k_user_reg_args :: "hist \<Rightarrow> u64 \<Rightarrow> dpu_reg_args option"
  k_fresh_reg_args :: "hist \<Rightarrow> dpu_reg_args"
  k_copy_to_user :: "hist \<Rightarrow> u64 \<Rightarrow> bool"

definition IOC_IN :: u32 where
  "IOC_IN = 0x40000000"

definition IOC_OUT :: u32 where
  "IOC_OUT = 0x80000000"

section \<open>Sliding the window\<close>

text \<open>The part both functions share: open the window at the 16 MB block of the address.\<close>

definition slide_window :: "'a kenv_scheme \<Rightarrow> eon_device \<Rightarrow> u64 \<Rightarrow> hist \<Rightarrow> eon_device \<times> hist" where
  "slide_window env dpu_dev reg_addr h =
     (let offset = reg_addr AND (CONFIG_BAR_SIZE - 1); map_addr = reg_addr - offset in
      if map_addr \<noteq> config_bar_base dpu_dev then
        let (_, h) = iatu_map_inbound_bar env dpu_dev (of_nat CONFIG_BAR_INDEX) 1 map_addr CONFIG_BAR_SIZE h;
            (_, h) = iatu_map_outbound_bar env dpu_dev (of_nat CONFIG_BAR_INDEX) 1 map_addr CONFIG_BAR_SIZE h
        in (dpu_dev\<lparr>config_bar_base := map_addr\<rparr>, h)
      else (dpu_dev, h))"

definition regs_operations ::
  "'a kenv_scheme \<Rightarrow> eon_device \<Rightarrow> dpu_reg_args \<Rightarrow> hist \<Rightarrow> int \<times> dpu_reg_args \<times> eon_device \<times> hist"
  where
  "regs_operations env dpu_dev regs_args h =
     (if ra_reg_addr regs_args > REGS_ADDR_MAX \<or> ra_reg_addr regs_args < REGS_ADDR_MIN
      then (-1, regs_args, dpu_dev, h)
      else
        let h = mutex_lock (conbar_lock dpu_dev) h;
            offset = ra_reg_addr regs_args AND (CONFIG_BAR_SIZE - 1);
            (dpu_dev, h) = slide_window env dpu_dev (ra_reg_addr regs_args) h;
            a = offset + vaddr (bar dpu_dev CONFIG_BAR_INDEX);
            (regs_args, h) =
              (if ra_rw_flag regs_args = REG_WRITE then
                 (regs_args, Ev_mb # eon_writel (ra_reg_data regs_args) a h)
               else if ra_rw_flag regs_args = REG_READ then
                 let (d, h) = eon_readl env a h in (regs_args\<lparr>ra_reg_data := d\<rparr>, Ev_mb # h)
               else (regs_args, h))
        in (0, regs_args, dpu_dev, mutex_unlock (conbar_lock dpu_dev) h))"

text \<open>
  The ioctl of the same name as the command's arguments: the result, the structure stored in
  user memory if one was, the device and the history.
\<close>

definition eon_rw_reg ::
  "'a io_env_scheme \<Rightarrow> eon_device \<Rightarrow> u32 \<Rightarrow> u64 \<Rightarrow> hist \<Rightarrow>
   int \<times> dpu_reg_args option \<times> eon_device \<times> hist" where
  "eon_rw_reg env dpu_dev cmd args h =
     (let (p, h) = kmalloc env (k_sizeof env ''struct dpu_reg_args'') h in
      if p = 0 then (-1, None, dpu_dev, h)
      else
        let copied = (if cmd AND IOC_IN \<noteq> 0 then k_user_reg_args env h args
                      else Some (k_fresh_reg_args env h))
        in case copied of
          None \<Rightarrow> (-2, None, dpu_dev, kfree p h)
        | Some regs_args \<Rightarrow>
            if ra_reg_addr regs_args > REGS_ADDR_MAX \<or> ra_reg_addr regs_args < REGS_ADDR_MIN
            then (-1, None, dpu_dev, h)
            else
              let h = mutex_lock (conbar_lock dpu_dev) h;
                  offset = ra_reg_addr regs_args AND (CONFIG_BAR_SIZE - 1);
                  (dpu_dev, h) = slide_window env dpu_dev (ra_reg_addr regs_args) h;
                  a = offset + vaddr (bar dpu_dev CONFIG_BAR_INDEX);
                  (regs_args, h) =
                    (if ra_rw_flag regs_args = REG_WRITE then
                       (regs_args, Ev_mb # eon_writel (ra_reg_data regs_args) a h)
                     else if ra_rw_flag regs_args = REG_READ then
                       let (d, h) = eon_readl env a h in (regs_args\<lparr>ra_reg_data := d\<rparr>, Ev_mb # h)
                     else if ra_rw_flag regs_args = REG_WRITE16 then
                       (regs_args, Ev_mb # eon_write16 (ucast (ra_reg_data regs_args)) a h)
                     else if ra_rw_flag regs_args = REG_READ16 then
                       let (d, h) = eon_read16 env a h in (regs_args\<lparr>ra_reg_data := ucast d\<rparr>, Ev_mb # h)
                     else (regs_args, h));
                  (ret, out) =
                    (if cmd AND IOC_OUT \<noteq> 0
                     then (if k_copy_to_user env h args then (0, Some regs_args) else (-3, None))
                     else (0, None));
                  h = mutex_unlock (conbar_lock dpu_dev) h;
                  h = kfree p h
              in (ret, out, dpu_dev, h))"

section \<open>What the device sees\<close>

datatype soc_access =
    Soc_write32 u64 u32
  | Soc_read32 u64 u32
  | Soc_write16 u64 u16
  | Soc_read16 u64 u16

definition window_off :: "eon_device \<Rightarrow> u64 \<Rightarrow> u64" where
  "window_off dev a = a - vaddr (bar dev CONFIG_BAR_INDEX)"

definition soc_addr :: "eon_device \<Rightarrow> hist \<Rightarrow> u64 \<Rightarrow> u64 option" where
  "soc_addr dev h a =
     (if window_off dev a < CONFIG_BAR_SIZE
      then map_option (\<lambda>t. t + window_off dev a) (atu_target dev Inbound 1 h) else None)"

fun soc_view :: "eon_device \<Rightarrow> hist \<Rightarrow> soc_access list" where
  "soc_view dev [] = []"
| "soc_view dev (Ev_write32 a d # h) =
     (case soc_addr dev h a of None \<Rightarrow> soc_view dev h | Some s \<Rightarrow> Soc_write32 s d # soc_view dev h)"
| "soc_view dev (Ev_read32 a d # h) =
     (case soc_addr dev h a of None \<Rightarrow> soc_view dev h | Some s \<Rightarrow> Soc_read32 s d # soc_view dev h)"
| "soc_view dev (Ev_write16 a d # h) =
     (case soc_addr dev h a of None \<Rightarrow> soc_view dev h | Some s \<Rightarrow> Soc_write16 s d # soc_view dev h)"
| "soc_view dev (Ev_read16 a d # h) =
     (case soc_addr dev h a of None \<Rightarrow> soc_view dev h | Some s \<Rightarrow> Soc_read16 s d # soc_view dev h)"
| "soc_view dev (_ # h) = soc_view dev h"

text \<open>
  The configuration BAR is mapped apart from the part of BAR 0 that holds the registers of the
  DMA engine and of the ATU (0x1000 to 0x29000): the PCI core gives each BAR an address range of
  its own.
\<close>

definition bars_apart :: "eon_device \<Rightarrow> bool" where
  "bars_apart dev \<longleftrightarrow>
     unat CONFIG_BAR_SIZE \<le> unat (window_off dev (vaddr (bar dev ATU_HDMA_BAR))) \<and>
     unat (window_off dev (vaddr (bar dev ATU_HDMA_BAR))) + 0x9000 + 256 * 0x200 \<le> 2 ^ 64"

text \<open>
  The invariant: unless nothing was mapped yet, both directions of region 1 point to
  \<open>config_bar_base\<close>.
\<close>

definition window_inv :: "eon_device \<Rightarrow> hist \<Rightarrow> bool" where
  "window_inv dev h \<longleftrightarrow> config_bar_base dev = 0 \<or>
     (\<forall>d. atu_target dev d 1 h = Some (config_bar_base dev))"

section \<open>Lemmas\<close>

lemma atu_base_config [simp]: "atu_base (dev\<lparr>config_bar_base := x\<rparr>) = atu_base dev"
  by (simp add: atu_base_def)

lemma atu_target_config [simp]:
  "atu_target (dev\<lparr>config_bar_base := x\<rparr>) d n h = atu_target dev d n h"
  by (simp add: atu_target_def atu_reg_val_def)

lemma soc_addr_config [simp]: "soc_addr (dev\<lparr>config_bar_base := x\<rparr>) h a = soc_addr dev h a"
  by (simp add: soc_addr_def window_off_def)

lemma soc_view_config [simp]: "soc_view (dev\<lparr>config_bar_base := x\<rparr>) h = soc_view dev h"
  by (induction "dev\<lparr>config_bar_base := x\<rparr>" h rule: soc_view.induct)
    (simp_all split: option.split)

lemma bar0_outside_window:
  assumes "bars_apart dev" and "k < 0x9000 + 256 * 0x200"
  shows "\<not> window_off dev (vaddr (bar dev ATU_HDMA_BAR) + of_nat k) < CONFIG_BAR_SIZE"
proof -
  have "unat (window_off dev (vaddr (bar dev ATU_HDMA_BAR)) + of_nat k) =
      unat (window_off dev (vaddr (bar dev ATU_HDMA_BAR))) + k"
    using assms by (subst unat_add_lem [THEN iffD1]) (simp_all add: bars_apart_def unat_of_nat_small)
  moreover have "window_off dev (vaddr (bar dev ATU_HDMA_BAR) + of_nat k) =
      window_off dev (vaddr (bar dev ATU_HDMA_BAR)) + of_nat k"
    by (simp add: window_off_def)
  ultimately show ?thesis
    using assms by (simp add: bars_apart_def word_less_nat_alt)
qed

lemma atu_reg_outside:
  assumes "bars_apart dev"
  shows "\<not> window_off dev (atu_reg_at (atu_base dev) n r) < CONFIG_BAR_SIZE"
proof -
  let ?k = "unat n * 0x200 + atu_off r"
  have k: "?k < 256 * 0x200" using atu.reg_offset_less [of n r] by simp
  have "atu_reg_at (atu_base dev) n r = vaddr (bar dev ATU_HDMA_BAR) + of_nat (0x9000 + ?k)"
    by (simp add: atu.reg_eq atu_base_def IATU_BASE_OFFSET_def)
  with bar0_outside_window [OF assms, of "0x9000 + ?k"] k show ?thesis by simp
qed

lemma atu_reg_outside_window:
  assumes "bars_apart dev"
  shows "soc_addr dev h (atu_reg_at (atu_base dev) n r) = None"
  using atu_reg_outside [OF assms] by (simp add: soc_addr_def)

lemma soc_view_program:
  "bars_apart dev \<Longrightarrow> soc_view dev (atu_program env dev d bi n addr sz h) = soc_view dev h"
  by (simp add: atu_program_def Let_def atu_reg_outside_window)

lemma config_size_ok: "\<not> CONFIG_BAR_SIZE > 0x1000000"
  by (simp add: CONFIG_BAR_SIZE_def)

lemma slide_window_eq:
  "slide_window env dev a h =
     (let m = a - (a AND 0xffffff) in
      if m \<noteq> config_bar_base dev
      then (dev\<lparr>config_bar_base := m\<rparr>,
            atu_program env dev Outbound 2 1 m CONFIG_BAR_SIZE
              (atu_program env dev Inbound 2 1 m CONFIG_BAR_SIZE h))
      else (dev, h))"
  by (simp add: slide_window_def iatu_map_inbound_bar_eq iatu_map_outbound_bar_eq Let_def
      CONFIG_BAR_SIZE_def CONFIG_BAR_INDEX_def)

definition block_of :: "u64 \<Rightarrow> u64" where
  "block_of a = a - (a AND 0xffffff)"

lemma block_of_plus [simp]: "block_of a + (a AND 0xffffff) = a"
  by (simp add: block_of_def)

lemma low24_less: "(a :: u64) AND 0xffffff < CONFIG_BAR_SIZE"
proof -
  have "a AND 0xffffff \<le> 0xffffff" by (rule word_and_le1)
  then show ?thesis by (simp add: CONFIG_BAR_SIZE_def word_le_nat_alt word_less_nat_alt)
qed

lemma block_of_nonzero:
  assumes "REGS_ADDR_MIN \<le> a"
  shows "block_of a \<noteq> 0"
proof
  assume "block_of a = 0"
  then have "a = a AND 0xffffff" by (simp add: block_of_def)
  then have "a < CONFIG_BAR_SIZE" using low24_less [of a] by simp
  with assms show False
    by (simp add: REGS_ADDR_MIN_def CONFIG_BAR_SIZE_def word_le_nat_alt word_less_nat_alt)
qed

definition atu_addrs :: "eon_device \<Rightarrow> u64 set" where
  "atu_addrs dev = {atu_reg_at (atu_base dev) n r |n r. True}"

lemma atu_addrs_mem [simp]: "atu_reg_at (atu_base dev) n r \<in> atu_addrs dev"
  by (cases r) (auto simp: atu_addrs_def)

lemma atu_program_accesses:
  "accesses (atu_addrs dev) h h' \<Longrightarrow> accesses (atu_addrs dev) h (atu_program env dev d bi n a sz h')"
  by (simp add: atu_program_def Let_def)

text \<open>After sliding, both directions show the block of the address and the device saw nothing.\<close>

lemma slide_window_spec:
  assumes "slide_window env dev a h = (dev', h')" and "window_inv dev h"
    and "bars_apart dev" and "REGS_ADDR_MIN \<le> a"
  shows "dev' = dev\<lparr>config_bar_base := block_of a\<rparr>" "atu_target dev d 1 h' = Some (block_of a)"
    "soc_view dev h' = soc_view dev h" "accesses (atu_addrs dev) h h'"
proof -
  have "dev' = dev\<lparr>config_bar_base := block_of a\<rparr> \<and> (\<forall>d. atu_target dev d 1 h' = Some (block_of a)) \<and>
    soc_view dev h' = soc_view dev h \<and> accesses (atu_addrs dev) h h'"
  proof (cases "block_of a = config_bar_base dev")
    case True
    with assms(1) have eq: "dev' = dev" "h' = h"
      by (simp_all add: slide_window_eq Let_def flip: block_of_def)
    have "config_bar_base dev \<noteq> 0" using True block_of_nonzero [OF assms(4)] by simp
    with assms(2) True show ?thesis unfolding eq by (simp add: window_inv_def)
  next
    case False
    with assms(1) have dev': "dev' = dev\<lparr>config_bar_base := block_of a\<rparr>"
      and h': "h' = atu_program env dev Outbound 2 1 (block_of a) CONFIG_BAR_SIZE
              (atu_program env dev Inbound 2 1 (block_of a) CONFIG_BAR_SIZE h)"
      by (simp_all add: slide_window_eq Let_def flip: block_of_def)
    have "atu_target dev d 1 h' = Some (block_of a)" for d
      by (cases d) (simp_all add: h' atu_target_program)
    then show ?thesis
      using assms(3) dev' by (simp add: h' soc_view_program atu_program_accesses)
  qed
  then show "dev' = dev\<lparr>config_bar_base := block_of a\<rparr>" "atu_target dev d 1 h' = Some (block_of a)"
    "soc_view dev h' = soc_view dev h" "accesses (atu_addrs dev) h h'" by blast+
qed

lemma soc_addr_open:
  assumes "atu_target dev Inbound 1 h = Some (block_of a)"
  shows "soc_addr dev h ((a AND 0xffffff) + vaddr (bar dev CONFIG_BAR_INDEX)) = Some a"
  using assms by (simp add: soc_addr_def window_off_def low24_less)

text \<open>A write or a read of the BAR leaves the ATU alone.\<close>

lemma bar_offset_not_atu:
  assumes "bars_apart dev"
  shows "(a AND 0xffffff) + vaddr (bar dev CONFIG_BAR_INDEX) \<noteq> atu_reg_at (atu_base dev) n r"
proof
  assume eq: "(a AND 0xffffff) + vaddr (bar dev CONFIG_BAR_INDEX) = atu_reg_at (atu_base dev) n r"
  have "window_off dev ((a AND 0xffffff) + vaddr (bar dev CONFIG_BAR_INDEX)) < CONFIG_BAR_SIZE"
    by (simp add: window_off_def low24_less)
  moreover note atu_reg_outside [OF assms, of n r]
  ultimately show False by (simp only: eq)
qed

lemma atu_target_frame_write:
  assumes "\<And>n r. a \<noteq> atu_reg_at (atu_base dev) n r"
  shows "atu_target dev d n (Ev_write32 a x # h) = atu_target dev d n h"
  using assms [symmetric] by (simp add: atu_target_def atu_reg_val_def)

fun no_write32 :: "event \<Rightarrow> bool" where
  "no_write32 (Ev_write32 _ _) = False"
| "no_write32 _ = True"

lemma atu_target_frame_other:
  "no_write32 e \<Longrightarrow> atu_target dev d n (e # h) = atu_target dev d n h"
  by (cases e) (simp_all add: atu_target_def atu_reg_val_def)

lemma atu_target_bar_write:
  "bars_apart dev \<Longrightarrow>
    atu_target dev d n (Ev_write32 ((a AND 0xffffff) + vaddr (bar dev CONFIG_BAR_INDEX)) x # h)
    = atu_target dev d n h"
  by (intro atu_target_frame_write bar_offset_not_atu)

lemmas atu_frames = atu_target_frame_write atu_target_frame_other

lemma mutex_frames [simp]:
  "atu_target dev d n (mutex_lock l h) = atu_target dev d n h"
  "atu_target dev d n (mutex_unlock l h) = atu_target dev d n h"
  "soc_view dev (mutex_lock l h) = soc_view dev h"
  "soc_view dev (mutex_unlock l h) = soc_view dev h"
  by (simp_all add: mutex_lock_def mutex_unlock_def atu_frames)

lemma memory_frames [simp]:
  "atu_target dev d n (kfree p h) = atu_target dev d n h"
  "soc_view dev (kfree p h) = soc_view dev h"
  by (simp_all add: kfree_def atu_frames)

lemma kmalloc_frames:
  assumes "kmalloc env s h = (p, h')"
  shows "atu_target dev d n h' = atu_target dev d n h" "soc_view dev h' = soc_view dev h"
    "locks h' = locks h"
  using assms by (auto simp: kmalloc_def Let_def atu_frames split: if_splits)

text \<open>What a request is meant to do to the device, given the arguments before and after.\<close>

definition reg_spec :: "dpu_reg_args \<Rightarrow> dpu_reg_args \<Rightarrow> soc_access list" where
  "reg_spec q q' =
     (if ra_rw_flag q = REG_WRITE then [Soc_write32 (ra_reg_addr q) (ra_reg_data q)]
      else if ra_rw_flag q = REG_READ then [Soc_read32 (ra_reg_addr q) (ra_reg_data q')]
      else if ra_rw_flag q = REG_WRITE16 then [Soc_write16 (ra_reg_addr q) (ucast (ra_reg_data q))]
      else if ra_rw_flag q = REG_READ16 then [Soc_read16 (ra_reg_addr q) (ucast (ra_reg_data q'))]
      else [])"

definition in_reg_range :: "u64 \<Rightarrow> bool" where
  "in_reg_range a \<longleftrightarrow> REGS_ADDR_MIN \<le> a \<and> a \<le> REGS_ADDR_MAX"

lemma regs_operations_out:
  "\<not> in_reg_range (ra_reg_addr q) \<Longrightarrow> regs_operations env dev q h = (-1, q, dev, h)"
  by (auto simp: regs_operations_def in_reg_range_def)

lemma regs_operations_in:
  assumes "in_reg_range (ra_reg_addr q)" and "regs_operations env dev q h = (ret, q', dev', h')"
    and "window_inv dev h" and "bars_apart dev"
  shows "ret = 0" "dev' = dev\<lparr>config_bar_base := block_of (ra_reg_addr q)\<rparr>"
    "atu_target dev d 1 h' = Some (block_of (ra_reg_addr q))"
    "soc_view dev h' = (if ra_rw_flag q \<in> {REG_WRITE, REG_READ} then reg_spec q q' else []) @ soc_view dev h"
    "locks h' = locks h"
proof -
  let ?a = "ra_reg_addr q"
  obtain dev1 h1 where s: "slide_window env dev ?a (mutex_lock (conbar_lock dev) h) = (dev1, h1)"
    by fastforce
  have inv: "window_inv dev (mutex_lock (conbar_lock dev) h)"
    using assms(3) by (simp add: window_inv_def)
  have a: "REGS_ADDR_MIN \<le> ?a" using assms(1) by (simp add: in_reg_range_def)
  note w = slide_window_spec [OF s inv assms(4) a]
  have lk: "locks h1 = add_mset (Mutex (conbar_lock dev)) (locks h)"
    using accesses_locks [OF w(4)] by (simp add: mutex_lock_def)
  have "ret = 0 \<and> dev' = dev\<lparr>config_bar_base := block_of ?a\<rparr> \<and>
    (\<forall>d. atu_target dev d 1 h' = Some (block_of ?a)) \<and>
    soc_view dev h' = (if ra_rw_flag q \<in> {REG_WRITE, REG_READ} then reg_spec q q' else []) @ soc_view dev h \<and>
    locks h' = locks h"
    using assms(1,2) w lk soc_addr_open [OF w(2)]
    by (auto simp: regs_operations_def in_reg_range_def s Let_def access_defs reg_spec_def reg_consts
        mutex_unlock_def CONFIG_BAR_SIZE_def atu_frames
        atu_target_bar_write [OF assms(4)] split: if_splits)
  then show "ret = 0" "dev' = dev\<lparr>config_bar_base := block_of ?a\<rparr>"
    "atu_target dev d 1 h' = Some (block_of ?a)"
    "soc_view dev h' = (if ra_rw_flag q \<in> {REG_WRITE, REG_READ} then reg_spec q q' else []) @ soc_view dev h"
    "locks h' = locks h" by blast+
qed

lemma ucast_u16_u32 [simp]: "(ucast (ucast (w :: u16) :: u32) :: u16) = w"
  by (rule bit_word_eqI) (simp add: bit_ucast_iff)

lemma eon_rw_reg_in:
  assumes "eon_rw_reg env dev cmd args h = (ret, out, dev', h')"
    and "cmd AND IOC_IN \<noteq> 0" "cmd AND IOC_OUT \<noteq> 0"
    and "kmalloc env (k_sizeof env ''struct dpu_reg_args'') h = (p, h1)" "p \<noteq> 0"
    and "k_user_reg_args env h1 args = Some q" and "in_reg_range (ra_reg_addr q)"
    and "window_inv dev h" and "bars_apart dev"
  shows "\<exists>q'. ret = (if out = None then -3 else 0) \<and> out \<in> {None, Some q'} \<and>
    ra_reg_addr q' = ra_reg_addr q \<and> ra_rw_flag q' = ra_rw_flag q \<and>
    dev' = dev\<lparr>config_bar_base := block_of (ra_reg_addr q)\<rparr> \<and>
    (\<forall>d. atu_target dev d 1 h' = Some (block_of (ra_reg_addr q))) \<and>
    soc_view dev h' = reg_spec q q' @ soc_view dev h \<and> locks h' = locks h"
proof -
  let ?a = "ra_reg_addr q"
  obtain dev1 h2 where s: "slide_window env dev ?a (mutex_lock (conbar_lock dev) h1) = (dev1, h2)"
    by fastforce
  have inv: "window_inv dev (mutex_lock (conbar_lock dev) h1)"
    using assms(8) by (simp add: window_inv_def kmalloc_frames [OF assms(4)])
  have a: "REGS_ADDR_MIN \<le> ?a" using assms(7) by (simp add: in_reg_range_def)
  note w = slide_window_spec [OF s inv assms(9) a]
  have lk: "locks h2 = add_mset (Mutex (conbar_lock dev)) (locks h)"
    using accesses_locks [OF w(4)] kmalloc_frames(3) [OF assms(4)] by (simp add: mutex_lock_def)
  have sv: "soc_view dev h2 = soc_view dev h" using w(3) kmalloc_frames(2) [OF assms(4)] by simp
  note open_at = soc_addr_open [OF w(2)]
  note defs = eon_rw_reg_def in_reg_range_def assms(2-6) s Let_def access_defs reg_spec_def
    mutex_unlock_def CONFIG_BAR_SIZE_def atu_frames kfree_def
    atu_target_bar_write [OF assms(9)]
  consider "ra_rw_flag q = REG_WRITE" | "ra_rw_flag q = REG_READ" | "ra_rw_flag q = REG_WRITE16"
    | "ra_rw_flag q = REG_READ16" | "ra_rw_flag q \<notin> {REG_WRITE, REG_READ, REG_WRITE16, REG_READ16}"
    by blast
  then show ?thesis
  proof cases
    case 1
    then show ?thesis using assms(1,7) w(1,2) lk sv open_at
      by (intro exI [of _ q]) (auto simp: defs split: if_splits)
  next
    case 2
    let ?q = "q\<lparr>ra_reg_data := mmio_read32 env h2 ((?a AND 0xffffff) + vaddr (bar dev CONFIG_BAR_INDEX))\<rparr>"
    from 2 show ?thesis using assms(1,7) w(1,2) lk sv open_at
      by (intro exI [of _ ?q]) (auto simp: defs reg_consts split: if_splits)
  next
    case 3
    then show ?thesis using assms(1,7) w(1,2) lk sv open_at
      by (intro exI [of _ q]) (auto simp: defs reg_consts split: if_splits)
  next
    case 4
    let ?q = "q\<lparr>ra_reg_data := ucast (mmio_read16 env h2 ((?a AND 0xffffff) + vaddr (bar dev CONFIG_BAR_INDEX)))\<rparr>"
    from 4 show ?thesis using assms(1,7) w(1,2) lk sv open_at
      by (intro exI [of _ ?q]) (auto simp: defs reg_consts split: if_splits)
  next
    case 5
    then show ?thesis using assms(1,7) w(1,2) lk sv open_at
      by (intro exI [of _ q]) (auto simp: defs split: if_splits)
  qed
qed

section \<open>A port for writing device registers\<close>

text \<open>
  What a client needs to write registers of the device: a write to a valid address shows up at
  the device as the newest access and keeps the port usable, a write to any other address is
  refused and does nothing. \<open>put_all\<close> writes a list and stops at the first refusal.
\<close>

locale soc_write_port =
  fixes put :: "eon_device \<Rightarrow> u64 \<Rightarrow> u32 \<Rightarrow> hist \<Rightarrow> int \<times> eon_device \<times> hist"
    and ok :: "eon_device \<Rightarrow> hist \<Rightarrow> bool"
    and valid :: "u64 \<Rightarrow> bool"
  assumes put_refused: "\<not> valid a \<Longrightarrow> put dev a d h = (-1, dev, h)"
    and put_done: "valid a \<Longrightarrow> ok dev h \<Longrightarrow> put dev a d h = (ret, dev', h') \<Longrightarrow>
      ret = 0 \<and> ok dev' h' \<and> soc_view dev' h' = Soc_write32 a d # soc_view dev h \<and> locks h' = locks h"
begin

primrec put_all :: "(u64 \<times> u32) list \<Rightarrow> eon_device \<Rightarrow> hist \<Rightarrow> int \<times> eon_device \<times> hist" where
  "put_all [] dev h = (0, dev, h)"
| "put_all (w # ws) dev h =
     (let (ret, dev, h) = put dev (fst w) (snd w) h in
      if ret \<noteq> 0 then (ret, dev, h) else put_all ws dev h)"

lemma put_all_spec:
  assumes "ok dev h" and "put_all ws dev h = (ret, dev', h')"
  shows "ret = (if \<forall>w \<in> set ws. valid (fst w) then 0 else -1) \<and> ok dev' h' \<and>
    soc_view dev' h' = rev (map (\<lambda>(a, d). Soc_write32 a d) (takeWhile (\<lambda>w. valid (fst w)) ws))
      @ soc_view dev h \<and> locks h' = locks h"
  using assms
proof (induction ws arbitrary: dev h)
  case (Cons w ws)
  obtain r dev1 h1 where p: "put dev (fst w) (snd w) h = (r, dev1, h1)"
    by (metis prod_cases3)
  show ?case
  proof (cases "valid (fst w)")
    case True
    note d = put_done [OF True Cons.prems(1) p]
    then have "put_all ws dev1 h1 = (ret, dev', h')" using Cons.prems(2) p by simp
    with Cons.IH [OF _ this] d True show ?thesis by (cases w) simp
  next
    case False
    then show ?thesis using Cons.prems put_refused [OF False, of dev "snd w" h] by simp
  qed
qed simp

end

text \<open>The provider: \<open>regs_operations\<close> asked to write.\<close>

definition write_reg :: "'a kenv_scheme \<Rightarrow> eon_device \<Rightarrow> u64 \<Rightarrow> u32 \<Rightarrow> hist \<Rightarrow> int \<times> eon_device \<times> hist" where
  "write_reg env dev a d h =
     (let (ret, _, dev, h) = regs_operations env dev \<lparr>ra_reg_addr = a, ra_reg_data = d, ra_rw_flag = REG_WRITE\<rparr> h
      in (ret, dev, h))"

definition window_ok :: "eon_device \<Rightarrow> hist \<Rightarrow> bool" where
  "window_ok dev h \<longleftrightarrow> window_inv dev h \<and> bars_apart dev"

lemma bars_apart_config [simp]: "bars_apart (dev\<lparr>config_bar_base := x\<rparr>) = bars_apart dev"
  by (simp add: bars_apart_def window_off_def)

lemma window_okI:
  assumes "dev' = dev\<lparr>config_bar_base := x\<rparr>" and "\<And>d. atu_target dev d 1 h' = Some x" and "bars_apart dev"
  shows "window_ok dev' h'"
  using assms by (simp add: window_ok_def window_inv_def)

interpretation port: soc_write_port "write_reg env" window_ok in_reg_range
proof unfold_locales
  show "write_reg env dev a d h = (-1, dev, h)" if "\<not> in_reg_range a" for a dev d h
    using that by (simp add: write_reg_def regs_operations_out)
next
  fix a dev h d ret dev' h'
  assume a: "in_reg_range a" and ok: "window_ok dev h" and p: "write_reg env dev a d h = (ret, dev', h')"
  let ?q = "\<lparr>ra_reg_addr = a, ra_reg_data = d, ra_rw_flag = REG_WRITE\<rparr>"
  obtain q' where r: "regs_operations env dev ?q h = (ret, q', dev', h')"
    using p by (auto simp: write_reg_def split: prod.splits)
  have a': "in_reg_range (ra_reg_addr ?q)" using a by simp
  have inv: "window_inv dev h" "bars_apart dev" using ok by (simp_all add: window_ok_def)
  note s = regs_operations_in [OF a' r inv]
  show "ret = 0 \<and> window_ok dev' h' \<and> soc_view dev' h' = Soc_write32 a d # soc_view dev h \<and> locks h' = locks h"
    using s window_okI [OF s(2) s(3) inv(2)] by (simp add: reg_spec_def)
qed

section \<open>Sequences of requests\<close>

fun soc_is_write :: "soc_access \<Rightarrow> bool" where
  "soc_is_write (Soc_write32 _ _) = True"
| "soc_is_write (Soc_write16 _ _) = True"
| "soc_is_write _ = False"

definition soc_writes :: "eon_device \<Rightarrow> hist \<Rightarrow> soc_access list" where
  "soc_writes dev h = filter soc_is_write (soc_view dev h)"

text \<open>The write a request asks for, through the driver's own callers or the ioctl.\<close>

definition asked32 :: "dpu_reg_args \<Rightarrow> soc_access list" where
  "asked32 q =
     (if \<not> in_reg_range (ra_reg_addr q) then []
      else if ra_rw_flag q = REG_WRITE then [Soc_write32 (ra_reg_addr q) (ra_reg_data q)] else [])"

definition asked_user :: "dpu_reg_args option \<Rightarrow> soc_access list" where
  "asked_user r =
     (case r of None \<Rightarrow> []
      | Some q \<Rightarrow> if \<not> in_reg_range (ra_reg_addr q) then []
        else if ra_rw_flag q = REG_WRITE then [Soc_write32 (ra_reg_addr q) (ra_reg_data q)]
        else if ra_rw_flag q = REG_WRITE16 then [Soc_write16 (ra_reg_addr q) (ucast (ra_reg_data q))] else [])"

text \<open>The request the ioctl works on, if it gets one from user memory.\<close>

definition user_request :: "'a io_env_scheme \<Rightarrow> u64 \<Rightarrow> hist \<Rightarrow> dpu_reg_args option" where
  "user_request env args h =
     (let (p, h) = kmalloc env (k_sizeof env ''struct dpu_reg_args'') h in
      if p = 0 then None else k_user_reg_args env h args)"

text \<open>
  Anything else that happens on the machine: an event that neither writes the registers of
  region 1 nor touches the configuration BAR.
\<close>

definition off_window :: "eon_device \<Rightarrow> event \<Rightarrow> bool" where
  "off_window dev e \<longleftrightarrow>
     (case e of
        Ev_write32 a _ \<Rightarrow> \<not> window_off dev a < CONFIG_BAR_SIZE \<and> (\<forall>d r. a \<noteq> atu_reg_at (atu_base dev) 1 (d, r))
      | Ev_read32 a _ \<Rightarrow> \<not> window_off dev a < CONFIG_BAR_SIZE
      | Ev_write16 a _ \<Rightarrow> \<not> window_off dev a < CONFIG_BAR_SIZE
      | Ev_read16 a _ \<Rightarrow> \<not> window_off dev a < CONFIG_BAR_SIZE
      | _ \<Rightarrow> True)"

text \<open>
  \<open>window_run env dev ws dev' h\<close>: from the zeroed device structure \<open>dev\<close>, requests and other
  events in any order lead to \<open>dev'\<close> and the history \<open>h\<close>; the writes asked for were \<open>ws\<close>
  (newest first). \<open>conbar_lock\<close> makes a request one step.
\<close>

inductive window_run ::
  "'a io_env_scheme \<Rightarrow> eon_device \<Rightarrow> soc_access list \<Rightarrow> eon_device \<Rightarrow> hist \<Rightarrow> bool"
  for env dev where
  run_start: "config_bar_base dev = 0 \<Longrightarrow> window_run env dev [] dev []"
| run_kernel: "window_run env dev ws dev' h \<Longrightarrow> regs_operations env dev' q h = (ret, q', dev'', h') \<Longrightarrow>
    window_run env dev (asked32 q @ ws) dev'' h'"
| run_user: "window_run env dev ws dev' h \<Longrightarrow> cmd AND IOC_IN \<noteq> 0 \<Longrightarrow> cmd AND IOC_OUT \<noteq> 0 \<Longrightarrow>
    eon_rw_reg env dev' cmd args h = (ret, out, dev'', h') \<Longrightarrow>
    window_run env dev (asked_user (user_request env args h) @ ws) dev'' h'"
| run_other: "window_run env dev ws dev' h \<Longrightarrow> off_window dev' e \<Longrightarrow>
    window_run env dev ws dev' (e # h)"

lemma off_window_frames:
  assumes "off_window dev e"
  shows "soc_view dev (e # h) = soc_view dev h" "atu_target dev d 1 (e # h) = atu_target dev d 1 h"
  using assms
  by (cases e; auto simp: off_window_def soc_addr_def atu_target_def atu_reg_val_def)+

lemma reg_flags_distinct [simp]:
  "REG_WRITE \<noteq> REG_READ" "REG_WRITE \<noteq> REG_WRITE16" "REG_WRITE \<noteq> REG_READ16"
  "REG_READ \<noteq> REG_WRITE" "REG_READ \<noteq> REG_WRITE16" "REG_READ \<noteq> REG_READ16"
  "REG_WRITE16 \<noteq> REG_WRITE" "REG_WRITE16 \<noteq> REG_READ" "REG_WRITE16 \<noteq> REG_READ16"
  by (simp_all add: reg_consts)

lemma filter_reg_spec:
  "filter soc_is_write (if ra_rw_flag q \<in> {REG_WRITE, REG_READ} then reg_spec q q' else []) =
    (if ra_rw_flag q = REG_WRITE then [Soc_write32 (ra_reg_addr q) (ra_reg_data q)] else [])"
  "filter soc_is_write (reg_spec q q') =
    (if ra_rw_flag q = REG_WRITE then [Soc_write32 (ra_reg_addr q) (ra_reg_data q)]
     else if ra_rw_flag q = REG_WRITE16 then [Soc_write16 (ra_reg_addr q) (ucast (ra_reg_data q))] else [])"
  by (auto simp: reg_spec_def reg_consts)

lemma eon_rw_reg_refused:
  assumes "eon_rw_reg env dev cmd args h = (ret, out, dev', h')" and "cmd AND IOC_IN \<noteq> 0"
    and "\<forall>q. user_request env args h = Some q \<longrightarrow> \<not> in_reg_range (ra_reg_addr q)"
  shows "ret < 0" "out = None" "dev' = dev" "soc_view d h' = soc_view d h"
    "atu_target d i n h' = atu_target d i n h" "locks h' = locks h"
proof -
  obtain p h1 where k: "kmalloc env (k_sizeof env ''struct dpu_reg_args'') h = (p, h1)" by fastforce
  note f = kmalloc_frames [OF k]
  have "ret < 0 \<and> out = None \<and> dev' = dev \<and> (h' = h1 \<or> h' = kfree p h1)"
    using assms k by (auto simp: eon_rw_reg_def user_request_def in_reg_range_def Let_def split: option.splits if_splits)
  then show "ret < 0" "out = None" "dev' = dev" "soc_view d h' = soc_view d h"
    "atu_target d i n h' = atu_target d i n h" "locks h' = locks h"
    using f by (auto simp: kfree_def atu_frames)
qed

lemma window_run_inv:
  assumes "window_run env dev ws dev' h" and "bars_apart dev"
  shows "window_ok dev' h \<and> soc_writes dev' h = ws"
  using assms
proof (induction rule: window_run.induct)
  case run_start
  then show ?case by (simp add: window_ok_def window_inv_def soc_writes_def)
next
  case (run_kernel ws dev' h q ret q' dev'' h')
  then have ok: "window_inv dev' h" "bars_apart dev'" and ws: "soc_writes dev' h = ws"
    by (simp_all add: window_ok_def)
  show ?case
  proof (cases "in_reg_range (ra_reg_addr q)")
    case True
    note s = regs_operations_in [OF True run_kernel.hyps(2) ok]
    show ?thesis using s True ws window_okI [OF s(2) s(3) ok(2)]
      by (simp add: soc_writes_def asked32_def filter_reg_spec)
  next
    case False
    then show ?thesis using run_kernel.hyps(2) ok ws
      by (simp add: regs_operations_out asked32_def window_ok_def)
  qed
next
  case (run_user ws dev' h cmd args ret out dev'' h')
  then have ok: "window_inv dev' h" "bars_apart dev'" and ws: "soc_writes dev' h = ws"
    by (simp_all add: window_ok_def)
  note r = run_user.hyps(4)
  show ?case
  proof (cases "\<exists>q. user_request env args h = Some q \<and> in_reg_range (ra_reg_addr q)")
    case True
    then obtain q where q: "user_request env args h = Some q" "in_reg_range (ra_reg_addr q)" by blast
    obtain p h1 where k: "kmalloc env (k_sizeof env ''struct dpu_reg_args'') h = (p, h1)" by fastforce
    have p: "p \<noteq> 0" "k_user_reg_args env h1 args = Some q"
      using q k by (auto simp: user_request_def split: if_splits)
    obtain q' where s: "dev'' = dev'\<lparr>config_bar_base := block_of (ra_reg_addr q)\<rparr>"
      "\<And>d. atu_target dev' d 1 h' = Some (block_of (ra_reg_addr q))"
      "soc_view dev' h' = reg_spec q q' @ soc_view dev' h"
      using eon_rw_reg_in [OF r run_user.hyps(2,3) k p q(2) ok] by blast
    show ?thesis using s q ws window_okI [OF s(1) s(2) ok(2)]
      by (simp add: soc_writes_def asked_user_def filter_reg_spec)
  next
    case False
    then have no: "\<forall>q. user_request env args h = Some q \<longrightarrow> \<not> in_reg_range (ra_reg_addr q)" by blast
    note s = eon_rw_reg_refused [OF r run_user.hyps(2) no]
    have "asked_user (user_request env args h) = []"
      using no by (auto simp: asked_user_def split: option.split)
    with s ws ok show ?thesis by (simp add: window_ok_def window_inv_def soc_writes_def)
  qed
next
  case (run_other ws dev' h e)
  then show ?case
    by (simp add: window_ok_def window_inv_def soc_writes_def off_window_frames)
qed

section \<open>A machine for the witnesses\<close>

definition demo_reg_args :: dpu_reg_args where
  "demo_reg_args = \<lparr>ra_reg_addr = 0x48001004, ra_reg_data = 0xabcd1234, ra_rw_flag = 3\<rparr>"

definition demo_io_env :: io_env where
  "demo_io_env =
     \<lparr>mmio_read32 = (\<lambda>_ _. 7), mmio_read16 = (\<lambda>_ _. 9), dyn_debug = False,
      k_alloc = (\<lambda>_ _. 0x1000), k_call = (\<lambda>_ _. 0), k_sizeof = (\<lambda>_. 32),
      k_gup = (\<lambda>_ _ n. (uint n, \<lambda>_. 0x7000)), k_sg_alloc_table = (\<lambda>_ _. 0),
      k_map_sg = (\<lambda>_ _ _. (1, \<lambda>i. (0x80000000 + 0x1000 * of_nat i, 0x1000))),
      k_user_reg_args = (\<lambda>_ a. if a = 0 then None
         else if a = 1 then Some (demo_reg_args\<lparr>ra_reg_addr := 0x1000\<rparr>) else Some demo_reg_args),
      k_fresh_reg_args = (\<lambda>_. demo_reg_args), k_copy_to_user = (\<lambda>_ _. True)\<rparr>"

lemma demo_bars_apart: "bars_apart demo_device"
  by (simp add: bars_apart_def window_off_def atu_base_def demo_device_def bar_index_defs
      CONFIG_BAR_SIZE_def IATU_BASE_OFFSET_def)

lemma demo_window_ok: "window_ok demo_device []"
  by (simp add: window_ok_def window_inv_def demo_bars_apart) (simp add: demo_device_def)

lemma demo_kmalloc: "kmalloc demo_io_env s h = (0x1000, Ev_acquire (Res_kmem 0x1000) # h)"
  by (simp add: kmalloc_def demo_io_env_def)

lemma demo_user:
  "k_user_reg_args demo_io_env h 2 = Some demo_reg_args"
  "k_user_reg_args demo_io_env h 1 = Some (demo_reg_args\<lparr>ra_reg_addr := 0x1000\<rparr>)"
  "k_copy_to_user demo_io_env h a"
  by (simp_all add: demo_io_env_def)

section \<open>Properties\<close>

text \<open>
  C16: the driver's own register access. For an address in range, whatever window was open
  before, \<open>regs_operations\<close> makes the device see exactly one access, at the requested device
  address, with the requested value (or returning the value read), keeps the window
  invariant and leaves the locks as they were.
\<close>

theorem regs_operations_refines:
  assumes "window_ok dev h" and "in_reg_range (ra_reg_addr q)"
    and "ra_rw_flag q \<in> {REG_WRITE, REG_READ}"
    and "regs_operations env dev q h = (ret, q', dev', h')"
  shows "ret = 0 \<and> soc_view dev' h' = reg_spec q q' @ soc_view dev h \<and> window_ok dev' h' \<and>
    locks h' = locks h"
proof -
  have inv: "window_inv dev h" "bars_apart dev" using assms(1) by (simp_all add: window_ok_def)
  note s = regs_operations_in [OF assms(2,4) inv]
  show ?thesis using s assms(3) window_okI [OF s(2) s(3) inv(2)] by auto
qed

theorem regs_operations_refines_witness:
  "\<exists>q' dev' h'. regs_operations demo_io_env demo_device (demo_reg_args\<lparr>ra_rw_flag := REG_WRITE\<rparr>) []
      = (0, q', dev', h') \<and> soc_view dev' h' = [Soc_write32 0x48001004 0xabcd1234]"
proof -
  let ?q = "demo_reg_args\<lparr>ra_rw_flag := REG_WRITE\<rparr>"
  obtain ret q' dev' h' where r: "regs_operations demo_io_env demo_device ?q [] = (ret, q', dev', h')"
    by (metis prod_cases4)
  have "in_reg_range (ra_reg_addr ?q)"
    by (simp add: demo_reg_args_def in_reg_range_def REGS_ADDR_MIN_def REGS_ADDR_MAX_def)
  from regs_operations_refines [OF demo_window_ok this _ r] show ?thesis
    using r by (simp add: reg_spec_def) (simp add: demo_reg_args_def)
qed

text \<open>
  C15: the register ioctl. With both direction bits in the command and a request in range, the
  device sees exactly the access of the request's flag (32 or 16 bits wide, nothing for an
  unknown flag), at the requested address; the structure copied back carries the value read;
  the result is 0, or -3 when the copy back faults; the window invariant and the locks are kept.
\<close>

theorem eon_rw_reg_refines:
  assumes "window_ok dev h" and "cmd AND IOC_IN \<noteq> 0" and "cmd AND IOC_OUT \<noteq> 0"
    and "user_request env args h = Some q" and "in_reg_range (ra_reg_addr q)"
    and "eon_rw_reg env dev cmd args h = (ret, out, dev', h')"
  shows "\<exists>q'. ret = (if out = None then -3 else 0) \<and> out \<in> {None, Some q'} \<and>
    soc_view dev' h' = reg_spec q q' @ soc_view dev h \<and> window_ok dev' h' \<and> locks h' = locks h"
proof -
  have inv: "window_inv dev h" "bars_apart dev" using assms(1) by (simp_all add: window_ok_def)
  obtain p h1 where k: "kmalloc env (k_sizeof env ''struct dpu_reg_args'') h = (p, h1)" by fastforce
  have p: "p \<noteq> 0" "k_user_reg_args env h1 args = Some q"
    using assms(4) k by (auto simp: user_request_def split: if_splits)
  obtain q' where s: "ret = (if out = None then -3 else 0)" "out \<in> {None, Some q'}"
    "dev' = dev\<lparr>config_bar_base := block_of (ra_reg_addr q)\<rparr>"
    "\<And>d. atu_target dev d 1 h' = Some (block_of (ra_reg_addr q))"
    "soc_view dev h' = reg_spec q q' @ soc_view dev h" "locks h' = locks h"
    using eon_rw_reg_in [OF assms(6,2,3) k p assms(5) inv] by blast
  show ?thesis using s window_okI [OF s(3) s(4) inv(2)] by auto
qed

theorem eon_rw_reg_refines_witness:
  "\<exists>out dev' h'. eon_rw_reg demo_io_env demo_device 0xC0205304 2 [] = (0, out, dev', h') \<and>
    soc_view dev' h' = [Soc_write16 0x48001004 0x1234]"
proof -
  obtain ret out dev' h' where r: "eon_rw_reg demo_io_env demo_device 0xC0205304 2 [] = (ret, out, dev', h')"
    by (metis prod_cases4)
  have u: "user_request demo_io_env 2 [] = Some demo_reg_args"
    by (simp add: user_request_def demo_kmalloc demo_user)
  have a: "in_reg_range (ra_reg_addr demo_reg_args)"
    by (simp add: demo_reg_args_def in_reg_range_def REGS_ADDR_MIN_def REGS_ADDR_MAX_def)
  have "out \<noteq> None"
    using r a by (auto simp: eon_rw_reg_def demo_kmalloc in_reg_range_def Let_def demo_user
        IOC_IN_def IOC_OUT_def split: if_splits prod.splits)
  moreover have "\<exists>q'. ret = (if out = None then -3 else 0) \<and> out \<in> {None, Some q'} \<and>
    soc_view dev' h' = reg_spec demo_reg_args q' @ soc_view demo_device [] \<and> window_ok dev' h' \<and>
    locks h' = locks []"
    by (rule eon_rw_reg_refines [OF demo_window_ok _ _ u a r]) (simp_all add: IOC_IN_def IOC_OUT_def)
  ultimately show ?thesis
    using r by (auto simp: reg_spec_def demo_reg_args_def reg_consts)
qed

text \<open>
  C3: any sequence of register requests from the kernel side and from user programs, mixed with
  any other device traffic outside the window: the writes the device sees are exactly those
  asked for by the requests in range, at the requested addresses and in order, and the window
  invariant holds at the end.
\<close>

theorem window_run_writes:
  assumes "window_run env dev ws dev' h" and "bars_apart dev"
  shows "soc_writes dev' h = ws \<and> window_ok dev' h"
  using window_run_inv [OF assms] by simp

theorem window_run_writes_witness:
  "\<exists>dev' h. window_run demo_io_env demo_device [Soc_write16 0x48001004 0x1234] dev' h \<and>
    soc_writes dev' h = [Soc_write16 0x48001004 0x1234]"
proof -
  obtain ret out dev' h' where r: "eon_rw_reg demo_io_env demo_device 0xC0205304 2 [] = (ret, out, dev', h')"
    by (metis prod_cases4)
  have start: "window_run demo_io_env demo_device [] demo_device []"
    by (rule run_start) (simp add: demo_device_def)
  have u: "user_request demo_io_env 2 [] = Some demo_reg_args"
    by (simp add: user_request_def demo_kmalloc demo_user)
  have w: "asked_user (Some demo_reg_args) = [Soc_write16 0x48001004 0x1234]"
    by (simp add: asked_user_def demo_reg_args_def in_reg_range_def REGS_ADDR_MIN_def
        REGS_ADDR_MAX_def reg_consts)
  have "window_run demo_io_env demo_device [Soc_write16 0x48001004 0x1234] dev' h'"
    using run_user [OF start _ _ r] by (simp add: IOC_IN_def IOC_OUT_def u w)
  with window_run_writes [OF this demo_bars_apart] show ?thesis by blast
qed

text \<open>
  A request outside the register range is refused before anything reaches the device or a
  lock is taken, and the ioctl then returns without freeing the argument structure it allocated.
\<close>

lemma eon_rw_reg_out_of_range:
  assumes "user_request env args h = Some q" and "\<not> in_reg_range (ra_reg_addr q)"
    and "cmd AND IOC_IN \<noteq> 0"
  shows "\<exists>p. eon_rw_reg env dev cmd args h = (-1, None, dev, Ev_acquire (Res_kmem p) # h) \<and>
    regs_operations env dev q h = (-1, q, dev, h)"
  using assms
  by (auto simp: eon_rw_reg_def user_request_def kmalloc_def in_reg_range_def regs_operations_def
      Let_def split: if_splits)

text \<open>
  \<open>regs_operations\<close> reports success for a flag it does not know, the 16-bit accesses
  included, without any access to the register.
\<close>

lemma regs_operations_unknown_flag:
  assumes "window_ok dev h" and "in_reg_range (ra_reg_addr q)"
    and "ra_rw_flag q \<notin> {REG_WRITE, REG_READ}"
    and "regs_operations env dev q h = (ret, q', dev', h')"
  shows "ret = 0 \<and> q' = q \<and> soc_view dev' h' = soc_view dev h"
proof -
  have inv: "window_inv dev h" "bars_apart dev" using assms(1) by (simp_all add: window_ok_def)
  note s = regs_operations_in [OF assms(2,4) inv]
  have "q' = q" using assms(2-4)
    by (auto simp: regs_operations_def in_reg_range_def Let_def split: if_splits prod.splits)
  with s assms(3) show ?thesis by auto
qed

end
