(* ===== verification/Hdma_Regs.thy ===== *)
theory Hdma_Regs
  imports Eon_Device Register_Bank
begin

text \<open>
  The register map of the HDMA engine (\<open>hdma.h\<close>): one macro per register for the write and
  for the read channels, and the record of a channel's addresses that \<open>hdma_init\<close> fills.
  The channel number is a \<open>uint32_t\<close>, so the product with the channel size is taken in 32 bits
  and only then added to the 64-bit base, as the macros do.
\<close>

section \<open>Register address macros\<close>

definition HDMA_SIZE :: u32 where
  "HDMA_SIZE = 0x800"

definition HDMA_BASE_BAR_OFFSET :: u64 where
  "HDMA_BASE_BAR_OFFSET = 0x1000"

definition HDMA_SOC_OFFSET :: u64 where
  "HDMA_SOC_OFFSET = 0"

definition HDMA_EN_OFF_WRCH :: "u64 \<Rightarrow> u32 \<Rightarrow> u64" where
  "HDMA_EN_OFF_WRCH base n = base + HDMA_SOC_OFFSET + ucast (n * HDMA_SIZE) + 0x0"

definition HDMA_DOORBELL_OFF_WRCH :: "u64 \<Rightarrow> u32 \<Rightarrow> u64" where
  "HDMA_DOORBELL_OFF_WRCH base n = base + HDMA_SOC_OFFSET + ucast (n * HDMA_SIZE) + 0x4"

definition HDMA_ELEM_PF_OFF_WRCH :: "u64 \<Rightarrow> u32 \<Rightarrow> u64" where
  "HDMA_ELEM_PF_OFF_WRCH base n = base + HDMA_SOC_OFFSET + ucast (n * HDMA_SIZE) + 0x8"

definition HDMA_LLP_LOW_OFF_WRCH :: "u64 \<Rightarrow> u32 \<Rightarrow> u64" where
  "HDMA_LLP_LOW_OFF_WRCH base n = base + HDMA_SOC_OFFSET + ucast (n * HDMA_SIZE) + 0x10"

definition HDMA_LLP_HIGH_OFF_WRCH :: "u64 \<Rightarrow> u32 \<Rightarrow> u64" where
  "HDMA_LLP_HIGH_OFF_WRCH base n = base + HDMA_SOC_OFFSET + ucast (n * HDMA_SIZE) + 0x14"

definition HDMA_CYCLE_OFF_WRCH :: "u64 \<Rightarrow> u32 \<Rightarrow> u64" where
  "HDMA_CYCLE_OFF_WRCH base n = base + HDMA_SOC_OFFSET + ucast (n * HDMA_SIZE) + 0x18"

definition HDMA_XFERSIZE_OFF_WRCH :: "u64 \<Rightarrow> u32 \<Rightarrow> u64" where
  "HDMA_XFERSIZE_OFF_WRCH base n = base + HDMA_SOC_OFFSET + ucast (n * HDMA_SIZE) + 0x1c"

definition HDMA_SAR_LOW_OFF_WRCH :: "u64 \<Rightarrow> u32 \<Rightarrow> u64" where
  "HDMA_SAR_LOW_OFF_WRCH base n = base + HDMA_SOC_OFFSET + ucast (n * HDMA_SIZE) + 0x20"

definition HDMA_SAR_HIGH_OFF_WRCH :: "u64 \<Rightarrow> u32 \<Rightarrow> u64" where
  "HDMA_SAR_HIGH_OFF_WRCH base n = base + HDMA_SOC_OFFSET + ucast (n * HDMA_SIZE) + 0x24"

definition HDMA_DAR_LOW_OFF_WRCH :: "u64 \<Rightarrow> u32 \<Rightarrow> u64" where
  "HDMA_DAR_LOW_OFF_WRCH base n = base + HDMA_SOC_OFFSET + ucast (n * HDMA_SIZE) + 0x28"

definition HDMA_DAR_HIGH_OFF_WRCH :: "u64 \<Rightarrow> u32 \<Rightarrow> u64" where
  "HDMA_DAR_HIGH_OFF_WRCH base n = base + HDMA_SOC_OFFSET + ucast (n * HDMA_SIZE) + 0x2c"

definition HDMA_WATERMARK_OFF_WRCH :: "u64 \<Rightarrow> u32 \<Rightarrow> u64" where
  "HDMA_WATERMARK_OFF_WRCH base n = base + HDMA_SOC_OFFSET + ucast (n * HDMA_SIZE) + 0x30"

definition HDMA_CONTROL1_OFF_WRCH :: "u64 \<Rightarrow> u32 \<Rightarrow> u64" where
  "HDMA_CONTROL1_OFF_WRCH base n = base + HDMA_SOC_OFFSET + ucast (n * HDMA_SIZE) + 0x34"

definition HDMA_FUNC_NUM_OFF_WRCH :: "u64 \<Rightarrow> u32 \<Rightarrow> u64" where
  "HDMA_FUNC_NUM_OFF_WRCH base n = base + HDMA_SOC_OFFSET + ucast (n * HDMA_SIZE) + 0x38"

definition HDMA_QOS_OFF_WRCH :: "u64 \<Rightarrow> u32 \<Rightarrow> u64" where
  "HDMA_QOS_OFF_WRCH base n = base + HDMA_SOC_OFFSET + ucast (n * HDMA_SIZE) + 0x3c"

definition HDMA_STATUS_OFF_WRCH :: "u64 \<Rightarrow> u32 \<Rightarrow> u64" where
  "HDMA_STATUS_OFF_WRCH base n = base + HDMA_SOC_OFFSET + ucast (n * HDMA_SIZE) + 0x80"

definition HDMA_INT_STATUS_OFF_WRCH :: "u64 \<Rightarrow> u32 \<Rightarrow> u64" where
  "HDMA_INT_STATUS_OFF_WRCH base n = base + HDMA_SOC_OFFSET + ucast (n * HDMA_SIZE) + 0x84"

definition HDMA_INT_SETUP_OFF_WRCH :: "u64 \<Rightarrow> u32 \<Rightarrow> u64" where
  "HDMA_INT_SETUP_OFF_WRCH base n = base + HDMA_SOC_OFFSET + ucast (n * HDMA_SIZE) + 0x88"

definition HDMA_INT_CLEAR_OFF_WRCH :: "u64 \<Rightarrow> u32 \<Rightarrow> u64" where
  "HDMA_INT_CLEAR_OFF_WRCH base n = base + HDMA_SOC_OFFSET + ucast (n * HDMA_SIZE) + 0x8c"

definition HDMA_MSI_STOP_LOW_OFF_WRCH :: "u64 \<Rightarrow> u32 \<Rightarrow> u64" where
  "HDMA_MSI_STOP_LOW_OFF_WRCH base n = base + HDMA_SOC_OFFSET + ucast (n * HDMA_SIZE) + 0x90"

definition HDMA_MSI_STOP_HIGH_OFF_WRCH :: "u64 \<Rightarrow> u32 \<Rightarrow> u64" where
  "HDMA_MSI_STOP_HIGH_OFF_WRCH base n = base + HDMA_SOC_OFFSET + ucast (n * HDMA_SIZE) + 0x94"

definition HDMA_MSI_WATERMARK_LOW_OFF_WRCH :: "u64 \<Rightarrow> u32 \<Rightarrow> u64" where
  "HDMA_MSI_WATERMARK_LOW_OFF_WRCH base n = base + HDMA_SOC_OFFSET + ucast (n * HDMA_SIZE) + 0x98"

definition HDMA_MSI_WATERMARK_HIGH_OFF_WRCH :: "u64 \<Rightarrow> u32 \<Rightarrow> u64" where
  "HDMA_MSI_WATERMARK_HIGH_OFF_WRCH base n = base + HDMA_SOC_OFFSET + ucast (n * HDMA_SIZE) + 0x9c"

definition HDMA_MSI_ABORT_LOW_OFF_WRCH :: "u64 \<Rightarrow> u32 \<Rightarrow> u64" where
  "HDMA_MSI_ABORT_LOW_OFF_WRCH base n = base + HDMA_SOC_OFFSET + ucast (n * HDMA_SIZE) + 0xa0"

definition HDMA_MSI_ABORT_HIGH_OFF_WRCH :: "u64 \<Rightarrow> u32 \<Rightarrow> u64" where
  "HDMA_MSI_ABORT_HIGH_OFF_WRCH base n = base + HDMA_SOC_OFFSET + ucast (n * HDMA_SIZE) + 0xa4"

definition HDMA_MSI_MSGD_OFF_WRCH :: "u64 \<Rightarrow> u32 \<Rightarrow> u64" where
  "HDMA_MSI_MSGD_OFF_WRCH base n = base + HDMA_SOC_OFFSET + ucast (n * HDMA_SIZE) + 0xa8"

definition HDMA_EN_OFF_RDCH :: "u64 \<Rightarrow> u32 \<Rightarrow> u64" where
  "HDMA_EN_OFF_RDCH base n = base + HDMA_SOC_OFFSET + 0x400 + ucast (n * HDMA_SIZE) + 0x0"

definition HDMA_DOORBELL_OFF_RDCH :: "u64 \<Rightarrow> u32 \<Rightarrow> u64" where
  "HDMA_DOORBELL_OFF_RDCH base n = base + HDMA_SOC_OFFSET + 0x400 + ucast (n * HDMA_SIZE) + 0x4"

definition HDMA_ELEM_PF_OFF_RDCH :: "u64 \<Rightarrow> u32 \<Rightarrow> u64" where
  "HDMA_ELEM_PF_OFF_RDCH base n = base + HDMA_SOC_OFFSET + 0x400 + ucast (n * HDMA_SIZE) + 0x8"

definition HDMA_LLP_LOW_OFF_RDCH :: "u64 \<Rightarrow> u32 \<Rightarrow> u64" where
  "HDMA_LLP_LOW_OFF_RDCH base n = base + HDMA_SOC_OFFSET + 0x400 + ucast (n * HDMA_SIZE) + 0x10"

definition HDMA_LLP_HIGH_OFF_RDCH :: "u64 \<Rightarrow> u32 \<Rightarrow> u64" where
  "HDMA_LLP_HIGH_OFF_RDCH base n = base + HDMA_SOC_OFFSET + 0x400 + ucast (n * HDMA_SIZE) + 0x14"

definition HDMA_CYCLE_OFF_RDCH :: "u64 \<Rightarrow> u32 \<Rightarrow> u64" where
  "HDMA_CYCLE_OFF_RDCH base n = base + HDMA_SOC_OFFSET + 0x400 + ucast (n * HDMA_SIZE) + 0x18"

definition HDMA_XFERSIZE_OFF_RDCH :: "u64 \<Rightarrow> u32 \<Rightarrow> u64" where
  "HDMA_XFERSIZE_OFF_RDCH base n = base + HDMA_SOC_OFFSET + 0x400 + ucast (n * HDMA_SIZE) + 0x1c"

definition HDMA_SAR_LOW_OFF_RDCH :: "u64 \<Rightarrow> u32 \<Rightarrow> u64" where
  "HDMA_SAR_LOW_OFF_RDCH base n = base + HDMA_SOC_OFFSET + 0x400 + ucast (n * HDMA_SIZE) + 0x20"

definition HDMA_SAR_HIGH_OFF_RDCH :: "u64 \<Rightarrow> u32 \<Rightarrow> u64" where
  "HDMA_SAR_HIGH_OFF_RDCH base n = base + HDMA_SOC_OFFSET + 0x400 + ucast (n * HDMA_SIZE) + 0x24"

definition HDMA_DAR_LOW_OFF_RDCH :: "u64 \<Rightarrow> u32 \<Rightarrow> u64" where
  "HDMA_DAR_LOW_OFF_RDCH base n = base + HDMA_SOC_OFFSET + 0x400 + ucast (n * HDMA_SIZE) + 0x28"

definition HDMA_DAR_HIGH_OFF_RDCH :: "u64 \<Rightarrow> u32 \<Rightarrow> u64" where
  "HDMA_DAR_HIGH_OFF_RDCH base n = base + HDMA_SOC_OFFSET + 0x400 + ucast (n * HDMA_SIZE) + 0x2c"

definition HDMA_WATERMARK_OFF_RDCH :: "u64 \<Rightarrow> u32 \<Rightarrow> u64" where
  "HDMA_WATERMARK_OFF_RDCH base n = base + HDMA_SOC_OFFSET + 0x400 + ucast (n * HDMA_SIZE) + 0x30"

definition HDMA_CONTROL1_OFF_RDCH :: "u64 \<Rightarrow> u32 \<Rightarrow> u64" where
  "HDMA_CONTROL1_OFF_RDCH base n = base + HDMA_SOC_OFFSET + 0x400 + ucast (n * HDMA_SIZE) + 0x34"

definition HDMA_FUNC_NUM_OFF_RDCH :: "u64 \<Rightarrow> u32 \<Rightarrow> u64" where
  "HDMA_FUNC_NUM_OFF_RDCH base n = base + HDMA_SOC_OFFSET + 0x400 + ucast (n * HDMA_SIZE) + 0x38"

definition HDMA_QOS_OFF_RDCH :: "u64 \<Rightarrow> u32 \<Rightarrow> u64" where
  "HDMA_QOS_OFF_RDCH base n = base + HDMA_SOC_OFFSET + 0x400 + ucast (n * HDMA_SIZE) + 0x3c"

definition HDMA_STATUS_OFF_RDCH :: "u64 \<Rightarrow> u32 \<Rightarrow> u64" where
  "HDMA_STATUS_OFF_RDCH base n = base + HDMA_SOC_OFFSET + 0x400 + ucast (n * HDMA_SIZE) + 0x80"

definition HDMA_INT_STATUS_OFF_RDCH :: "u64 \<Rightarrow> u32 \<Rightarrow> u64" where
  "HDMA_INT_STATUS_OFF_RDCH base n = base + HDMA_SOC_OFFSET + 0x400 + ucast (n * HDMA_SIZE) + 0x84"

definition HDMA_INT_SETUP_OFF_RDCH :: "u64 \<Rightarrow> u32 \<Rightarrow> u64" where
  "HDMA_INT_SETUP_OFF_RDCH base n = base + HDMA_SOC_OFFSET + 0x400 + ucast (n * HDMA_SIZE) + 0x88"

definition HDMA_INT_CLEAR_OFF_RDCH :: "u64 \<Rightarrow> u32 \<Rightarrow> u64" where
  "HDMA_INT_CLEAR_OFF_RDCH base n = base + HDMA_SOC_OFFSET + 0x400 + ucast (n * HDMA_SIZE) + 0x8c"

definition HDMA_MSI_STOP_LOW_OFF_RDCH :: "u64 \<Rightarrow> u32 \<Rightarrow> u64" where
  "HDMA_MSI_STOP_LOW_OFF_RDCH base n = base + HDMA_SOC_OFFSET + 0x400 + ucast (n * HDMA_SIZE) + 0x90"

definition HDMA_MSI_STOP_HIGH_OFF_RDCH :: "u64 \<Rightarrow> u32 \<Rightarrow> u64" where
  "HDMA_MSI_STOP_HIGH_OFF_RDCH base n = base + HDMA_SOC_OFFSET + 0x400 + ucast (n * HDMA_SIZE) + 0x94"

definition HDMA_MSI_WATERMARK_LOW_OFF_RDCH :: "u64 \<Rightarrow> u32 \<Rightarrow> u64" where
  "HDMA_MSI_WATERMARK_LOW_OFF_RDCH base n = base + HDMA_SOC_OFFSET + 0x400 + ucast (n * HDMA_SIZE) + 0x98"

definition HDMA_MSI_WATERMARK_HIGH_OFF_RDCH :: "u64 \<Rightarrow> u32 \<Rightarrow> u64" where
  "HDMA_MSI_WATERMARK_HIGH_OFF_RDCH base n = base + HDMA_SOC_OFFSET + 0x400 + ucast (n * HDMA_SIZE) + 0x9c"

definition HDMA_MSI_ABORT_LOW_OFF_RDCH :: "u64 \<Rightarrow> u32 \<Rightarrow> u64" where
  "HDMA_MSI_ABORT_LOW_OFF_RDCH base n = base + HDMA_SOC_OFFSET + 0x400 + ucast (n * HDMA_SIZE) + 0xa0"

definition HDMA_MSI_ABORT_HIGH_OFF_RDCH :: "u64 \<Rightarrow> u32 \<Rightarrow> u64" where
  "HDMA_MSI_ABORT_HIGH_OFF_RDCH base n = base + HDMA_SOC_OFFSET + 0x400 + ucast (n * HDMA_SIZE) + 0xa4"

definition HDMA_MSI_MSGD_OFF_RDCH :: "u64 \<Rightarrow> u32 \<Rightarrow> u64" where
  "HDMA_MSI_MSGD_OFF_RDCH base n = base + HDMA_SOC_OFFSET + 0x400 + ucast (n * HDMA_SIZE) + 0xa8"

lemmas hdma_macro_defs = HDMA_SIZE_def HDMA_SOC_OFFSET_def
  HDMA_EN_OFF_WRCH_def
  HDMA_DOORBELL_OFF_WRCH_def
  HDMA_ELEM_PF_OFF_WRCH_def
  HDMA_LLP_LOW_OFF_WRCH_def
  HDMA_LLP_HIGH_OFF_WRCH_def
  HDMA_CYCLE_OFF_WRCH_def
  HDMA_XFERSIZE_OFF_WRCH_def
  HDMA_SAR_LOW_OFF_WRCH_def
  HDMA_SAR_HIGH_OFF_WRCH_def
  HDMA_DAR_LOW_OFF_WRCH_def
  HDMA_DAR_HIGH_OFF_WRCH_def
  HDMA_WATERMARK_OFF_WRCH_def
  HDMA_CONTROL1_OFF_WRCH_def
  HDMA_FUNC_NUM_OFF_WRCH_def
  HDMA_QOS_OFF_WRCH_def
  HDMA_STATUS_OFF_WRCH_def
  HDMA_INT_STATUS_OFF_WRCH_def
  HDMA_INT_SETUP_OFF_WRCH_def
  HDMA_INT_CLEAR_OFF_WRCH_def
  HDMA_MSI_STOP_LOW_OFF_WRCH_def
  HDMA_MSI_STOP_HIGH_OFF_WRCH_def
  HDMA_MSI_WATERMARK_LOW_OFF_WRCH_def
  HDMA_MSI_WATERMARK_HIGH_OFF_WRCH_def
  HDMA_MSI_ABORT_LOW_OFF_WRCH_def
  HDMA_MSI_ABORT_HIGH_OFF_WRCH_def
  HDMA_MSI_MSGD_OFF_WRCH_def
  HDMA_EN_OFF_RDCH_def
  HDMA_DOORBELL_OFF_RDCH_def
  HDMA_ELEM_PF_OFF_RDCH_def
  HDMA_LLP_LOW_OFF_RDCH_def
  HDMA_LLP_HIGH_OFF_RDCH_def
  HDMA_CYCLE_OFF_RDCH_def
  HDMA_XFERSIZE_OFF_RDCH_def
  HDMA_SAR_LOW_OFF_RDCH_def
  HDMA_SAR_HIGH_OFF_RDCH_def
  HDMA_DAR_LOW_OFF_RDCH_def
  HDMA_DAR_HIGH_OFF_RDCH_def
  HDMA_WATERMARK_OFF_RDCH_def
  HDMA_CONTROL1_OFF_RDCH_def
  HDMA_FUNC_NUM_OFF_RDCH_def
  HDMA_QOS_OFF_RDCH_def
  HDMA_STATUS_OFF_RDCH_def
  HDMA_INT_STATUS_OFF_RDCH_def
  HDMA_INT_SETUP_OFF_RDCH_def
  HDMA_INT_CLEAR_OFF_RDCH_def
  HDMA_MSI_STOP_LOW_OFF_RDCH_def
  HDMA_MSI_STOP_HIGH_OFF_RDCH_def
  HDMA_MSI_WATERMARK_LOW_OFF_RDCH_def
  HDMA_MSI_WATERMARK_HIGH_OFF_RDCH_def
  HDMA_MSI_ABORT_LOW_OFF_RDCH_def
  HDMA_MSI_ABORT_HIGH_OFF_RDCH_def
  HDMA_MSI_MSGD_OFF_RDCH_def

text \<open>The macros as one map, by kind of channel and register.\<close>

datatype hdma_rw = WrCh | RdCh

datatype hdma_reg =
    EN
  | DOORBELL
  | ELEM_PF
  | LLP_LOW
  | LLP_HIGH
  | CYCLE
  | XFERSIZE
  | SAR_LOW
  | SAR_HIGH
  | DAR_LOW
  | DAR_HIGH
  | WATERMARK
  | CONTROL1
  | FUNC_NUM
  | QOS
  | STATUS
  | INT_STATUS
  | INT_SETUP
  | INT_CLEAR
  | MSI_STOP_LOW
  | MSI_STOP_HIGH
  | MSI_WATERMARK_LOW
  | MSI_WATERMARK_HIGH
  | MSI_ABORT_LOW
  | MSI_ABORT_HIGH
  | MSI_MSGD

fun hdma_off :: "hdma_rw \<times> hdma_reg \<Rightarrow> nat" where
  "hdma_off (d, r) = (case d of WrCh \<Rightarrow> 0 | RdCh \<Rightarrow> 0x400) +
     (case r of EN \<Rightarrow> 0x0
      | DOORBELL \<Rightarrow> 0x4
      | ELEM_PF \<Rightarrow> 0x8
      | LLP_LOW \<Rightarrow> 0x10
      | LLP_HIGH \<Rightarrow> 0x14
      | CYCLE \<Rightarrow> 0x18
      | XFERSIZE \<Rightarrow> 0x1c
      | SAR_LOW \<Rightarrow> 0x20
      | SAR_HIGH \<Rightarrow> 0x24
      | DAR_LOW \<Rightarrow> 0x28
      | DAR_HIGH \<Rightarrow> 0x2c
      | WATERMARK \<Rightarrow> 0x30
      | CONTROL1 \<Rightarrow> 0x34
      | FUNC_NUM \<Rightarrow> 0x38
      | QOS \<Rightarrow> 0x3c
      | STATUS \<Rightarrow> 0x80
      | INT_STATUS \<Rightarrow> 0x84
      | INT_SETUP \<Rightarrow> 0x88
      | INT_CLEAR \<Rightarrow> 0x8c
      | MSI_STOP_LOW \<Rightarrow> 0x90
      | MSI_STOP_HIGH \<Rightarrow> 0x94
      | MSI_WATERMARK_LOW \<Rightarrow> 0x98
      | MSI_WATERMARK_HIGH \<Rightarrow> 0x9c
      | MSI_ABORT_LOW \<Rightarrow> 0xa0
      | MSI_ABORT_HIGH \<Rightarrow> 0xa4
      | MSI_MSGD \<Rightarrow> 0xa8)"

fun hdma_reg_at :: "u64 \<Rightarrow> u32 \<Rightarrow> hdma_rw \<times> hdma_reg \<Rightarrow> u64" where
  "hdma_reg_at b n (WrCh, EN) = HDMA_EN_OFF_WRCH b n"
| "hdma_reg_at b n (WrCh, DOORBELL) = HDMA_DOORBELL_OFF_WRCH b n"
| "hdma_reg_at b n (WrCh, ELEM_PF) = HDMA_ELEM_PF_OFF_WRCH b n"
| "hdma_reg_at b n (WrCh, LLP_LOW) = HDMA_LLP_LOW_OFF_WRCH b n"
| "hdma_reg_at b n (WrCh, LLP_HIGH) = HDMA_LLP_HIGH_OFF_WRCH b n"
| "hdma_reg_at b n (WrCh, CYCLE) = HDMA_CYCLE_OFF_WRCH b n"
| "hdma_reg_at b n (WrCh, XFERSIZE) = HDMA_XFERSIZE_OFF_WRCH b n"
| "hdma_reg_at b n (WrCh, SAR_LOW) = HDMA_SAR_LOW_OFF_WRCH b n"
| "hdma_reg_at b n (WrCh, SAR_HIGH) = HDMA_SAR_HIGH_OFF_WRCH b n"
| "hdma_reg_at b n (WrCh, DAR_LOW) = HDMA_DAR_LOW_OFF_WRCH b n"
| "hdma_reg_at b n (WrCh, DAR_HIGH) = HDMA_DAR_HIGH_OFF_WRCH b n"
| "hdma_reg_at b n (WrCh, WATERMARK) = HDMA_WATERMARK_OFF_WRCH b n"
| "hdma_reg_at b n (WrCh, CONTROL1) = HDMA_CONTROL1_OFF_WRCH b n"
| "hdma_reg_at b n (WrCh, FUNC_NUM) = HDMA_FUNC_NUM_OFF_WRCH b n"
| "hdma_reg_at b n (WrCh, QOS) = HDMA_QOS_OFF_WRCH b n"
| "hdma_reg_at b n (WrCh, STATUS) = HDMA_STATUS_OFF_WRCH b n"
| "hdma_reg_at b n (WrCh, INT_STATUS) = HDMA_INT_STATUS_OFF_WRCH b n"
| "hdma_reg_at b n (WrCh, INT_SETUP) = HDMA_INT_SETUP_OFF_WRCH b n"
| "hdma_reg_at b n (WrCh, INT_CLEAR) = HDMA_INT_CLEAR_OFF_WRCH b n"
| "hdma_reg_at b n (WrCh, MSI_STOP_LOW) = HDMA_MSI_STOP_LOW_OFF_WRCH b n"
| "hdma_reg_at b n (WrCh, MSI_STOP_HIGH) = HDMA_MSI_STOP_HIGH_OFF_WRCH b n"
| "hdma_reg_at b n (WrCh, MSI_WATERMARK_LOW) = HDMA_MSI_WATERMARK_LOW_OFF_WRCH b n"
| "hdma_reg_at b n (WrCh, MSI_WATERMARK_HIGH) = HDMA_MSI_WATERMARK_HIGH_OFF_WRCH b n"
| "hdma_reg_at b n (WrCh, MSI_ABORT_LOW) = HDMA_MSI_ABORT_LOW_OFF_WRCH b n"
| "hdma_reg_at b n (WrCh, MSI_ABORT_HIGH) = HDMA_MSI_ABORT_HIGH_OFF_WRCH b n"
| "hdma_reg_at b n (WrCh, MSI_MSGD) = HDMA_MSI_MSGD_OFF_WRCH b n"
| "hdma_reg_at b n (RdCh, EN) = HDMA_EN_OFF_RDCH b n"
| "hdma_reg_at b n (RdCh, DOORBELL) = HDMA_DOORBELL_OFF_RDCH b n"
| "hdma_reg_at b n (RdCh, ELEM_PF) = HDMA_ELEM_PF_OFF_RDCH b n"
| "hdma_reg_at b n (RdCh, LLP_LOW) = HDMA_LLP_LOW_OFF_RDCH b n"
| "hdma_reg_at b n (RdCh, LLP_HIGH) = HDMA_LLP_HIGH_OFF_RDCH b n"
| "hdma_reg_at b n (RdCh, CYCLE) = HDMA_CYCLE_OFF_RDCH b n"
| "hdma_reg_at b n (RdCh, XFERSIZE) = HDMA_XFERSIZE_OFF_RDCH b n"
| "hdma_reg_at b n (RdCh, SAR_LOW) = HDMA_SAR_LOW_OFF_RDCH b n"
| "hdma_reg_at b n (RdCh, SAR_HIGH) = HDMA_SAR_HIGH_OFF_RDCH b n"
| "hdma_reg_at b n (RdCh, DAR_LOW) = HDMA_DAR_LOW_OFF_RDCH b n"
| "hdma_reg_at b n (RdCh, DAR_HIGH) = HDMA_DAR_HIGH_OFF_RDCH b n"
| "hdma_reg_at b n (RdCh, WATERMARK) = HDMA_WATERMARK_OFF_RDCH b n"
| "hdma_reg_at b n (RdCh, CONTROL1) = HDMA_CONTROL1_OFF_RDCH b n"
| "hdma_reg_at b n (RdCh, FUNC_NUM) = HDMA_FUNC_NUM_OFF_RDCH b n"
| "hdma_reg_at b n (RdCh, QOS) = HDMA_QOS_OFF_RDCH b n"
| "hdma_reg_at b n (RdCh, STATUS) = HDMA_STATUS_OFF_RDCH b n"
| "hdma_reg_at b n (RdCh, INT_STATUS) = HDMA_INT_STATUS_OFF_RDCH b n"
| "hdma_reg_at b n (RdCh, INT_SETUP) = HDMA_INT_SETUP_OFF_RDCH b n"
| "hdma_reg_at b n (RdCh, INT_CLEAR) = HDMA_INT_CLEAR_OFF_RDCH b n"
| "hdma_reg_at b n (RdCh, MSI_STOP_LOW) = HDMA_MSI_STOP_LOW_OFF_RDCH b n"
| "hdma_reg_at b n (RdCh, MSI_STOP_HIGH) = HDMA_MSI_STOP_HIGH_OFF_RDCH b n"
| "hdma_reg_at b n (RdCh, MSI_WATERMARK_LOW) = HDMA_MSI_WATERMARK_LOW_OFF_RDCH b n"
| "hdma_reg_at b n (RdCh, MSI_WATERMARK_HIGH) = HDMA_MSI_WATERMARK_HIGH_OFF_RDCH b n"
| "hdma_reg_at b n (RdCh, MSI_ABORT_LOW) = HDMA_MSI_ABORT_LOW_OFF_RDCH b n"
| "hdma_reg_at b n (RdCh, MSI_ABORT_HIGH) = HDMA_MSI_ABORT_HIGH_OFF_RDCH b n"
| "hdma_reg_at b n (RdCh, MSI_MSGD) = HDMA_MSI_MSGD_OFF_RDCH b n"

text \<open>The addresses \<open>hdma_init\<close> stores for a write channel.\<close>

definition hdma_regs_wr :: "u64 \<Rightarrow> u32 \<Rightarrow> hdma_regs" where
  "hdma_regs_wr cfg_base channel =
     \<lparr>r_en = HDMA_EN_OFF_WRCH cfg_base channel,
      r_doorbell = HDMA_DOORBELL_OFF_WRCH cfg_base channel,
      r_elem_pf = HDMA_ELEM_PF_OFF_WRCH cfg_base channel,
      r_llp_low = HDMA_LLP_LOW_OFF_WRCH cfg_base channel,
      r_llp_high = HDMA_LLP_HIGH_OFF_WRCH cfg_base channel,
      r_cycle_off = HDMA_CYCLE_OFF_WRCH cfg_base channel,
      r_xfer_size = HDMA_XFERSIZE_OFF_WRCH cfg_base channel,
      r_sar_low = HDMA_SAR_LOW_OFF_WRCH cfg_base channel,
      r_sar_high = HDMA_SAR_HIGH_OFF_WRCH cfg_base channel,
      r_dar_low = HDMA_DAR_LOW_OFF_WRCH cfg_base channel,
      r_dar_high = HDMA_DAR_HIGH_OFF_WRCH cfg_base channel,
      r_watermark = HDMA_WATERMARK_OFF_WRCH cfg_base channel,
      r_control1 = HDMA_CONTROL1_OFF_WRCH cfg_base channel,
      r_func_num = HDMA_FUNC_NUM_OFF_WRCH cfg_base channel,
      r_qos = HDMA_QOS_OFF_WRCH cfg_base channel,
      r_status = HDMA_STATUS_OFF_WRCH cfg_base channel,
      r_int_status = HDMA_INT_STATUS_OFF_WRCH cfg_base channel,
      r_int_setup = HDMA_INT_SETUP_OFF_WRCH cfg_base channel,
      r_int_clear = HDMA_INT_CLEAR_OFF_WRCH cfg_base channel,
      r_msi_stop_low = HDMA_MSI_STOP_LOW_OFF_WRCH cfg_base channel,
      r_msi_stop_high = HDMA_MSI_STOP_HIGH_OFF_WRCH cfg_base channel,
      r_msi_watermark_low = HDMA_MSI_WATERMARK_LOW_OFF_WRCH cfg_base channel,
      r_msi_watermark_high = HDMA_MSI_WATERMARK_HIGH_OFF_WRCH cfg_base channel,
      r_msi_abort_low = HDMA_MSI_ABORT_LOW_OFF_WRCH cfg_base channel,
      r_msi_abort_high = HDMA_MSI_ABORT_HIGH_OFF_WRCH cfg_base channel,
      r_msi_msgd = HDMA_MSI_MSGD_OFF_WRCH cfg_base channel\<rparr>"

text \<open>The addresses \<open>hdma_init\<close> stores for a read channel.\<close>

definition hdma_regs_rd :: "u64 \<Rightarrow> u32 \<Rightarrow> hdma_regs" where
  "hdma_regs_rd cfg_base channel =
     \<lparr>r_en = HDMA_EN_OFF_RDCH cfg_base channel,
      r_doorbell = HDMA_DOORBELL_OFF_RDCH cfg_base channel,
      r_elem_pf = HDMA_ELEM_PF_OFF_RDCH cfg_base channel,
      r_llp_low = HDMA_LLP_LOW_OFF_RDCH cfg_base channel,
      r_llp_high = HDMA_LLP_HIGH_OFF_RDCH cfg_base channel,
      r_cycle_off = HDMA_CYCLE_OFF_RDCH cfg_base channel,
      r_xfer_size = HDMA_XFERSIZE_OFF_RDCH cfg_base channel,
      r_sar_low = HDMA_SAR_LOW_OFF_RDCH cfg_base channel,
      r_sar_high = HDMA_SAR_HIGH_OFF_RDCH cfg_base channel,
      r_dar_low = HDMA_DAR_LOW_OFF_RDCH cfg_base channel,
      r_dar_high = HDMA_DAR_HIGH_OFF_RDCH cfg_base channel,
      r_watermark = HDMA_WATERMARK_OFF_RDCH cfg_base channel,
      r_control1 = HDMA_CONTROL1_OFF_RDCH cfg_base channel,
      r_func_num = HDMA_FUNC_NUM_OFF_RDCH cfg_base channel,
      r_qos = HDMA_QOS_OFF_RDCH cfg_base channel,
      r_status = HDMA_STATUS_OFF_RDCH cfg_base channel,
      r_int_status = HDMA_INT_STATUS_OFF_RDCH cfg_base channel,
      r_int_setup = HDMA_INT_SETUP_OFF_RDCH cfg_base channel,
      r_int_clear = HDMA_INT_CLEAR_OFF_RDCH cfg_base channel,
      r_msi_stop_low = HDMA_MSI_STOP_LOW_OFF_RDCH cfg_base channel,
      r_msi_stop_high = HDMA_MSI_STOP_HIGH_OFF_RDCH cfg_base channel,
      r_msi_watermark_low = HDMA_MSI_WATERMARK_LOW_OFF_RDCH cfg_base channel,
      r_msi_watermark_high = HDMA_MSI_WATERMARK_HIGH_OFF_RDCH cfg_base channel,
      r_msi_abort_low = HDMA_MSI_ABORT_LOW_OFF_RDCH cfg_base channel,
      r_msi_abort_high = HDMA_MSI_ABORT_HIGH_OFF_RDCH cfg_base channel,
      r_msi_msgd = HDMA_MSI_MSGD_OFF_RDCH cfg_base channel\<rparr>"

fun reg_sel :: "hdma_reg \<Rightarrow> hdma_regs \<Rightarrow> u64" where
  "reg_sel EN c = r_en c"
| "reg_sel DOORBELL c = r_doorbell c"
| "reg_sel ELEM_PF c = r_elem_pf c"
| "reg_sel LLP_LOW c = r_llp_low c"
| "reg_sel LLP_HIGH c = r_llp_high c"
| "reg_sel CYCLE c = r_cycle_off c"
| "reg_sel XFERSIZE c = r_xfer_size c"
| "reg_sel SAR_LOW c = r_sar_low c"
| "reg_sel SAR_HIGH c = r_sar_high c"
| "reg_sel DAR_LOW c = r_dar_low c"
| "reg_sel DAR_HIGH c = r_dar_high c"
| "reg_sel WATERMARK c = r_watermark c"
| "reg_sel CONTROL1 c = r_control1 c"
| "reg_sel FUNC_NUM c = r_func_num c"
| "reg_sel QOS c = r_qos c"
| "reg_sel STATUS c = r_status c"
| "reg_sel INT_STATUS c = r_int_status c"
| "reg_sel INT_SETUP c = r_int_setup c"
| "reg_sel INT_CLEAR c = r_int_clear c"
| "reg_sel MSI_STOP_LOW c = r_msi_stop_low c"
| "reg_sel MSI_STOP_HIGH c = r_msi_stop_high c"
| "reg_sel MSI_WATERMARK_LOW c = r_msi_watermark_low c"
| "reg_sel MSI_WATERMARK_HIGH c = r_msi_watermark_high c"
| "reg_sel MSI_ABORT_LOW c = r_msi_abort_low c"
| "reg_sel MSI_ABORT_HIGH c = r_msi_abort_high c"
| "reg_sel MSI_MSGD c = r_msi_msgd c"

lemma ucast_channel_product:
  assumes "unat (n :: u32) < 16"
  shows "(ucast (n * 0x800) :: u64) = of_nat (unat n * 0x800)"
proof -
  have "unat (n * 0x800) = unat n * 0x800"
    using assms by (subst unat_mult_lem [THEN iffD1]) simp_all
  moreover have "(ucast (n * 0x800) :: u64) = of_nat (unat (n * 0x800))" by simp
  ultimately show ?thesis by metis
qed

lemma hdma_reg_at_eq:
  assumes "unat n < 16"
  shows "hdma_reg_at b n r = b + of_nat (unat n * 0x800 + hdma_off r)"
  by (cases "(b, n, r)" rule: hdma_reg_at.cases)
    (simp_all add: hdma_macro_defs ucast_channel_product [OF assms])

lemma hdma_off_less: "hdma_off r < 0x800"
  by (cases r rule: hdma_off.cases) (auto split: hdma_rw.split hdma_reg.split)

lemma hdma_off_inj_aux: "hdma_off (d, r) = hdma_off (e, q) \<Longrightarrow> d = e \<and> r = q"
  by (cases d; cases e; cases r; simp; cases q; simp)

lemma hdma_off_inj: "hdma_off r = hdma_off q \<longleftrightarrow> r = q"
  by (cases r; cases q) (auto dest: hdma_off_inj_aux simp del: hdma_off.simps)

lemma hdma_off_aligned: "4 dvd hdma_off r"
  by (cases r rule: hdma_off.cases) (auto split: hdma_rw.split hdma_reg.split)

interpretation hdma: register_bank hdma_reg_at unat hdma_off "0x800" 16
  by unfold_locales
    (simp_all add: hdma_reg_at_eq unat_word_eq_iff hdma_off_less hdma_off_inj hdma_off_aligned)

text \<open>A channel's context as \<open>hdma_init\<close> fills it, and its registers in the map.\<close>

definition rw_of :: "u32 \<Rightarrow> hdma_rw" where
  "rw_of rw_type = (if rw_type = 1 then WrCh else RdCh)"

definition hdma_regs_of :: "u64 \<Rightarrow> u32 \<Rightarrow> u32 \<Rightarrow> hdma_regs" where
  "hdma_regs_of cfg_base channel rw_type =
     (if rw_type = 1 then hdma_regs_wr cfg_base channel else hdma_regs_rd cfg_base channel)"

lemma reg_sel_regs_of: "reg_sel r (hdma_regs_of b n t) = hdma_reg_at b n (rw_of t, r)"
  by (cases r) (simp_all add: hdma_regs_of_def hdma_regs_wr_def hdma_regs_rd_def rw_of_def)

end
