(* ===== verification/Hdma_Ops.thy ===== *)
theory Hdma_Ops
  imports Hdma_Regs
begin

text \<open>
  The HDMA channel operations (\<open>hdma.c\<close> but for the descriptors): the software lock flag,
  creation of a channel context, the register sequences that program, start, stop and
  acknowledge a channel. The operations that only access registers share the contract
  \<open>channel_op\<close>: they write the registers of their own channel and nothing else.
\<close>

section \<open>The channel's lock flag\<close>

definition hdma_lock :: "hdma_context \<Rightarrow> hist \<Rightarrow> int \<times> hdma_context \<times> hist" where
  "hdma_lock ctx h =
     (let h = spin_lock (hc_lock ctx) h in
      if hc_flag ctx = 1 then (-1, ctx, spin_unlock (hc_lock ctx) h)
      else let ctx = ctx\<lparr>hc_flag := 1\<rparr> in (0, ctx, spin_unlock (hc_lock ctx) h))"

definition hdma_unlock :: "hdma_context \<Rightarrow> hist \<Rightarrow> int \<times> hdma_context \<times> hist" where
  "hdma_unlock ctx h =
     (let h = spin_lock (hc_lock ctx) h; ctx = ctx\<lparr>hc_flag := 0\<rparr>
      in (0, ctx, spin_unlock (hc_lock ctx) h))"

definition hdma_islocking :: "hdma_context \<Rightarrow> int" where
  "hdma_islocking ctx = sint (hc_flag ctx)"

section \<open>Creating and freeing a channel\<close>

definition IRAM_BASE_SOC_ADDR :: u32 where
  "IRAM_BASE_SOC_ADDR = 0x48000000"

definition HDMA_DESC_SOC_OFFSET_ADDR :: u32 where
  "HDMA_DESC_SOC_OFFSET_ADDR = 0x10000"

text \<open>
  The out parameter is the slot the context pointer is stored in: \<open>None\<close> is a NULL slot,
  \<open>Some c\<close> a slot that holds \<open>c\<close>. The lock and the wait queue are embedded in the
  context, so its address identifies them.
\<close>

definition hdma_init ::
  "'a kenv_scheme \<Rightarrow> hdma_context option option \<Rightarrow> eon_device \<Rightarrow> u32 \<Rightarrow> u64 \<Rightarrow> u32 \<Rightarrow> hist \<Rightarrow>
   int \<times> hdma_context option option \<times> hist" where
  "hdma_init env ctx dpu_dev channel cfg_base rw_type h =
     (case ctx of None \<Rightarrow> (- EPERM, None, h)
      | Some old \<Rightarrow>
        let (p, h) = kmalloc env (k_sizeof env ''struct hdma_context'') h in
        if p = 0 then (- EPERM, Some old, h)
        else
          let tmp_ctx =
            \<lparr>hc_ptr = p,
             hc_id = ucast channel,
             hc_ctx = (if rw_type = 1 then hdma_regs_wr cfg_base channel
                       else hdma_regs_rd cfg_base channel),
             hc_dpu_dev = dev_ptr dpu_dev,
             hc_lock = p,
             hc_wq = p,
             hc_state = TRANSFER_STATE_IDLE,
             hc_type = rw_type,
             hc_flag = 0,
             hc_desc_buf =
               \<lparr>phy_addr = paddr (bar dpu_dev DESC_BAR) + ucast HDMA_DESC_SOC_OFFSET_ADDR
                  + ucast (channel * 0x1000),
                virt_addr = vaddr (bar dpu_dev DESC_BAR) + ucast HDMA_DESC_SOC_OFFSET_ADDR
                  + ucast (channel * 0x1000),
                start_pointer_addr = ucast (IRAM_BASE_SOC_ADDR + HDMA_DESC_SOC_OFFSET_ADDR
                  + channel * 0x1000),
                buf_size = 0x1000,
                buf_flag = 0\<rparr>\<rparr>
          in (0, Some (Some tmp_ctx), h))"

definition hdma_exit :: "hdma_context \<Rightarrow> hist \<Rightarrow> int \<times> hist" where
  "hdma_exit ctx h = (0, kfree (hc_ptr ctx) h)"

section \<open>Programming a channel\<close>

definition hdma_enable :: "eon_device \<Rightarrow> hdma_context \<Rightarrow> hist \<Rightarrow> hist" where
  "hdma_enable dev ctx h = hdma_writel (hdma_base (base_addr dev)) 1 (r_en (hc_ctx ctx)) h"

definition hdma_disable :: "eon_device \<Rightarrow> hdma_context \<Rightarrow> hist \<Rightarrow> hist" where
  "hdma_disable dev ctx h = hdma_writel (hdma_base (base_addr dev)) 0 (r_en (hc_ctx ctx)) h"

definition hdma_start_transfer :: "eon_device \<Rightarrow> hdma_context \<Rightarrow> u32 \<Rightarrow> hist \<Rightarrow> int \<times> hist" where
  "hdma_start_transfer dev ctx bound h =
     (0, hdma_writel (hdma_base (base_addr dev)) (push_bit 0 1) (r_doorbell (hc_ctx ctx)) h)"

definition hdma_terminal_transfer :: "eon_device \<Rightarrow> hdma_context \<Rightarrow> hist \<Rightarrow> int \<times> hist" where
  "hdma_terminal_transfer dev ctx h =
     (0, hdma_writel (hdma_base (base_addr dev)) (push_bit 1 1) (r_doorbell (hc_ctx ctx)) h)"

definition hdma_set_desc_pointer ::
  "eon_device \<Rightarrow> hdma_context \<Rightarrow> u64 \<Rightarrow> hist \<Rightarrow> int \<times> hist" where
  "hdma_set_desc_pointer dev ctx addr h =
     (let hb = hdma_base (base_addr dev);
          h = hdma_writel hb (ucast (addr AND BIT32_MASK)) (r_llp_low (hc_ctx ctx)) h;
          h = hdma_writel hb (ucast (drop_bit 32 addr AND BIT32_MASK)) (r_llp_high (hc_ctx ctx)) h
      in (0, h))"

definition hdma_set_attr ::
  "eon_device \<Rightarrow> hdma_context \<Rightarrow> u32 \<Rightarrow> u32 \<Rightarrow> u32 \<Rightarrow> hist \<Rightarrow> int \<times> hist" where
  "hdma_set_attr dev ctx control1 pf cycle_off h =
     (let hb = hdma_base (base_addr dev);
          h = hdma_writel hb pf (r_elem_pf (hc_ctx ctx)) h;
          h = hdma_writel hb cycle_off (r_cycle_off (hc_ctx ctx)) h;
          h = hdma_writel hb control1 (r_control1 (hc_ctx ctx)) h
      in (0, h))"

text \<open>
  The read back of \<open>xfer_size\<close> is an argument of \<open>dpu_dbg\<close>, evaluated only when dynamic
  debugging is switched on.
\<close>

definition set_xfer_data ::
  "'a kenv_scheme \<Rightarrow> eon_device \<Rightarrow> hdma_context \<Rightarrow> u32 \<Rightarrow> u64 \<Rightarrow> u64 \<Rightarrow> hist \<Rightarrow> hist" where
  "set_xfer_data env dev ctx xfer_size src des h =
     (let hb = hdma_base (base_addr dev);
          h = hdma_writel hb xfer_size (r_xfer_size (hc_ctx ctx)) h;
          h = (if dyn_debug env then snd (eon_readl env (r_xfer_size (hc_ctx ctx)) h) else h);
          h = hdma_writel hb (ucast (src AND BIT32_MASK)) (r_sar_low (hc_ctx ctx)) h;
          h = hdma_writel hb (ucast (drop_bit 32 src AND BIT32_MASK)) (r_sar_high (hc_ctx ctx)) h;
          h = hdma_writel hb (ucast (des AND BIT32_MASK)) (r_dar_low (hc_ctx ctx)) h
      in hdma_writel hb (ucast (drop_bit 32 des AND BIT32_MASK)) (r_dar_high (hc_ctx ctx)) h)"

section \<open>Interrupt status and message signalled interrupts\<close>

definition hdma_get_intr_status :: "'a kenv_scheme \<Rightarrow> hdma_context \<Rightarrow> hist \<Rightarrow> u32 \<times> hist" where
  "hdma_get_intr_status env ctx h =
     (let (_, h) = eon_readl env (r_status (hc_ctx ctx)) h
      in eon_readl env (r_int_status (hc_ctx ctx)) h)"

definition hdma_clear_intr_status :: "hdma_context \<Rightarrow> u32 \<Rightarrow> hist \<Rightarrow> hist" where
  "hdma_clear_intr_status ctx val h =
     (if val = 0 then eon_writel 7 (r_int_clear (hc_ctx ctx)) h
      else eon_writel val (r_int_clear (hc_ctx ctx)) h)"

definition hdma_msi_interrupt ::
  "eon_device \<Rightarrow> hdma_context \<Rightarrow> u32 \<Rightarrow> u32 \<Rightarrow> u16 \<Rightarrow> hist \<Rightarrow> hist" where
  "hdma_msi_interrupt dev ctx addr_h addr_l data h =
     (let hb = hdma_base (base_addr dev);
          h = hdma_writel hb addr_l (r_msi_stop_low (hc_ctx ctx)) h;
          h = hdma_writel hb addr_h (r_msi_stop_high (hc_ctx ctx)) h;
          h = hdma_writel hb addr_l (r_msi_abort_low (hc_ctx ctx)) h;
          h = hdma_writel hb addr_h (r_msi_abort_high (hc_ctx ctx)) h;
          h = hdma_writel hb addr_l (r_msi_watermark_low (hc_ctx ctx)) h;
          h = hdma_writel hb addr_h (r_msi_watermark_high (hc_ctx ctx)) h
      in hdma_writel hb (ucast data) (r_msi_msgd (hc_ctx ctx)) h)"

definition hdma_enable_intr :: "eon_device \<Rightarrow> hdma_context \<Rightarrow> u32 \<Rightarrow> hist \<Rightarrow> int \<times> hist" where
  "hdma_enable_intr dev ctx msk h =
     (let status = msk;
          status = (if status = 0
                    then status OR push_bit 6 1 OR push_bit 5 1 OR push_bit 4 1 OR push_bit 3 1
                         OR push_bit 2 1 OR push_bit 1 1 OR push_bit 0 1
                    else status)
      in (0, hdma_writel (hdma_base (base_addr dev)) status (r_int_setup (hc_ctx ctx)) h))"

definition hdma_disable_intr :: "hdma_context \<Rightarrow> hist \<Rightarrow> int \<times> hist" where
  "hdma_disable_intr ctx h = (let status = 0 in (0, eon_writel status (r_int_setup (hc_ctx ctx)) h))"

lemmas hdma_op_defs = hdma_enable_def hdma_disable_def hdma_start_transfer_def
  hdma_terminal_transfer_def hdma_set_desc_pointer_def hdma_set_attr_def set_xfer_data_def
  hdma_get_intr_status_def hdma_clear_intr_status_def hdma_msi_interrupt_def
  hdma_enable_intr_def hdma_disable_intr_def

section \<open>The contract of the register operations\<close>

definition chan_addrs :: "hdma_context \<Rightarrow> u64 set" where
  "chan_addrs ctx = (\<lambda>r. reg_sel r (hc_ctx ctx)) ` UNIV"

lemma chan_reg_mem: "reg_sel r (hc_ctx ctx) \<in> chan_addrs ctx"
  by (simp add: chan_addrs_def)

lemmas chan_addrs_mem [simp, intro] =
  chan_reg_mem [of EN, unfolded reg_sel.simps]
  chan_reg_mem [of DOORBELL, unfolded reg_sel.simps]
  chan_reg_mem [of ELEM_PF, unfolded reg_sel.simps]
  chan_reg_mem [of LLP_LOW, unfolded reg_sel.simps]
  chan_reg_mem [of LLP_HIGH, unfolded reg_sel.simps]
  chan_reg_mem [of CYCLE, unfolded reg_sel.simps]
  chan_reg_mem [of XFERSIZE, unfolded reg_sel.simps]
  chan_reg_mem [of SAR_LOW, unfolded reg_sel.simps]
  chan_reg_mem [of SAR_HIGH, unfolded reg_sel.simps]
  chan_reg_mem [of DAR_LOW, unfolded reg_sel.simps]
  chan_reg_mem [of DAR_HIGH, unfolded reg_sel.simps]
  chan_reg_mem [of WATERMARK, unfolded reg_sel.simps]
  chan_reg_mem [of CONTROL1, unfolded reg_sel.simps]
  chan_reg_mem [of FUNC_NUM, unfolded reg_sel.simps]
  chan_reg_mem [of QOS, unfolded reg_sel.simps]
  chan_reg_mem [of STATUS, unfolded reg_sel.simps]
  chan_reg_mem [of INT_STATUS, unfolded reg_sel.simps]
  chan_reg_mem [of INT_SETUP, unfolded reg_sel.simps]
  chan_reg_mem [of INT_CLEAR, unfolded reg_sel.simps]
  chan_reg_mem [of MSI_STOP_LOW, unfolded reg_sel.simps]
  chan_reg_mem [of MSI_STOP_HIGH, unfolded reg_sel.simps]
  chan_reg_mem [of MSI_WATERMARK_LOW, unfolded reg_sel.simps]
  chan_reg_mem [of MSI_WATERMARK_HIGH, unfolded reg_sel.simps]
  chan_reg_mem [of MSI_ABORT_LOW, unfolded reg_sel.simps]
  chan_reg_mem [of MSI_ABORT_HIGH, unfolded reg_sel.simps]
  chan_reg_mem [of MSI_MSGD, unfolded reg_sel.simps]

text \<open>
  A context is channel \<open>n\<close> of direction \<open>t\<close> of the engine at \<open>b\<close> when it holds the addresses
  \<open>hdma_init\<close> gives it.
\<close>

definition is_channel :: "u64 \<Rightarrow> u32 \<Rightarrow> u32 \<Rightarrow> hdma_context \<Rightarrow> bool" where
  "is_channel b n t ctx \<longleftrightarrow> unat n < 16 \<and> hc_ctx ctx = hdma_regs_of b n t"

lemma chan_addrs_channel:
  "is_channel b n t ctx \<Longrightarrow> chan_addrs ctx = (\<lambda>r. hdma_reg_at b n (rw_of t, r)) ` UNIV"
  by (simp add: chan_addrs_def is_channel_def reg_sel_regs_of)

locale channel_op =
  fixes op :: "hdma_context \<Rightarrow> hist \<Rightarrow> hist"
  assumes op_accesses: "accesses (chan_addrs ctx) h (op ctx h)"
begin

lemma op_frame_other:
  assumes "is_channel b n t ctx" and "unat m < 16" and "m \<noteq> n \<or> d \<noteq> rw_of t"
  shows "last_write (hdma_reg_at b m (d, r)) (op ctx h) = last_write (hdma_reg_at b m (d, r)) h"
proof (rule accesses_last_write [OF op_accesses])
  show "hdma_reg_at b m (d, r) \<notin> chan_addrs ctx"
    using assms by (auto simp: chan_addrs_channel hdma.reg_eq_iff is_channel_def)
qed

lemma op_in_block:
  assumes "is_channel b n t ctx" and "a \<in> chan_addrs ctx"
  shows "unat (a - b) < 0x8000"
  using assms hdma.reg_in_block [of n b] by (auto simp: chan_addrs_channel is_channel_def)

lemma op_frame_outside:
  assumes "is_channel b n t ctx" and "0x8000 \<le> unat (a - b)"
  shows "last_write a (op ctx h) = last_write a h"
  using assms op_in_block by (intro accesses_last_write [OF op_accesses]) fastforce

lemma op_frame_kernel:
  "held (op ctx h) = held h" "locks (op ctx h) = locks h"
  "no_bad_release (op ctx h) = no_bad_release h"
  "sleeps_in_atomic (op ctx h) = sleeps_in_atomic h"
  by (rule accesses_frame [OF op_accesses])+

end

interpretation op_enable: channel_op "hdma_enable dev"
  by unfold_locales (simp add: hdma_op_defs access_defs)

interpretation op_disable: channel_op "hdma_disable dev"
  by unfold_locales (simp add: hdma_op_defs access_defs)

interpretation op_start: channel_op "\<lambda>ctx h. snd (hdma_start_transfer dev ctx bound h)"
  by unfold_locales (simp add: hdma_op_defs access_defs)

interpretation op_terminal: channel_op "\<lambda>ctx h. snd (hdma_terminal_transfer dev ctx h)"
  by unfold_locales (simp add: hdma_op_defs access_defs)

interpretation op_desc_pointer: channel_op "\<lambda>ctx h. snd (hdma_set_desc_pointer dev ctx addr h)"
  by unfold_locales (simp add: hdma_op_defs access_defs Let_def)

interpretation op_attr: channel_op "\<lambda>ctx h. snd (hdma_set_attr dev ctx control1 pf cyc h)"
  by unfold_locales (simp add: hdma_op_defs access_defs Let_def)

interpretation op_xfer: channel_op "\<lambda>ctx h. set_xfer_data env dev ctx n src des h"
  by unfold_locales (simp add: hdma_op_defs access_defs Let_def)

interpretation op_get_status: channel_op "\<lambda>ctx h. snd (hdma_get_intr_status env ctx h)"
  by unfold_locales (simp add: hdma_op_defs access_defs Let_def)

interpretation op_clear: channel_op "\<lambda>ctx h. hdma_clear_intr_status ctx val h"
  by unfold_locales (simp add: hdma_op_defs access_defs)

interpretation op_msi: channel_op "\<lambda>ctx h. hdma_msi_interrupt dev ctx ah al md h"
  by unfold_locales (simp add: hdma_op_defs access_defs Let_def)

interpretation op_enable_intr: channel_op "\<lambda>ctx h. snd (hdma_enable_intr dev ctx msk h)"
  by unfold_locales (simp add: hdma_op_defs access_defs Let_def)

interpretation op_disable_intr: channel_op "\<lambda>ctx h. snd (hdma_disable_intr ctx h)"
  by unfold_locales (simp add: hdma_op_defs access_defs Let_def)

section \<open>Sequences of commands\<close>

text \<open>Everything the driver can do to a channel's registers, as one command type.\<close>

datatype chan_cmd =
    Cmd_enable
  | Cmd_disable
  | Cmd_start
  | Cmd_terminate
  | Cmd_desc_pointer u64
  | Cmd_attr u32 u32 u32
  | Cmd_xfer u32 u64 u64
  | Cmd_status
  | Cmd_clear u32
  | Cmd_msi u32 u32 u16
  | Cmd_enable_intr u32
  | Cmd_disable_intr

fun run_cmd :: "'a kenv_scheme \<Rightarrow> eon_device \<Rightarrow> hdma_context \<Rightarrow> chan_cmd \<Rightarrow> hist \<Rightarrow> hist" where
  "run_cmd env dev ctx Cmd_enable h = hdma_enable dev ctx h"
| "run_cmd env dev ctx Cmd_disable h = hdma_disable dev ctx h"
| "run_cmd env dev ctx Cmd_start h = snd (hdma_start_transfer dev ctx 0 h)"
| "run_cmd env dev ctx Cmd_terminate h = snd (hdma_terminal_transfer dev ctx h)"
| "run_cmd env dev ctx (Cmd_desc_pointer a) h = snd (hdma_set_desc_pointer dev ctx a h)"
| "run_cmd env dev ctx (Cmd_attr c p y) h = snd (hdma_set_attr dev ctx c p y h)"
| "run_cmd env dev ctx (Cmd_xfer n s d) h = set_xfer_data env dev ctx n s d h"
| "run_cmd env dev ctx Cmd_status h = snd (hdma_get_intr_status env ctx h)"
| "run_cmd env dev ctx (Cmd_clear v) h = hdma_clear_intr_status ctx v h"
| "run_cmd env dev ctx (Cmd_msi ah al md) h = hdma_msi_interrupt dev ctx ah al md h"
| "run_cmd env dev ctx (Cmd_enable_intr m) h = snd (hdma_enable_intr dev ctx m h)"
| "run_cmd env dev ctx Cmd_disable_intr h = snd (hdma_disable_intr ctx h)"

definition run_cmds :: "'a kenv_scheme \<Rightarrow> eon_device \<Rightarrow> chan_cmd list \<Rightarrow> hdma_context \<Rightarrow> hist \<Rightarrow> hist" where
  "run_cmds env dev cs ctx h = fold (run_cmd env dev ctx) cs h"

lemma run_cmd_accesses: "accesses (chan_addrs ctx) h (run_cmd env dev ctx c h)"
  by (cases c)
    (simp_all add: op_enable.op_accesses op_disable.op_accesses op_start.op_accesses
      op_terminal.op_accesses op_desc_pointer.op_accesses op_attr.op_accesses op_xfer.op_accesses
      op_get_status.op_accesses op_clear.op_accesses op_msi.op_accesses
      op_enable_intr.op_accesses op_disable_intr.op_accesses)

lemma run_cmds_accesses: "accesses (chan_addrs ctx) h (run_cmds env dev cs ctx h)"
  unfolding run_cmds_def
proof (induction cs arbitrary: h)
  case (Cons c cs)
  show ?case using accesses_trans [OF Cons.IH run_cmd_accesses] by simp
qed simp

interpretation cmds: channel_op "run_cmds env dev cs"
  by unfold_locales (rule run_cmds_accesses)

section \<open>What a channel's registers hold\<close>

definition reg_val :: "hdma_context \<Rightarrow> hdma_reg \<Rightarrow> hist \<Rightarrow> u32 option" where
  "reg_val ctx r h = last_write (reg_sel r (hc_ctx ctx)) h"

text \<open>A 64-bit register pair, once both halves are written.\<close>

definition pair_val :: "hdma_context \<Rightarrow> hdma_reg \<Rightarrow> hdma_reg \<Rightarrow> hist \<Rightarrow> u64 option" where
  "pair_val ctx hi lo h =
     (case (reg_val ctx hi h, reg_val ctx lo h) of
        (Some u, Some l) \<Rightarrow> Some (join64 u l) | _ \<Rightarrow> None)"

lemma reg_sel_inj:
  assumes "is_channel b n t ctx"
  shows "reg_sel r (hc_ctx ctx) = reg_sel q (hc_ctx ctx) \<longleftrightarrow> r = q"
  using assms by (simp add: is_channel_def reg_sel_regs_of hdma.reg_eq_iff)

lemma reg_val_write:
  assumes "is_channel b n t ctx"
  shows "reg_val ctx r (Ev_write32 (reg_sel q (hc_ctx ctx)) d # h) =
    (if r = q then Some d else reg_val ctx r h)"
  by (simp add: reg_val_def reg_sel_inj [OF assms])

lemma reg_val_other [simp]:
  "reg_val ctx r (Ev_read32 a d # h) = reg_val ctx r h" "reg_val ctx r (Ev_mb # h) = reg_val ctx r h"
  by (simp_all add: reg_val_def)

lemmas reg_val_writes = reg_val_write [of _ _ _ _ _ EN, unfolded reg_sel.simps]
  reg_val_write [of _ _ _ _ _ DOORBELL, unfolded reg_sel.simps]
  reg_val_write [of _ _ _ _ _ ELEM_PF, unfolded reg_sel.simps]
  reg_val_write [of _ _ _ _ _ LLP_LOW, unfolded reg_sel.simps]
  reg_val_write [of _ _ _ _ _ LLP_HIGH, unfolded reg_sel.simps]
  reg_val_write [of _ _ _ _ _ CYCLE, unfolded reg_sel.simps]
  reg_val_write [of _ _ _ _ _ XFERSIZE, unfolded reg_sel.simps]
  reg_val_write [of _ _ _ _ _ SAR_LOW, unfolded reg_sel.simps]
  reg_val_write [of _ _ _ _ _ SAR_HIGH, unfolded reg_sel.simps]
  reg_val_write [of _ _ _ _ _ DAR_LOW, unfolded reg_sel.simps]
  reg_val_write [of _ _ _ _ _ DAR_HIGH, unfolded reg_sel.simps]
  reg_val_write [of _ _ _ _ _ CONTROL1, unfolded reg_sel.simps]
  reg_val_write [of _ _ _ _ _ INT_SETUP, unfolded reg_sel.simps]
  reg_val_write [of _ _ _ _ _ INT_CLEAR, unfolded reg_sel.simps]
  reg_val_write [of _ _ _ _ _ MSI_STOP_LOW, unfolded reg_sel.simps]
  reg_val_write [of _ _ _ _ _ MSI_STOP_HIGH, unfolded reg_sel.simps]
  reg_val_write [of _ _ _ _ _ MSI_WATERMARK_LOW, unfolded reg_sel.simps]
  reg_val_write [of _ _ _ _ _ MSI_WATERMARK_HIGH, unfolded reg_sel.simps]
  reg_val_write [of _ _ _ _ _ MSI_ABORT_LOW, unfolded reg_sel.simps]
  reg_val_write [of _ _ _ _ _ MSI_ABORT_HIGH, unfolded reg_sel.simps]
  reg_val_write [of _ _ _ _ _ MSI_MSGD, unfolded reg_sel.simps]

lemmas reg_effects = hdma_op_defs access_defs Let_def fold_halves reg_val_writes pair_val_def

lemma set_xfer_data_regs:
  assumes "is_channel b n t ctx"
  shows "pair_val ctx SAR_HIGH SAR_LOW (set_xfer_data env dev ctx k src des h) = Some src"
    "pair_val ctx DAR_HIGH DAR_LOW (set_xfer_data env dev ctx k src des h) = Some des"
    "reg_val ctx XFERSIZE (set_xfer_data env dev ctx k src des h) = Some k"
    "r \<notin> {SAR_HIGH, SAR_LOW, DAR_HIGH, DAR_LOW, XFERSIZE} \<Longrightarrow>
      reg_val ctx r (set_xfer_data env dev ctx k src des h) = reg_val ctx r h"
  using assms by (simp_all add: reg_effects)

lemma hdma_set_attr_regs:
  assumes "is_channel b n t ctx"
  shows "reg_val ctx r (snd (hdma_set_attr dev ctx c p y h)) =
    (case r of CONTROL1 \<Rightarrow> Some c | ELEM_PF \<Rightarrow> Some p | CYCLE \<Rightarrow> Some y | _ \<Rightarrow> reg_val ctx r h)"
  using assms by (cases r) (simp_all add: reg_effects)

lemma hdma_enable_intr_regs:
  assumes "is_channel b n t ctx"
  shows "reg_val ctx r (snd (hdma_enable_intr dev ctx m h)) =
    (if r = INT_SETUP then Some (if m = 0 then 0x7f else m) else reg_val ctx r h)"
  using assms by (simp add: reg_effects)

lemma hdma_set_desc_pointer_regs:
  assumes "is_channel b n t ctx"
  shows "pair_val ctx LLP_HIGH LLP_LOW (snd (hdma_set_desc_pointer dev ctx a h)) = Some a"
    "r \<notin> {LLP_HIGH, LLP_LOW} \<Longrightarrow>
      reg_val ctx r (snd (hdma_set_desc_pointer dev ctx a h)) = reg_val ctx r h"
  using assms by (simp_all add: reg_effects)

lemma hdma_start_transfer_regs:
  assumes "is_channel b n t ctx"
  shows "reg_val ctx r (snd (hdma_start_transfer dev ctx x h)) =
    (if r = DOORBELL then Some 1 else reg_val ctx r h)"
  using assms by (simp add: reg_effects)

lemma pair_val_start:
  assumes "is_channel b n t ctx" and "u \<noteq> DOORBELL" and "l \<noteq> DOORBELL"
  shows "pair_val ctx u l (snd (hdma_start_transfer dev ctx x h)) = pair_val ctx u l h"
  using assms(2,3) by (simp add: pair_val_def hdma_start_transfer_regs [OF assms(1)])

lemma hdma_msi_interrupt_regs:
  assumes "is_channel b n t ctx"
  shows "pair_val ctx MSI_STOP_HIGH MSI_STOP_LOW (hdma_msi_interrupt dev ctx ah al md h) = Some (join64 ah al)"
    "pair_val ctx MSI_ABORT_HIGH MSI_ABORT_LOW (hdma_msi_interrupt dev ctx ah al md h) = Some (join64 ah al)"
    "pair_val ctx MSI_WATERMARK_HIGH MSI_WATERMARK_LOW (hdma_msi_interrupt dev ctx ah al md h) = Some (join64 ah al)"
    "reg_val ctx MSI_MSGD (hdma_msi_interrupt dev ctx ah al md h) = Some (ucast md)"
    "reg_val ctx EN (hdma_msi_interrupt dev ctx ah al md h) = reg_val ctx EN h"
  using assms by (simp_all add: reg_effects)

lemma hdma_enable_regs:
  assumes "is_channel b n t ctx"
  shows "reg_val ctx r (hdma_enable dev ctx h) = (if r = EN then Some 1 else reg_val ctx r h)"
  using assms by (simp add: reg_effects)

lemma hdma_clear_regs:
  assumes "is_channel b n t ctx"
  shows "reg_val ctx r (hdma_clear_intr_status ctx v h) =
    (if r = INT_CLEAR then Some (if v = 0 then 7 else v) else reg_val ctx r h)"
  using assms by (simp add: reg_effects)

section \<open>The lock flag under contention\<close>

text \<open>
  Threads take and give back a channel with \<open>hdma_lock\<close> and \<open>hdma_unlock\<close>; only a thread that
  got the channel unlocks it. A state is the context, the threads that got the channel, the
  history.
\<close>

inductive lock_step ::
  "hdma_context \<times> nat set \<times> hist \<Rightarrow> hdma_context \<times> nat set \<times> hist \<Rightarrow> bool" where
  step_lock: "hdma_lock c h = (r, c', h') \<Longrightarrow>
    lock_step (c, W, h) (c', if r = 0 then insert i W else W, h')"
| step_unlock: "i \<in> W \<Longrightarrow> hdma_unlock c h = (r, c', h') \<Longrightarrow> lock_step (c, W, h) (c', W - {i}, h')"

inductive_cases lock_stepE: "lock_step (c, W, h) s"

definition lock_inv :: "lock_id multiset \<Rightarrow> hdma_context \<times> nat set \<times> hist \<Rightarrow> bool" where
  "lock_inv L s = (case s of (c, W, h) \<Rightarrow>
     locks h = L \<and> (W = {} \<and> hc_flag c = 0 \<or> (\<exists>i. W = {i} \<and> hc_flag c = 1)))"

lemma lock_inv_step:
  assumes "lock_step s s'" and "lock_inv L s"
  shows "lock_inv L s'"
  using assms
  by (cases rule: lock_step.cases)
    (auto simp: lock_inv_def hdma_lock_def hdma_unlock_def kernel_defs Let_def split: if_splits)

section \<open>Properties\<close>

definition demo_channel :: hdma_context where
  "demo_channel =
     \<lparr>hc_ptr = 0x1000, hc_id = 3, hc_ctx = hdma_regs_of 0x8000001000 3 0, hc_dpu_dev = 0x9000,
      hc_lock = 0x1000, hc_wq = 0x1000, hc_state = TRANSFER_STATE_IDLE, hc_type = 0, hc_flag = 0,
      hc_desc_buf = \<lparr>phy_addr = 0, virt_addr = 0, start_pointer_addr = 0, buf_size = 0x1000, buf_flag = 0\<rparr>\<rparr>"

definition demo_kenv :: kenv where
  "demo_kenv = \<lparr>mmio_read32 = (\<lambda>_ _. 7), mmio_read16 = (\<lambda>_ _. 9), dyn_debug = True,
     k_alloc = (\<lambda>_ _. 0x1000), k_call = (\<lambda>_ _. 0), k_sizeof = (\<lambda>_. 32)\<rparr>"

lemma demo_is_channel: "is_channel 0x8000001000 3 0 demo_channel"
  by (simp add: is_channel_def demo_channel_def)

text \<open>
  C18: the register map of the engine. The register addresses \<open>hdma_init\<close> stores for the 16 write
  and 16 read channels are pairwise different, word aligned, and inside the 32 KB block at the
  engine's base.
\<close>

theorem hdma_registers_apart:
  assumes "unat n < 16" and "unat m < 16"
  shows "(reg_sel r (hdma_regs_of b n t) = reg_sel q (hdma_regs_of b m u) \<longleftrightarrow>
      n = m \<and> (t = 1 \<longleftrightarrow> u = 1) \<and> r = q) \<and>
    unat (reg_sel r (hdma_regs_of b n t) - b) < 0x8000 \<and>
    4 dvd unat (reg_sel r (hdma_regs_of b n t) - b)"
  using assms hdma.reg_in_block [of n b "(rw_of t, r)"] hdma.reg_word_aligned [of n b "(rw_of t, r)"]
  by (simp add: reg_sel_regs_of hdma.reg_eq_iff rw_of_def)

theorem hdma_registers_apart_witness:
  "reg_sel DOORBELL (hdma_regs_of 0xfffffffffffff000 15 1) \<noteq> reg_sel EN (hdma_regs_of 0xfffffffffffff000 2 0)"
  using hdma_registers_apart [of 15 2 DOORBELL "0xfffffffffffff000" 1 EN 0] by simp

text \<open>
  C20: \<open>hdma_init\<close> on every branch. Without an out parameter, or when the allocation fails, it
  returns -EPERM, holds nothing new and leaves the slot alone. Otherwise it returns 0 and stores
  an idle, unlocked context of the requested channel, whose descriptor area is the channel's own
  4 KB page behind the first 64 KB of the 512 KB of IRAM that \<open>iatu_config\<close> maps.
\<close>

theorem hdma_init_correct:
  assumes "unat n < 16" and "hdma_init env slot dev n b t h = (ret, slot', h')"
  shows "if slot = None \<or> ret \<noteq> 0 then ret = - EPERM \<and> slot' = slot \<and> held h' = held h
    else ret = 0 \<and> (\<exists>c. slot' = Some (Some c) \<and> hc_ptr c \<noteq> 0 \<and>
      held h' = add_mset (Res_kmem (hc_ptr c)) (held h) \<and>
      is_channel b n t c \<and> unat (hc_id c) = unat n \<and> hc_type c = t \<and> hc_flag c = 0 \<and>
      hc_state c = TRANSFER_STATE_IDLE \<and>
      unat (start_pointer_addr (hc_desc_buf c)) = 0x48000000 + 0x10000 + unat n * 0x1000 \<and>
      unat (start_pointer_addr (hc_desc_buf c)) + unat (buf_size (hc_desc_buf c)) \<le> 0x48000000 + 512 * 1024)"
proof -
  have a: "unat (n * 0x1000) = unat n * 0x1000"
    using assms(1) by (subst unat_mult_lem [THEN iffD1]) simp_all
  then have "unat (0x48010000 + n * 0x1000) = 0x48010000 + unat n * 0x1000"
    using assms(1) by (subst unat_add_lem [THEN iffD1]) simp_all
  then have p: "unat (ucast (0x48010000 + n * 0x1000) :: u64) = 0x48010000 + unat n * 0x1000"
    by simp
  have i: "unat (ucast n :: u8) = unat n"
    using assms(1) by (simp add: unsigned_ucast_eq take_bit_nat_eq_self)
  show ?thesis
    using assms a p i
    by (auto simp: hdma_init_def kmalloc_def Let_def is_channel_def hdma_regs_of_def EPERM_def
        IRAM_BASE_SOC_ADDR_def HDMA_DESC_SOC_OFFSET_ADDR_def split: option.splits if_splits)
qed

theorem hdma_init_correct_witness:
  "\<exists>c h'. hdma_init demo_kenv (Some None) demo_device 5 0x8000001000 1 [] = (0, Some (Some c), h') \<and>
    is_channel 0x8000001000 5 1 c \<and> unat (start_pointer_addr (hc_desc_buf c)) = 0x48015000"
proof -
  obtain ret s h' where r: "hdma_init demo_kenv (Some None) demo_device 5 0x8000001000 1 [] = (ret, s, h')"
    by (metis prod_cases3)
  then have "ret = 0" by (simp add: hdma_init_def kmalloc_def demo_kenv_def Let_def)
  then show ?thesis using hdma_init_correct [OF _ r] r by auto
qed

text \<open>
  C17: channels do not interfere. Whatever sequence of register operations the driver runs on
  one channel, every register of every other channel, and every address outside the engine's
  block, keeps the value last written to it, and no lock or kernel resource changes hands.
\<close>

theorem channel_isolation:
  assumes "is_channel b n t ctx" and "is_channel b m u other" and "n \<noteq> m \<or> (t = 1) \<noteq> (u = 1)"
    and "0x8000 \<le> unat (a - b)"
  shows "reg_val other r (run_cmds env dev cs ctx h) = reg_val other r h \<and>
    last_write a (run_cmds env dev cs ctx h) = last_write a h \<and>
    held (run_cmds env dev cs ctx h) = held h \<and> locks (run_cmds env dev cs ctx h) = locks h"
proof -
  have "unat m < 16" "hc_ctx other = hdma_regs_of b m u" using assms(2) by (simp_all add: is_channel_def)
  moreover have "m \<noteq> n \<or> rw_of u \<noteq> rw_of t" using assms(3) by (auto simp: rw_of_def)
  ultimately show ?thesis
    by (simp add: cmds.op_frame_other [OF assms(1)] cmds.op_frame_outside [OF assms(1,4)]
         reg_val_def reg_sel_regs_of cmds.op_frame_kernel)
qed

theorem channel_isolation_witness:
  "reg_val (demo_channel\<lparr>hc_ctx := hdma_regs_of 0x8000001000 3 1\<rparr>) EN
    (run_cmds demo_kenv demo_device [Cmd_enable, Cmd_xfer 8 1 2, Cmd_start] demo_channel []) = None"
proof -
  have o: "is_channel 0x8000001000 3 1 (demo_channel\<lparr>hc_ctx := hdma_regs_of 0x8000001000 3 1\<rparr>)"
    by (simp add: is_channel_def)
  show ?thesis
    using channel_isolation [OF demo_is_channel o, of "0x8000009000" EN demo_kenv demo_device
        "[Cmd_enable, Cmd_xfer 8 1 2, Cmd_start]" "[]"]
    by (simp add: reg_val_def)
qed

text \<open>
  C24: programming a transfer. After attributes, interrupt mask, addresses and doorbell, in the
  order of the driver, the channel's register pairs hold the full 64-bit source and destination,
  the size, the attributes and the mask (all seven bits for mask 0), and the doorbell is rung.
\<close>

theorem channel_programmed:
  assumes "is_channel b n t ctx"
    and "h' = run_cmds env dev [Cmd_attr c p y, Cmd_enable_intr m, Cmd_xfer k src des, Cmd_start] ctx h"
  shows "pair_val ctx SAR_HIGH SAR_LOW h' = Some src \<and> pair_val ctx DAR_HIGH DAR_LOW h' = Some des \<and>
    reg_val ctx XFERSIZE h' = Some k \<and> reg_val ctx CONTROL1 h' = Some c \<and>
    reg_val ctx ELEM_PF h' = Some p \<and> reg_val ctx CYCLE h' = Some y \<and>
    reg_val ctx INT_SETUP h' = Some (if m = 0 then 0x7f else m) \<and> reg_val ctx DOORBELL h' = Some 1 \<and>
    reg_val ctx EN h' = reg_val ctx EN h"
  by (simp add: set_xfer_data_regs [OF assms(1)] assms(2) run_cmds_def hdma_start_transfer_regs [OF assms(1)]
      pair_val_start [OF assms(1)]
      hdma_set_attr_regs [OF assms(1)] hdma_enable_intr_regs [OF assms(1)])

theorem channel_programmed_witness:
  "pair_val demo_channel SAR_HIGH SAR_LOW
    (run_cmds demo_kenv demo_device
      [Cmd_attr 0xd0000 0 0, Cmd_enable_intr 0x3d, Cmd_xfer 72 0x1234567890 0x48010000, Cmd_start] demo_channel [])
   = Some 0x1234567890"
  using channel_programmed [OF demo_is_channel refl] by blast

text \<open>
  The message signalled interrupt of a channel. All three causes (stop, abort, watermark) get
  the message address the PCI capability holds and the data word the message.
\<close>

lemma channel_msi_programmed:
  assumes "is_channel b n t ctx" and "h' = hdma_msi_interrupt dev ctx ah al md (hdma_enable dev ctx h)"
  shows "pair_val ctx MSI_STOP_HIGH MSI_STOP_LOW h' = Some (join64 ah al) \<and>
    pair_val ctx MSI_ABORT_HIGH MSI_ABORT_LOW h' = Some (join64 ah al) \<and>
    pair_val ctx MSI_WATERMARK_HIGH MSI_WATERMARK_LOW h' = Some (join64 ah al) \<and>
    reg_val ctx MSI_MSGD h' = Some (ucast md) \<and> reg_val ctx EN h' = Some 1"
  by (simp add: hdma_msi_interrupt_regs [OF assms(1)] hdma_enable_regs [OF assms(1)] assms(2))



end
