(* ===== verification/Hdma_Desc.thy ===== *)
theory Hdma_Desc
  imports Eon_Device
begin

text \<open>
  The link-list elements the HDMA engine fetches (\<open>hdma.h\<close>, \<open>hdma.c\<close>): the two bit-field
  structs over one 24-byte cell, their layout in the cell's six 32-bit words, and the two
  functions that fill them. A cell comes from \<open>kmalloc\<close> uninitialised and the functions leave
  the reserved fields alone, so they are functions of the old contents.
\<close>

section \<open>The structs\<close>

record dma_cmd_desc =
  d_CB :: "1 word"
  d_reserved0 :: "1 word"
  d_LLP :: "1 word"
  d_LIE :: "1 word"
  d_RIE :: "1 word"
  d_reserved1 :: "27 word"
  d_transfer_size :: u32
  d_sar_low :: u32
  d_sar_high :: u32
  d_dar_low :: u32
  d_dar_high :: u32

record end_element =
  e_CB :: "1 word"
  e_TCB :: "1 word"
  e_LLP :: "1 word"
  e_reserved0 :: "29 word"
  e_reserved1 :: u32
  e_ll_pointer_low :: u32
  e_ll_pointer_high :: u32
  e_reserved_a :: u32
  e_reserved_b :: u32

text \<open>
  A cell of memory as six words. Both structs pack their bit fields into the first word,
  lowest bit first (5 + 27 and 3 + 29 bits).
\<close>

definition put_field :: "nat \<Rightarrow> 'a::len word \<Rightarrow> u32" where
  "put_field k w = push_bit k (ucast w)"

definition get_field :: "nat \<Rightarrow> u32 \<Rightarrow> 'a::len word" where
  "get_field k w = ucast (drop_bit k w)"

type_synonym cell = "u32 \<times> u32 \<times> u32 \<times> u32 \<times> u32 \<times> u32"

fun desc_load :: "cell \<Rightarrow> dma_cmd_desc" where
  "desc_load (w0, w1, w2, w3, w4, w5) =
     \<lparr>d_CB = get_field 0 w0, d_reserved0 = get_field 1 w0, d_LLP = get_field 2 w0,
      d_LIE = get_field 3 w0, d_RIE = get_field 4 w0,
      d_reserved1 = get_field 5 w0, d_transfer_size = w1,
      d_sar_low = w2, d_sar_high = w3, d_dar_low = w4, d_dar_high = w5\<rparr>"

definition desc_store :: "dma_cmd_desc \<Rightarrow> cell" where
  "desc_store d =
     (put_field 0 (d_CB d) OR put_field 1 (d_reserved0 d) OR put_field 2 (d_LLP d)
        OR put_field 3 (d_LIE d) OR put_field 4 (d_RIE d)
        OR put_field 5 (d_reserved1 d),
      d_transfer_size d, d_sar_low d, d_sar_high d, d_dar_low d, d_dar_high d)"

fun end_load :: "cell \<Rightarrow> end_element" where
  "end_load (w0, w1, w2, w3, w4, w5) =
     \<lparr>e_CB = get_field 0 w0, e_TCB = get_field 1 w0, e_LLP = get_field 2 w0,
      e_reserved0 = get_field 3 w0, e_reserved1 = w1,
      e_ll_pointer_low = w2, e_ll_pointer_high = w3, e_reserved_a = w4, e_reserved_b = w5\<rparr>"

definition end_store :: "end_element \<Rightarrow> cell" where
  "end_store e =
     (put_field 0 (e_CB e) OR put_field 1 (e_TCB e) OR put_field 2 (e_LLP e)
        OR put_field 3 (e_reserved0 e),
      e_reserved1 e, e_ll_pointer_low e, e_ll_pointer_high e, e_reserved_a e, e_reserved_b e)"

section \<open>Filling an element\<close>

definition DMA_MEM_TO_DEV :: u64 where
  "DMA_MEM_TO_DEV = 1"

definition DMA_DEV_TO_MEM :: u64 where
  "DMA_DEV_TO_MEM = 2"

definition set_data_element ::
  "dma_cmd_desc \<Rightarrow> u64 \<Rightarrow> u64 \<Rightarrow> u64 \<Rightarrow> u32 \<Rightarrow> u8 \<Rightarrow> u8 \<Rightarrow> u8 \<Rightarrow> dma_cmd_desc" where
  "set_data_element desc dir src dst n LIE RIE CB =
     desc\<lparr>d_CB := ucast CB, d_LLP := 0, d_LIE := ucast LIE, d_RIE := ucast RIE,
       d_dar_low := ucast (dst AND BIT32_MASK),
       d_dar_high := ucast (drop_bit 32 dst AND BIT32_MASK),
       d_sar_low := ucast (src AND BIT32_MASK),
       d_sar_high := ucast (drop_bit 32 src AND BIT32_MASK),
       d_transfer_size := n\<rparr>"

definition set_link_element :: "end_element \<Rightarrow> u64 \<Rightarrow> u8 \<Rightarrow> u8 \<Rightarrow> end_element" where
  "set_link_element desc addr TCB CB =
     desc\<lparr>e_CB := ucast CB, e_TCB := ucast TCB, e_LLP := 1,
       e_ll_pointer_low := ucast (addr AND BIT32_MASK),
       e_ll_pointer_high := ucast (drop_bit 32 addr AND BIT32_MASK)\<rparr>"

text \<open>The same through a pointer to a cell.\<close>

definition set_data_cell ::
  "cell \<Rightarrow> u64 \<Rightarrow> u64 \<Rightarrow> u64 \<Rightarrow> u32 \<Rightarrow> u8 \<Rightarrow> u8 \<Rightarrow> u8 \<Rightarrow> cell" where
  "set_data_cell c dir src dst n LIE RIE CB =
     desc_store (set_data_element (desc_load c) dir src dst n LIE RIE CB)"

definition set_link_cell :: "cell \<Rightarrow> u64 \<Rightarrow> u8 \<Rightarrow> u8 \<Rightarrow> cell" where
  "set_link_cell c addr TCB CB = end_store (set_link_element (end_load c) addr TCB CB)"

section \<open>The layout loses nothing\<close>

lemma bit_put_field: "bit (put_field k w) n \<longleftrightarrow> k \<le> n \<and> n < 32 \<and> bit w (n - k)"
  by (auto simp: put_field_def bit_push_bit_iff bit_ucast_iff)

lemma bit_get_field:
  "bit (get_field k w :: 'a::len word) n \<longleftrightarrow> n < LENGTH('a) \<and> bit w (k + n)"
  by (auto simp: get_field_def bit_ucast_iff bit_drop_bit_eq)

lemma bit_high: "LENGTH('a) \<le> n \<Longrightarrow> \<not> bit (w :: 'a::len word) n"
  by (meson bit_imp_le_length leD)

lemma word1_cases: "bit (w :: 1 word) n \<longleftrightarrow> n = 0 \<and> bit w 0"
  using bit_high [of n w] by (cases n) auto

text \<open>A field is read back if the other fields of the word do not reach its bits.\<close>

lemma get_field_or: "get_field k (v OR w) = get_field k v OR get_field k w"
  by (rule bit_word_eqI) (auto simp: bit_get_field bit_or_iff)

lemma get_put_same:
  fixes w :: "'a::len word"
  assumes "k + LENGTH('a) \<le> 32"
  shows "get_field k (put_field k w) = w"
  using assms by (intro bit_word_eqI) (auto simp: bit_get_field bit_put_field)

lemma get_put_other:
  fixes w :: "'a::len word"
  assumes "j + LENGTH('a) \<le> k \<or> k + LENGTH('b) \<le> j"
  shows "(get_field k (put_field j w) :: 'b::len word) = 0"
  using assms by (intro bit_word_eqI) (auto simp: bit_get_field bit_put_field bit_high)

lemmas field_simps_32 = get_field_or get_put_same get_put_other

lemma bit_put_get:
  "bit (put_field k (get_field k v :: 'a::len word)) n \<longleftrightarrow> k \<le> n \<and> n < k + LENGTH('a) \<and> bit v n"
  by (auto simp: bit_put_field bit_get_field dest: bit_imp_le_length)

lemma desc_load_store: "desc_load (desc_store d) = d"
  by (simp add: desc_store_def field_simps_32)

lemma desc_store_load: "desc_store (desc_load c) = c"
proof -
  obtain w0 w1 w2 w3 w4 w5 where c: "c = (w0, w1, w2, w3, w4, w5)"
    by (cases c) auto
  have "fst (desc_store (desc_load c)) = w0"
    by (rule bit_word_eqI) (simp add: c desc_store_def bit_or_iff bit_put_get, arith)
  then show ?thesis by (simp add: c desc_store_def)
qed

lemma end_load_store: "end_load (end_store e) = e"
  by (simp add: end_store_def field_simps_32)

lemma end_store_load: "end_store (end_load c) = c"
proof -
  obtain w0 w1 w2 w3 w4 w5 where c: "c = (w0, w1, w2, w3, w4, w5)"
    by (cases c) auto
  have "fst (end_store (end_load c)) = w0"
    by (rule bit_word_eqI) (simp add: c end_store_def bit_or_iff bit_put_get, arith)
  then show ?thesis by (simp add: c end_store_def)
qed

section \<open>What the engine reads\<close>

text \<open>The meaning of a cell for the engine: the link bit says which of the two structs it is.\<close>

datatype element =
    Data (el_src: u64) (el_dst: u64) (el_len: u32) (el_cb: bool) (el_lie: bool) (el_rie: bool)
  | Link (el_next: u64) (el_tcb: bool) (el_cycle: bool)

definition fetch_element :: "cell \<Rightarrow> element" where
  "fetch_element c =
     (if d_LLP (desc_load c) = 0 then
        let d = desc_load c in
        Data (join64 (d_sar_high d) (d_sar_low d)) (join64 (d_dar_high d) (d_dar_low d))
          (d_transfer_size d) (d_CB d = 1) (d_LIE d = 1) (d_RIE d = 1)
      else let e = end_load c in
        Link (join64 (e_ll_pointer_high e) (e_ll_pointer_low e)) (e_TCB e = 1) (e_CB e = 1))"

lemma desc_llp_end: "d_LLP (desc_load c) = e_LLP (end_load c)"
  by (cases c) simp

lemma ucast_bit0: "(ucast (w :: u8) :: 1 word) = 1 \<longleftrightarrow> bit w 0"
  by (simp add: bit_eq_iff [where 'a = "1 word"] bit_ucast_iff bit_1_iff)

lemma fetch_data_cell:
  "fetch_element (set_data_cell c dir src dst n LIE RIE CB) =
    Data src dst n (bit CB 0) (bit LIE 0) (bit RIE 0)"
  by (simp add: fetch_element_def set_data_cell_def desc_load_store set_data_element_def Let_def
      ucast_bit0 fold_halves)

lemma fetch_link_cell:
  "fetch_element (set_link_cell c addr TCB CB) = Link addr (bit TCB 0) (bit CB 0)"
  by (simp add: fetch_element_def set_link_cell_def desc_llp_end end_load_store set_link_element_def
      Let_def ucast_bit0 fold_halves)

section \<open>Properties\<close>



end
