(* ===== verification/Eon_Transfer.thy ===== *)
theory Eon_Transfer
  imports Eon_Window Hdma_Ops Hdma_Desc
begin

text \<open>
  One transfer (\<open>test_dev.c\<close>: \<open>set_hdma_desc\<close>, \<open>teardown_dma_desc\<close>, \<open>tranfer_desc\<close>,
  \<open>dma_llmode_transmit\<close>, \<open>eon_hdma_inbound\<close>, \<open>eon_hdma_outbound\<close>): the descriptor list for
  the scatter list, its copy to the device by a first DMA in single-block mode, the second DMA in
  link-list mode that moves the data, and the clean-up. The wait for the interrupt is a
  parameter: what it returns and the state it finds the channel in.
\<close>

section \<open>Data\<close>

record dpu_desc_info =
  di_desc_num :: u64
  di_desc_size :: u64
  di_desc_host_addr :: u64
  di_cells :: "cell list"
  di_desc_addr :: u64
  di_desc_device_addr :: u64
  di_dir :: u32

record reg_addr_data =
  rad_reg_addr :: u64
  rad_reg_data :: u32

record reg_infos =
  ri_reg_operation :: u8
  ri_num :: u8
  ri_write_data :: "reg_addr_data list"

definition REG_OPERATION_MAX_NUM :: u8 where
  "REG_OPERATION_MAX_NUM = 0x10"

definition reg_enable :: u8 where
  "reg_enable = 1"

definition dma_enable :: u32 where
  "dma_enable = 1"

definition HDMA_TIMEOUT_LENGTH :: u32 where
  "HDMA_TIMEOUT_LENGTH = 5000"

text \<open>
  \<open>k_wait h q ms\<close> is what \<open>wait_event_interruptible_timeout\<close> returns (0 after the time-out,
  negative for a signal, positive when the condition holds) and the channel's state then.
\<close>

record xfer_env = io_env +
  k_fresh_cell :: "hist \<Rightarrow> nat \<Rightarrow> cell"
  k_map_single :: "hist \<Rightarrow> u64 \<Rightarrow> u64 \<Rightarrow> u64"
  k_mapping_error :: "u64 \<Rightarrow> bool"
  k_wait :: "hist \<Rightarrow> u64 \<Rightarrow> u32 \<Rightarrow> int \<times> hdma_state"

section \<open>The descriptor list\<close>

text \<open>The \<open>for_each_sg\<close> loop: one data element per scatter entry, written over the cell.\<close>

primrec fill_cells ::
  "dpu_xfer_info \<Rightarrow> (nat \<Rightarrow> cell) \<Rightarrow> nat \<Rightarrow> u64 \<Rightarrow> sg_entry list \<Rightarrow> cell list" where
  "fill_cells xfer_info old i xfer_len [] = []"
| "fill_cells xfer_info old i xfer_len (sg # sgs) =
     (let n = (ucast (sg_dma_len sg) :: u64);
          host_addr = sg_dma_address sg + 0;
          (src_addr, des_addr) =
            (if xi_dir xfer_info = DMA_MEM_TO_DEV
             then (host_addr, xj_dst (xi_align xfer_info) + xfer_len)
             else (xj_src (xi_align xfer_info) + xfer_len, host_addr));
          c = (if of_nat i = xi_sglen xfer_info - 1
               then set_data_cell (old i) (xi_dir xfer_info) src_addr des_addr (ucast n) 1 1 1
               else set_data_cell (old i) (xi_dir xfer_info) src_addr des_addr (ucast n) 0 0 1)
      in c # fill_cells xfer_info old (Suc i) (xfer_len + n) sgs)"

definition set_hdma_desc ::
  "'a xfer_env_scheme \<Rightarrow> dpu_xfer_info \<Rightarrow> dpu_desc_info \<Rightarrow> u64 \<Rightarrow> hist \<Rightarrow> int \<times> dpu_desc_info \<times> hist"
  where
  "set_hdma_desc env xfer_info desc_info pd h =
     (let descs_size = ucast (xi_sglen xfer_info + 1) * 24;
          (descs_host_addr, h) = kmalloc env descs_size h
      in if descs_host_addr = 0 then (-1, desc_info, h)
      else
        let desc_info = desc_info\<lparr>di_desc_host_addr := descs_host_addr\<rparr>;
            desc_addr = k_map_single env h descs_host_addr descs_size
        in if k_mapping_error env desc_addr then (-1, desc_info, kfree descs_host_addr h)
        else
          let old = k_fresh_cell env h;
              h = Ev_acquire (Res_dma_map desc_addr) # h;
              sglen = unat (xi_sglen xfer_info);
              cells = fill_cells xfer_info old 0 0 (take sglen (xi_sg xfer_info));
              link = set_link_cell (old (length cells)) (di_desc_device_addr desc_info) 1 0
          in (0, desc_info\<lparr>di_cells := cells @ [link], di_desc_size := descs_size,
                   di_desc_num := ucast (xi_sglen xfer_info), di_desc_addr := desc_addr\<rparr>, h))"

definition teardown_dma_desc :: "u64 \<Rightarrow> dpu_desc_info \<Rightarrow> hist \<Rightarrow> hist" where
  "teardown_dma_desc pd desc_info h =
     kfree (di_desc_host_addr desc_info) (Ev_release (Res_dma_map (di_desc_addr desc_info)) # h)"

section \<open>The two DMA runs\<close>

definition hdma_wait ::
  "'a xfer_env_scheme \<Rightarrow> hdma_context \<Rightarrow> hist \<Rightarrow> int \<times> hdma_context \<times> hist" where
  "hdma_wait env ctx h =
     (let (rv, st) = k_wait env h (hc_wq ctx) HDMA_TIMEOUT_LENGTH
      in (rv, ctx\<lparr>hc_state := st\<rparr>, Ev_sleep (hc_wq ctx) rv # h))"

definition tranfer_desc ::
  "'a xfer_env_scheme \<Rightarrow> eon_device \<Rightarrow> hdma_context \<Rightarrow> dpu_desc_info \<Rightarrow> hist \<Rightarrow>
   int \<times> hdma_context \<times> hist" where
  "tranfer_desc env dev hdma_dev desc_info h =
     (let h = spin_lock (hc_lock hdma_dev) h;
          (_, h) = hdma_set_attr dev hdma_dev 0xd0000 0 0 h;
          (_, h) = hdma_enable_intr dev hdma_dev 0x3d h;
          h = set_xfer_data env dev hdma_dev (ucast (di_desc_size desc_info))
                (di_desc_addr desc_info) (di_desc_device_addr desc_info) h;
          hdma_dev = hdma_dev\<lparr>hc_state := TRANSFER_STATE_RUNNING\<rparr>;
          (_, h) = hdma_start_transfer dev hdma_dev 0 h;
          (rv, hdma_dev, h) = hdma_wait env hdma_dev h;
          ret = (if rv = 0 then -1 else 0)
      in (ret, hdma_dev, spin_unlock (hc_lock hdma_dev) h))"

text \<open>The user's register writes, in order, up to the first that fails.\<close>

primrec write_infos ::
  "'a kenv_scheme \<Rightarrow> reg_addr_data list \<Rightarrow> eon_device \<Rightarrow> hist \<Rightarrow> int \<times> eon_device \<times> hist" where
  "write_infos env [] dev h = (0, dev, h)"
| "write_infos env (w # ws) dev h =
     (let regs_args = \<lparr>ra_reg_addr = rad_reg_addr w, ra_reg_data = rad_reg_data w,
            ra_rw_flag = REG_WRITE\<rparr>;
          (rv, _, dev, h) = regs_operations env dev regs_args h
      in if rv \<noteq> 0 then (rv, dev, h) else write_infos env ws dev h)"

definition dma_llmode_transmit ::
  "'a xfer_env_scheme \<Rightarrow> eon_device \<Rightarrow> hdma_context \<Rightarrow> dpu_desc_info \<Rightarrow> u32 \<Rightarrow> reg_infos \<Rightarrow> hist \<Rightarrow>
   int \<times> hdma_context \<times> eon_device \<times> hist" where
  "dma_llmode_transmit env dev hdma_dev desc_info enable reg_infos h =
     (let h = spin_lock (hc_lock hdma_dev) h;
          (_, h) = hdma_set_attr dev hdma_dev 0x003 0 2 h;
          (_, h) = hdma_enable_intr dev hdma_dev 0x18 h;
          (_, h) = hdma_set_desc_pointer dev hdma_dev (di_desc_device_addr desc_info) h;
          hdma_dev = hdma_dev\<lparr>hc_state := TRANSFER_STATE_RUNNING\<rparr>;
          (rv, dev, h) =
            (if ri_reg_operation reg_infos = reg_enable \<and> ri_num reg_infos < REG_OPERATION_MAX_NUM
             then write_infos env (take (unat (ri_num reg_infos)) (ri_write_data reg_infos)) dev h
             else (0, dev, h))
      in if rv \<noteq> 0 then (rv, hdma_dev, dev, spin_unlock (hc_lock hdma_dev) h)
      else
        let h = (if enable = dma_enable then snd (hdma_start_transfer dev hdma_dev 0 h) else h);
            (rv, hdma_dev, h) = hdma_wait env hdma_dev h;
            ret = (if rv = 0 then -1 else 0)
        in (ret, hdma_dev, dev, spin_unlock (hc_lock hdma_dev) h))"

section \<open>A transfer in each direction\<close>

definition zero_xfer_info :: dpu_xfer_info where
  "zero_xfer_info =
     \<lparr>xi_sgt = 0, xi_sg = [], xi_sglen = 0, xi_align = \<lparr>xj_src = 0, xj_dst = 0, xj_size = 0\<rparr>,
      xi_hmem_info = \<lparr>hm_addr = 0, hm_len = 0, hm_blocks = 0, hm_block_arr = [], hm_blocks_nr = 0\<rparr>,
      xi_size = 0, xi_dir = 0\<rparr>"

definition zero_desc_info :: dpu_desc_info where
  "zero_desc_info =
     \<lparr>di_desc_num = 0, di_desc_size = 0, di_desc_host_addr = 0, di_cells = [], di_desc_addr = 0,
      di_desc_device_addr = 0, di_dir = 0\<rparr>"

definition eon_hdma_inbound ::
  "'a xfer_env_scheme \<Rightarrow> eon_device \<Rightarrow> hdma_context \<Rightarrow> u64 \<Rightarrow> u64 \<Rightarrow> u64 \<Rightarrow> u64 \<Rightarrow> u32 \<Rightarrow> reg_infos \<Rightarrow>
   hist \<Rightarrow> int \<times> hdma_context \<times> eon_device \<times> hist" where
  "eon_hdma_inbound env dev hdma_dev host_src device_des n desc_addr enable reg_infos h =
     (let xfer_info = zero_xfer_info\<lparr>xi_align := \<lparr>xj_src = host_src, xj_dst = device_des, xj_size = 0\<rparr>,
            xi_size := n, xi_dir := DMA_MEM_TO_DEV\<rparr>;
          (ret, xfer_info, h) = dpu_setup_sg env xfer_info (pdev dev) host_src 1 h
      in if ret \<noteq> 0 then (ret, hdma_dev, dev, h)
      else
        let desc_info = zero_desc_info\<lparr>di_dir := ucast DMA_MEM_TO_DEV, di_desc_device_addr := desc_addr\<rparr>;
            (ret, desc_info, h) = set_hdma_desc env xfer_info desc_info (pdev dev) h
        in if ret \<noteq> 0 then (ret, hdma_dev, dev, dpu_teardown_sg xfer_info h)
        else
          let (ret, hdma_dev, h) = tranfer_desc env dev hdma_dev desc_info h
          in if ret \<noteq> 0
             then (ret, hdma_dev, dev, dpu_teardown_sg xfer_info (teardown_dma_desc (pdev dev) desc_info h))
          else
            let (ret, hdma_dev, dev, h) =
                  dma_llmode_transmit env dev hdma_dev desc_info enable reg_infos h
            in (ret, hdma_dev, dev,
                dpu_teardown_sg xfer_info (teardown_dma_desc (pdev dev) desc_info h)))"

text \<open>On an error after the set-up the code returns \<open>tc\<close>, which is never assigned: 0.\<close>

definition eon_hdma_outbound ::
  "'a xfer_env_scheme \<Rightarrow> eon_device \<Rightarrow> hdma_context \<Rightarrow> hdma_context \<Rightarrow> u64 \<Rightarrow> u64 \<Rightarrow> u64 \<Rightarrow> u64 \<Rightarrow> u32 \<Rightarrow>
   reg_infos \<Rightarrow> hist \<Rightarrow> int \<times> hdma_context \<times> hdma_context \<times> eon_device \<times> hist" where
  "eon_hdma_outbound env dev hdma_dev hdma_dev_desc host_des device_src n desc_addr enable reg_infos h =
     (let tc = 0;
          xfer_info = zero_xfer_info\<lparr>xi_align := \<lparr>xj_src = device_src, xj_dst = host_des, xj_size = 0\<rparr>,
            xi_size := n, xi_dir := DMA_DEV_TO_MEM\<rparr>;
          (ret, xfer_info, h) = dpu_setup_sg env xfer_info (pdev dev) host_des 1 h
      in if ret \<noteq> 0 then (ret, hdma_dev, hdma_dev_desc, dev, h)
      else
        let desc_info = zero_desc_info\<lparr>di_dir := ucast DMA_DEV_TO_MEM, di_desc_device_addr := desc_addr\<rparr>;
            (ret, desc_info, h) = set_hdma_desc env xfer_info desc_info (pdev dev) h
        in if ret \<noteq> 0 then (tc, hdma_dev, hdma_dev_desc, dev, dpu_teardown_sg xfer_info h)
        else
          let (ret, hdma_dev_desc, h) = tranfer_desc env dev hdma_dev_desc desc_info h
          in if ret \<noteq> 0
             then (tc, hdma_dev, hdma_dev_desc, dev,
                   dpu_teardown_sg xfer_info (teardown_dma_desc (pdev dev) desc_info h))
          else
            let (ret, hdma_dev, dev, h) =
                  dma_llmode_transmit env dev hdma_dev desc_info enable reg_infos h;
                h = dpu_teardown_sg xfer_info (teardown_dma_desc (pdev dev) desc_info h)
            in (if ret \<noteq> 0 then tc else ret, hdma_dev, hdma_dev_desc, dev, h))"

section \<open>The chain of descriptors\<close>

definition dma_sum :: "sg_entry list \<Rightarrow> u64" where
  "dma_sum es = sum_list (map (\<lambda>e. ucast (sg_dma_len e)) es)"

lemma dma_sum_simps [simp]:
  "dma_sum [] = 0" "dma_sum (e # es) = ucast (sg_dma_len e) + dma_sum es"
  by (simp_all add: dma_sum_def)

lemma length_fill_cells [simp]: "length (fill_cells x old i l es) = length es"
  by (induction es arbitrary: i l) (simp_all add: Let_def split: prod.split)

lemma ucast_u32_u64_u32 [simp]: "(ucast (ucast (w :: u32) :: u64) :: u32) = w"
  by (rule bit_word_eqI) (simp add: bit_ucast_iff)

text \<open>The element the engine should find for entry \<open>e\<close> at position \<open>j\<close>, \<open>l\<close> bytes into the transfer.\<close>

definition expected_data :: "dpu_xfer_info \<Rightarrow> nat \<Rightarrow> u64 \<Rightarrow> sg_entry \<Rightarrow> element" where
  "expected_data x j l e =
     (let last = (of_nat j = xi_sglen x - 1) in
      if xi_dir x = DMA_MEM_TO_DEV
      then Data (sg_dma_address e) (xj_dst (xi_align x) + l) (sg_dma_len e) True last last
      else Data (xj_src (xi_align x) + l) (sg_dma_address e) (sg_dma_len e) True last last)"

lemma fetch_fill_cells:
  assumes "k < length es"
  shows "fetch_element (fill_cells x old i l es ! k) =
    expected_data x (i + k) (l + dma_sum (take k es)) (es ! k)"
  using assms
proof (induction es arbitrary: i l k)
  case (Cons e es)
  show ?case
  proof (cases k)
    case 0
    then show ?thesis by (simp add: expected_data_def fetch_data_cell Let_def bit_1_iff)
  next
    case (Suc k')
    then show ?thesis using Cons.IH [of k' "Suc i" "l + ucast (sg_dma_len e)"] Cons.prems
      by (simp add: Let_def ac_simps split: prod.split)
  qed
qed simp

lemma set_hdma_desc_cases:
  assumes "set_hdma_desc env x di pd h = (ret, di', h')"
  obtains
    (no_memory) "ret = -1" "kmalloc env (ucast (xi_sglen x + 1) * 24) h = (0, h')" "di' = di"
  | (no_mapping) p h1 where "ret = -1" "di_desc_addr di' = di_desc_addr di" "p \<noteq> 0" "kmalloc env (ucast (xi_sglen x + 1) * 24) h = (p, h1)" "h' = kfree p h1"
  | (ready) p h1 a where "ret = 0" "p \<noteq> 0" "kmalloc env (ucast (xi_sglen x + 1) * 24) h = (p, h1)"
      "h' = Ev_acquire (Res_dma_map a) # h1" "\<not> k_mapping_error env a"
      "di' = di\<lparr>di_desc_host_addr := p, di_cells :=
          fill_cells x (k_fresh_cell env h1) 0 0 (take (unat (xi_sglen x)) (xi_sg x)) @
          [set_link_cell (k_fresh_cell env h1 (length (take (unat (xi_sglen x)) (xi_sg x))))
            (di_desc_device_addr di) 1 0],
        di_desc_size := ucast (xi_sglen x + 1) * 24, di_desc_num := ucast (xi_sglen x),
        di_desc_addr := a\<rparr>"
  using assms by (auto simp: set_hdma_desc_def Let_def split: prod.splits if_splits)

lemma set_hdma_desc_cells:
  assumes "set_hdma_desc env x di pd h = (0, di', h')"
    and "xi_sglen x = of_nat (length es)" and "xi_sg x = es" and "length es + 1 < 2 ^ 32"
  shows "length (di_cells di') = length es + 1 \<and> unat (di_desc_size di') = 24 * (length es + 1) \<and>
    (\<forall>k < length es. fetch_element (di_cells di' ! k) =
      (let last = (k = length es - 1); l = dma_sum (take k es); e = es ! k in
       if xi_dir x = DMA_MEM_TO_DEV
       then Data (sg_dma_address e) (xj_dst (xi_align x) + l) (sg_dma_len e) True last last
       else Data (xj_src (xi_align x) + l) (sg_dma_address e) (sg_dma_len e) True last last)) \<and>
    fetch_element (di_cells di' ! length es) = Link (di_desc_device_addr di) True False"
  using assms(1)
proof (cases rule: set_hdma_desc_cases)
  case (ready p h1 a)
  have len: "unat (of_nat (length es) :: u32) = length es" "unat (of_nat (length es) + 1 :: u32) = length es + 1"
    using assms(4) by (simp_all add: unat_of_nat take_bit_nat_eq_self unat_add_lem [THEN iffD1])
  let ?cs = "fill_cells x (k_fresh_cell env h1) 0 0 es"
  have cells: "di_cells di' = ?cs @ [set_link_cell (k_fresh_cell env h1 (length es)) (di_desc_device_addr di) 1 0]"
    using ready(6) assms(2,3) len(1) by simp
  have sz: "unat (di_desc_size di') = 24 * (length es + 1)"
  proof -
    have "di_desc_size di' = of_nat (24 * (length es + 1))"
    proof -
      have "(ucast (of_nat (length es) + 1 :: u32) :: u64) = of_nat (length es + 1)"
        by (rule word_unat_eq_iff [THEN iffD2]) (use len(2) assms(4) in \<open>simp add: unat_of_nat_small del: of_nat_Suc\<close>)
      then show ?thesis using ready(6) assms(2) by simp
    qed
    then show ?thesis using assms(4) by (simp add: unat_of_nat_small del: of_nat_mult of_nat_Suc of_nat_add)
  qed
  have last: "(of_nat k = (of_nat (length es) - 1 :: u32)) = (k = length es - 1)" if "k < length es" for k
  proof -
    have "(of_nat (length es) - 1 :: u32) = of_nat (length es - 1)"
      using that by (cases "length es") simp_all
    moreover have "unat (of_nat j :: u32) = j" if "j < length es" for j
      using that assms(4) by (simp add: unat_of_nat take_bit_nat_eq_self)
    moreover have "length es - 1 < length es" using that by simp
    ultimately show ?thesis using that by (metis word_unat_eq_iff)
  qed
  show ?thesis
    using sz last
    by (auto simp: cells nth_append fetch_fill_cells expected_data_def fetch_link_cell assms(2) Let_def bit_1_iff)
qed simp_all

section \<open>Kernel resources of a transfer\<close>

text \<open>\<open>res_same h h'\<close>: the resources held and the absence of double frees are as before.\<close>

definition res_same :: "hist \<Rightarrow> hist \<Rightarrow> bool" where
  "res_same h h' \<longleftrightarrow> held h' = held h \<and> no_bad_release h' = no_bad_release h"

lemma res_same_refl [simp]: "res_same h h"
  by (simp add: res_same_def)

lemma res_same_trans: "res_same h1 h2 \<Longrightarrow> res_same h2 h3 \<Longrightarrow> res_same h1 h3"
  by (simp add: res_same_def)

lemma res_same_accesses: "accesses A h h' \<Longrightarrow> res_same h h'"
  by (simp add: res_same_def accesses_frame)

lemma res_same_other [simp]:
  "res_same h (spin_lock l h') = res_same h h'" "res_same h (spin_unlock l h') = res_same h h'"
  "res_same h (mutex_lock m h') = res_same h h'" "res_same h (mutex_unlock m h') = res_same h h'"
  "res_same h (Ev_sleep q i # h') = res_same h h'" "res_same h (Ev_mb # h') = res_same h h'"
  "res_same h (Ev_write32 a d # h') = res_same h h'" "res_same h (Ev_read32 a d # h') = res_same h h'"
  by (simp_all add: res_same_def kernel_defs)

lemma res_same_hdma [simp]:
  "res_same h (snd (hdma_start_transfer dev c x h')) = res_same h h'"
  "res_same h (snd (hdma_set_attr dev c a b y h')) = res_same h h'"
  "res_same h (snd (hdma_enable_intr dev c m h')) = res_same h h'"
  "res_same h (snd (hdma_set_desc_pointer dev c p h')) = res_same h h'"
  "res_same h (set_xfer_data env dev c n s t h') = res_same h h'"
  by (simp_all add: res_same_def op_start.op_frame_kernel op_attr.op_frame_kernel
      op_enable_intr.op_frame_kernel op_desc_pointer.op_frame_kernel op_xfer.op_frame_kernel)

lemma slide_window_accesses:
  "slide_window env dev a h = (dev', h') \<Longrightarrow> accesses (atu_addrs dev) h h'"
  by (auto simp: slide_window_eq Let_def atu_program_accesses split: if_splits)

lemma regs_operations_res:
  assumes "regs_operations env dev q h = (ret, q', dev', h')"
  shows "res_same h h'" "locks h' = locks h" "conbar_lock dev' = conbar_lock dev"
proof -
  obtain dev1 h1 where s: "slide_window env dev (ra_reg_addr q) (mutex_lock (conbar_lock dev) h) = (dev1, h1)"
    by fastforce
  have c: "conbar_lock dev1 = conbar_lock dev"
    using s by (auto simp: slide_window_eq Let_def split: if_splits)
  have f: "locks h1 = add_mset (Mutex (conbar_lock dev)) (locks h)"
    "res_same (mutex_lock (conbar_lock dev) h) h1"
    using accesses_locks [OF slide_window_accesses [OF s]] res_same_accesses [OF slide_window_accesses [OF s]]
    by (simp_all add: mutex_lock_def)
  have "res_same h h1" using f(2) by (rule res_same_trans [rotated]) simp
  then have "res_same h h' \<and> locks h' = locks h \<and> conbar_lock dev' = conbar_lock dev"
    using assms f(1) c
    by (auto simp: regs_operations_def s Let_def access_defs mutex_unlock_def
        res_same_def split: if_splits)
  then show "res_same h h'" "locks h' = locks h" "conbar_lock dev' = conbar_lock dev" by simp_all
qed

lemma write_infos_res:
  assumes "write_infos env ws dev h = (ret, dev', h')"
  shows "res_same h h' \<and> locks h' = locks h"
  using assms
proof (induction ws arbitrary: dev h)
  case (Cons w ws)
  let ?q = "\<lparr>ra_reg_addr = rad_reg_addr w, ra_reg_data = rad_reg_data w, ra_rw_flag = REG_WRITE\<rparr>"
  obtain r q dev1 h1 where o: "regs_operations env dev ?q h = (r, q, dev1, h1)"
    by (metis prod_cases4)
  note f = regs_operations_res [OF o]
  show ?case
    using Cons.prems Cons.IH [of dev1 h1] f
    by (auto simp: o Let_def intro: res_same_trans split: if_splits)
qed simp

section \<open>The two runs as command sequences\<close>

definition desc_cmds :: "dpu_desc_info \<Rightarrow> chan_cmd list" where
  "desc_cmds di =
     [Cmd_attr 0xd0000 0 0, Cmd_enable_intr 0x3d,
      Cmd_xfer (ucast (di_desc_size di)) (di_desc_addr di) (di_desc_device_addr di), Cmd_start]"

definition data_cmds :: "dpu_desc_info \<Rightarrow> chan_cmd list" where
  "data_cmds di = [Cmd_attr 3 0 2, Cmd_enable_intr 0x18, Cmd_desc_pointer (di_desc_device_addr di)]"

lemma start_state [simp]:
  "hdma_start_transfer dev (c\<lparr>hc_state := s\<rparr>) x h = hdma_start_transfer dev c x h"
  by (simp add: hdma_start_transfer_def)

lemma set_state_twice [simp]: "c\<lparr>hc_state := s, hc_state := t\<rparr> = c\<lparr>hc_state := t\<rparr>"
  by simp

lemma tranfer_desc_eq:
  "tranfer_desc env dev c di h =
     (let g = run_cmds env dev (desc_cmds di) c (spin_lock (hc_lock c) h);
          (rv, st) = k_wait env g (hc_wq c) HDMA_TIMEOUT_LENGTH
      in (if rv = 0 then -1 else 0, c\<lparr>hc_state := st\<rparr>,
          spin_unlock (hc_lock c) (Ev_sleep (hc_wq c) rv # g)))"
  by (simp add: tranfer_desc_def hdma_wait_def run_cmds_def desc_cmds_def case_prod_beta Let_def)

definition user_writes :: "reg_infos \<Rightarrow> reg_addr_data list" where
  "user_writes ri =
     (if ri_reg_operation ri = reg_enable \<and> ri_num ri < REG_OPERATION_MAX_NUM
      then take (unat (ri_num ri)) (ri_write_data ri) else [])"

lemma dma_llmode_transmit_eq:
  "dma_llmode_transmit env dev c di en ri h =
     (let g = run_cmds env dev (data_cmds di) c (spin_lock (hc_lock c) h);
          (rv, dev', g) = write_infos env (user_writes ri) dev g
      in if rv \<noteq> 0 then (rv, c\<lparr>hc_state := TRANSFER_STATE_RUNNING\<rparr>, dev', spin_unlock (hc_lock c) g)
      else
        let g = (if en = dma_enable then run_cmds env dev' [Cmd_start] c g else g);
            (rv, st) = k_wait env g (hc_wq c) HDMA_TIMEOUT_LENGTH
        in (if rv = 0 then -1 else 0, c\<lparr>hc_state := st\<rparr>, dev',
            spin_unlock (hc_lock c) (Ev_sleep (hc_wq c) rv # g)))"
proof (cases "ri_reg_operation ri = reg_enable \<and> ri_num ri < REG_OPERATION_MAX_NUM")
  case True
  then show ?thesis
    by (cases "en = dma_enable")
      (simp_all add: dma_llmode_transmit_def hdma_wait_def run_cmds_def data_cmds_def
        user_writes_def case_prod_beta Let_def)
next
  case False
  then have no: "(ri_reg_operation ri = reg_enable \<and> ri_num ri < REG_OPERATION_MAX_NUM) = False"
    by blast
  show ?thesis
    unfolding dma_llmode_transmit_def user_writes_def no
    by (cases "en = dma_enable")
      (simp_all add: hdma_wait_def run_cmds_def data_cmds_def case_prod_beta Let_def)
qed

lemma run_cmds_res [simp]: "res_same h (run_cmds env dev cs c h') = res_same h h'"
  by (simp add: res_same_def cmds.op_frame_kernel)

lemma tranfer_desc_res:
  assumes "tranfer_desc env dev c di h = (ret, c', h')"
  shows "res_same h h'" "locks h' = locks h"
  using assms
  by (auto simp: tranfer_desc_eq Let_def cmds.op_frame_kernel spin_unlock_def spin_lock_def
      res_same_def split: prod.splits)

lemma dma_llmode_transmit_res:
  assumes "dma_llmode_transmit env dev c di en ri h = (ret, c', dev', h')"
  shows "res_same h h'" "locks h' = locks h"
proof -
  obtain rv dev1 g where w: "write_infos env (user_writes ri) dev
      (run_cmds env dev (data_cmds di) c (spin_lock (hc_lock c) h)) = (rv, dev1, g)"
    by (metis prod_cases3)
  have g: "res_same h g" "locks g = add_mset (Spin (hc_lock c)) (locks h)"
    using write_infos_res [OF w]
    by (auto simp: res_same_def cmds.op_frame_kernel spin_lock_def)
  have "res_same h h' \<and> locks h' = locks h"
    using assms g
    by (auto simp: dma_llmode_transmit_eq w Let_def cmds.op_frame_kernel spin_unlock_def res_same_def
        split: prod.splits if_splits)
  then show "res_same h h'" "locks h' = locks h" by simp_all
qed

section \<open>A whole transfer\<close>

definition desc_res :: "dpu_desc_info \<Rightarrow> resource multiset" where
  "desc_res di = {#Res_kmem (di_desc_host_addr di), Res_dma_map (di_desc_addr di)#}"

lemma set_hdma_desc_res:
  assumes "set_hdma_desc env x di pd h = (ret, di', h')"
  shows "held h' = held h + (if ret = 0 then desc_res di' else {#})"
    and "no_bad_release h' = no_bad_release h" and "locks h' = locks h"
    and "ret = 0 \<Longrightarrow> di_desc_host_addr di' \<noteq> 0"
  using assms
  by (cases rule: set_hdma_desc_cases;
      auto simp: desc_res_def kmalloc_def Let_def kfree_def split: if_splits)+

lemma teardown_dma_desc_res:
  assumes "di_desc_host_addr di \<noteq> 0" and "held h = D + desc_res di"
  shows "held (teardown_dma_desc pd di h) = D"
    and "no_bad_release (teardown_dma_desc pd di h) = no_bad_release h"
    and "locks (teardown_dma_desc pd di h) = locks h"
  using assms by (simp_all add: teardown_dma_desc_def kfree_def desc_res_def)

lemma memory_locks [simp]:
  "locks (vfree p h) = locks h" "locks (kfree p h) = locks h" "locks (put_each ps h) = locks h"
  "locks (sg_free_table p h) = locks h"
  by (simp_all add: vfree_def kfree_def sg_free_table_def)
    (induction ps arbitrary: h, simp_all add: put_page_def)

lemma alloc_locks:
  "vmalloc env n h = (p, h') \<Longrightarrow> locks h' = locks h" "kmalloc env n h = (p, h') \<Longrightarrow> locks h' = locks h"
  by (auto simp: vmalloc_def kmalloc_def Let_def split: if_splits)

lemma gup_locks: "get_user_pages_fast env a n h = (r, p, h') \<Longrightarrow> locks h' = locks h"
proof -
  have "locks (map (\<lambda>i. Ev_acquire (f i)) xs @ h) = locks h" for f :: "nat \<Rightarrow> resource" and xs
    by (induction xs) simp_all
  then show "get_user_pages_fast env a n h = (r, p, h') \<Longrightarrow> locks h' = locks h"
    by (auto simp: get_user_pages_fast_def rev_map split: prod.splits)
qed

lemma dpu_put_pages_locks [simp]: "locks (snd (dpu_put_pages i h)) = locks h"
  by (simp add: dpu_put_pages_def Let_def split: option.split)

lemma dpu_get_pages_locks:
  "dpu_get_pages env a n i h = (r, i', h') \<Longrightarrow> locks h' = locks h"
  by (auto simp: dpu_get_pages_def Let_def dest!: alloc_locks gup_locks
      split: option.splits prod.splits if_splits)

lemma dpu_setup_sg_locks:
  "dpu_setup_sg env x pd a f h = (r, x', h') \<Longrightarrow> locks h' = locks h"
  by (auto simp: dpu_setup_sg_def Let_def dest!: alloc_locks dpu_get_pages_locks
      split: prod.splits if_splits)

lemma dpu_teardown_sg_locks [simp]: "locks (dpu_teardown_sg x h) = locks h"
  by (simp add: dpu_teardown_sg_def Let_def)

definition inbound_info :: "u64 \<Rightarrow> u64 \<Rightarrow> u64 \<Rightarrow> dpu_xfer_info" where
  "inbound_info host_src device_des n =
     zero_xfer_info\<lparr>xi_align := \<lparr>xj_src = host_src, xj_dst = device_des, xj_size = 0\<rparr>,
       xi_size := n, xi_dir := DMA_MEM_TO_DEV\<rparr>"

definition outbound_info :: "u64 \<Rightarrow> u64 \<Rightarrow> u64 \<Rightarrow> dpu_xfer_info" where
  "outbound_info host_des device_src n =
     zero_xfer_info\<lparr>xi_align := \<lparr>xj_src = device_src, xj_dst = host_des, xj_size = 0\<rparr>,
       xi_size := n, xi_dir := DMA_DEV_TO_MEM\<rparr>"

text \<open>
  \<open>balanced h x h'\<close>: after a transfer whose set-up succeeded with \<open>x\<close>, all that is left of its
  resources is the DMA mapping of the scatter list.
\<close>

definition balanced :: "hist \<Rightarrow> dpu_xfer_info \<Rightarrow> hist \<Rightarrow> bool" where
  "balanced h x h' \<longleftrightarrow> held h' = add_mset (Res_sg_map (xi_sgt x)) (held h) \<and>
     (no_bad_release h \<longrightarrow> no_bad_release h') \<and> locks h' = locks h"

lemma balanced_teardown:
  assumes "gup_counts env" and "dpu_setup_sg env x pd a f h = (0, x', h1)"
    and "res_same h1 h2" and "locks h2 = locks h1"
  shows "balanced h x' (dpu_teardown_sg x' h2)"
  using assms(1,2)
proof (cases rule: dpu_setup_sg_cases)
  case (ready i dma)
  have h2: "held h2 = add_mset (Res_sg_map (xi_sgt x')) (held h + xfer_res x')"
    using ready(3) assms(3) by (simp add: res_same_def)
  then have "xfer_res x' \<subseteq># held h2" by (simp add: subset_mset.add_increasing)
  note t = dpu_teardown_sg_res [OF ready(2) this]
  show ?thesis
    using t h2 ready(4) assms(3,4) dpu_setup_sg_locks [OF assms(2)]
    by (simp add: balanced_def res_same_def)
qed simp

lemma desc_teardown_same:
  assumes "set_hdma_desc env x di pd h = (0, di', h1)" and "res_same h1 h2" and "locks h2 = locks h1"
  shows "res_same h (teardown_dma_desc pd2 di' h2)" "locks (teardown_dma_desc pd2 di' h2) = locks h"
proof -
  note s = set_hdma_desc_res [OF assms(1)]
  have "held h2 = held h + desc_res di'" using s(1) assms(2) by (simp add: res_same_def)
  note t = teardown_dma_desc_res [OF s(4) [OF refl] this]
  show "res_same h (teardown_dma_desc pd2 di' h2)" "locks (teardown_dma_desc pd2 di' h2) = locks h"
    using t s(2,3) assms(2,3) by (simp_all add: res_same_def)
qed

lemma failed_desc_same:
  assumes "set_hdma_desc env x di pd h = (ret, di', h1)" and "ret \<noteq> 0"
  shows "res_same h h1" "locks h1 = locks h"
  using set_hdma_desc_res [OF assms(1)] assms(2) by (simp_all add: res_same_def)

definition inbound_desc :: "u64 \<Rightarrow> dpu_desc_info" where
  "inbound_desc a = zero_desc_info\<lparr>di_dir := ucast DMA_MEM_TO_DEV, di_desc_device_addr := a\<rparr>"

definition outbound_desc :: "u64 \<Rightarrow> dpu_desc_info" where
  "outbound_desc a = zero_desc_info\<lparr>di_dir := ucast DMA_DEV_TO_MEM, di_desc_device_addr := a\<rparr>"

text \<open>The ways a transfer can end.\<close>

lemma inbound_cases:
  assumes "eon_hdma_inbound env dev c src dst n a en ri h = (ret, c', dev', h')"
  obtains (pin) x' where
      "dpu_setup_sg env (inbound_info src dst n) (pdev dev) src 1 h = (ret, x', h')" "ret \<noteq> 0"
  | (desc) x' h1 di h2 where
      "dpu_setup_sg env (inbound_info src dst n) (pdev dev) src 1 h = (0, x', h1)"
      "set_hdma_desc env x' (inbound_desc a) (pdev dev) h1 = (ret, di, h2)" "ret \<noteq> 0"
      "h' = dpu_teardown_sg x' h2"
  | (copy) x' h1 di h2 h3 where
      "dpu_setup_sg env (inbound_info src dst n) (pdev dev) src 1 h = (0, x', h1)"
      "set_hdma_desc env x' (inbound_desc a) (pdev dev) h1 = (0, di, h2)"
      "tranfer_desc env dev c di h2 = (ret, c', h3)" "ret \<noteq> 0"
      "h' = dpu_teardown_sg x' (teardown_dma_desc (pdev dev) di h3)"
  | (data) x' h1 di h2 c1 h3 h4 where
      "dpu_setup_sg env (inbound_info src dst n) (pdev dev) src 1 h = (0, x', h1)"
      "set_hdma_desc env x' (inbound_desc a) (pdev dev) h1 = (0, di, h2)"
      "tranfer_desc env dev c di h2 = (0, c1, h3)"
      "dma_llmode_transmit env dev c1 di en ri h3 = (ret, c', dev', h4)"
      "h' = dpu_teardown_sg x' (teardown_dma_desc (pdev dev') di h4)"
  using assms
  by (auto simp: eon_hdma_inbound_def Let_def split: prod.splits if_splits
      simp flip: inbound_info_def inbound_desc_def)

lemma outbound_cases:
  assumes "eon_hdma_outbound env dev c cd dst src n a en ri h = (ret, c', cd', dev', h')"
  obtains (pin) x' where
      "dpu_setup_sg env (outbound_info dst src n) (pdev dev) dst 1 h = (ret, x', h')" "ret \<noteq> 0"
  | (desc) x' h1 di h2 r where
      "dpu_setup_sg env (outbound_info dst src n) (pdev dev) dst 1 h = (0, x', h1)"
      "set_hdma_desc env x' (outbound_desc a) (pdev dev) h1 = (r, di, h2)" "r \<noteq> 0"
      "h' = dpu_teardown_sg x' h2" "ret = 0"
  | (copy) x' h1 di h2 h3 r where
      "dpu_setup_sg env (outbound_info dst src n) (pdev dev) dst 1 h = (0, x', h1)"
      "set_hdma_desc env x' (outbound_desc a) (pdev dev) h1 = (0, di, h2)"
      "tranfer_desc env dev cd di h2 = (r, cd', h3)" "r \<noteq> 0"
      "h' = dpu_teardown_sg x' (teardown_dma_desc (pdev dev) di h3)" "ret = 0"
  | (data) x' h1 di h2 h3 h4 r where
      "dpu_setup_sg env (outbound_info dst src n) (pdev dev) dst 1 h = (0, x', h1)"
      "set_hdma_desc env x' (outbound_desc a) (pdev dev) h1 = (0, di, h2)"
      "tranfer_desc env dev cd di h2 = (0, cd', h3)"
      "dma_llmode_transmit env dev c di en ri h3 = (r, c', dev', h4)"
      "h' = dpu_teardown_sg x' (teardown_dma_desc (pdev dev') di h4)" "ret = 0"
  using assms
  by (auto simp: eon_hdma_outbound_def Let_def split: prod.splits if_splits
      simp flip: outbound_info_def outbound_desc_def)

text \<open>What a transfer leaves behind, given how its buffer set-up ended.\<close>

definition leaves :: "hist \<Rightarrow> int \<times> dpu_xfer_info \<times> hist \<Rightarrow> hist \<Rightarrow> bool" where
  "leaves h setup_result h' = (case setup_result of (r, x, _) \<Rightarrow>
     if r = 0 then balanced h x h'
     else held h' = held h \<and> locks h' = locks h \<and> (no_bad_release h \<longrightarrow> no_bad_release h'))"

lemma leaves_simps [simp]:
  "leaves h (0, x, g) h' = balanced h x h'"
  "r \<noteq> 0 \<Longrightarrow> leaves h (r, x, g) h' \<longleftrightarrow>
     held h' = held h \<and> locks h' = locks h \<and> (no_bad_release h \<longrightarrow> no_bad_release h')"
  by (simp_all add: leaves_def)

lemma inbound_leaves:
  assumes "gup_counts env"
    and "eon_hdma_inbound env dev c a b n p en ri h = (ret, c1, dev1, h1)"
  shows "leaves h (dpu_setup_sg env (inbound_info a b n) (pdev dev) a 1 h) h1"
  using assms(2)
proof (cases rule: inbound_cases)
  case (pin x')
  show ?thesis using assms(1) pin(1)
    by (cases rule: dpu_setup_sg_cases) (use pin dpu_setup_sg_locks [OF pin(1)] in simp_all)
next
  case (desc x' g1 di g2)
  then show ?thesis
    using balanced_teardown [OF assms(1) desc(1) failed_desc_same [OF desc(2,3)]] by simp
next
  case (copy x' g1 di g2 g3)
  then show ?thesis
    using balanced_teardown [OF assms(1) copy(1) desc_teardown_same [OF copy(2) tranfer_desc_res [OF copy(3)]]]
    by simp
next
  case (data x' g1 di g2 c1 g3 g4)
  have "res_same g2 g4" "locks g4 = locks g2"
    using tranfer_desc_res [OF data(3)] dma_llmode_transmit_res [OF data(4)]
    by (auto intro: res_same_trans)
  from balanced_teardown [OF assms(1) data(1) desc_teardown_same [OF data(2) this]] data(1,5)
  show ?thesis by simp
qed

lemma outbound_leaves:
  assumes "gup_counts env"
    and "eon_hdma_outbound env dev c cd a b n p en ri h = (ret, c1, cd1, dev1, h1)"
  shows "leaves h (dpu_setup_sg env (outbound_info a b n) (pdev dev) a 1 h) h1"
  using assms(2)
proof (cases rule: outbound_cases)
  case (pin x')
  show ?thesis using assms(1) pin(1)
    by (cases rule: dpu_setup_sg_cases) (use pin dpu_setup_sg_locks [OF pin(1)] in simp_all)
next
  case (desc x' g1 di g2 r)
  then show ?thesis
    using balanced_teardown [OF assms(1) desc(1) failed_desc_same [OF desc(2,3)]] by simp
next
  case (copy x' g1 di g2 g3 r)
  then show ?thesis
    using balanced_teardown [OF assms(1) copy(1) desc_teardown_same [OF copy(2) tranfer_desc_res [OF copy(3)]]]
    by simp
next
  case (data x' g1 di g2 g3 g4 r)
  have "res_same g2 g4" "locks g4 = locks g2"
    using tranfer_desc_res [OF data(3)] dma_llmode_transmit_res [OF data(4)]
    by (auto intro: res_same_trans)
  from balanced_teardown [OF assms(1) data(1) desc_teardown_same [OF data(2) this]] data(1,5)
  show ?thesis by simp
qed

section \<open>The register writes of a run\<close>

lemma write_infos_port:
  "write_infos env ws dev h =
     soc_write_port.put_all (write_reg env) (map (\<lambda>w. (rad_reg_addr w, rad_reg_data w)) ws) dev h"
  by (induction ws arbitrary: dev h)
    (simp_all add: write_reg_def port.put_all.simps case_prod_beta Let_def)

definition hdma_block :: "eon_device \<Rightarrow> u64" where
  "hdma_block dev = vaddr (bar dev ATU_HDMA_BAR) + HDMA_BASE_BAR_OFFSET"

text \<open>A channel of this device's engine.\<close>

definition dev_channel :: "eon_device \<Rightarrow> u32 \<Rightarrow> u32 \<Rightarrow> hdma_context \<Rightarrow> bool" where
  "dev_channel dev n t c \<longleftrightarrow> is_channel (hdma_block dev) n t c"

lemma chan_addr_offset:
  assumes "dev_channel dev n t c" and "a \<in> chan_addrs c"
  obtains k where "a = vaddr (bar dev ATU_HDMA_BAR) + of_nat (0x1000 + k)" "k < 0x8000"
proof
  let ?k = "unat (a - hdma_block dev)"
  show "?k < 0x8000"
    using assms cmds.op_in_block unfolding dev_channel_def by blast
  have "of_nat ?k = a - hdma_block dev" by simp
  then show "a = vaddr (bar dev ATU_HDMA_BAR) + of_nat (0x1000 + ?k)"
    by (simp add: hdma_block_def HDMA_BASE_BAR_OFFSET_def)
qed

lemma chan_not_window:
  assumes "dev_channel dev n t c" and "a \<in> chan_addrs c" and "bars_apart dev"
  shows "\<not> window_off dev a < CONFIG_BAR_SIZE"
proof -
  obtain k where k: "a = vaddr (bar dev ATU_HDMA_BAR) + of_nat (0x1000 + k)" "k < 0x8000"
    using chan_addr_offset [OF assms(1,2)] .
  then show ?thesis using bar0_outside_window [OF assms(3), of "0x1000 + k"] by simp
qed

lemma chan_not_atu:
  assumes "dev_channel dev n t c" and "a \<in> chan_addrs c"
  shows "a \<noteq> atu_reg_at (atu_base dev) m r"
proof (rule blocks_disjoint [where b = "hdma_block dev" and m = "0x8000" and n = "256 * 0x200"])
  show "unat (a - hdma_block dev) < 0x8000"
    using assms cmds.op_in_block unfolding dev_channel_def by blast
  have "hdma_block dev + of_nat 0x8000 = atu_base dev"
    by (simp add: hdma_block_def atu_base_def HDMA_BASE_BAR_OFFSET_def IATU_BASE_OFFSET_def)
  then show "unat (atu_reg_at (atu_base dev) m r - (hdma_block dev + of_nat 0x8000)) < 256 * 0x200"
    using atu.reg_in_block [of m "atu_base dev" r] by (simp only: unat_u8_bound simp_thms)
qed simp

text \<open>What accesses away from the window and the ATU leave alone.\<close>

lemma accesses_window:
  assumes "accesses A h h'" and "\<And>a. a \<in> A \<Longrightarrow> \<not> window_off dev a < CONFIG_BAR_SIZE"
    and "\<And>a m r. a \<in> A \<Longrightarrow> a \<noteq> atu_reg_at (atu_base dev) m r"
  shows "soc_writes dev h' = soc_writes dev h" "atu_target dev d m h' = atu_target dev d m h"
proof -
  have "soc_writes dev h' = soc_writes dev h \<and> (\<forall>d m. atu_target dev d m h' = atu_target dev d m h)"
    using assms(1)
  proof (induction rule: accesses.induct)
    case (acc_write32 h' a x)
    then show ?case using assms(2,3) [of a]
      by (simp add: soc_writes_def soc_addr_def atu_frames)
  next
    case (acc_write16 h' a x)
    then show ?case using assms(2,3) [of a]
      by (simp add: soc_writes_def soc_addr_def atu_frames)
  qed (simp_all add: soc_writes_def atu_frames split: option.split)
  then show "soc_writes dev h' = soc_writes dev h" "atu_target dev d m h' = atu_target dev d m h"
    by blast+
qed

lemma run_cmds_window:
  assumes "dev_channel dev n t c" and "bars_apart dev"
  shows "soc_writes dev (run_cmds env dev' cs c h) = soc_writes dev h"
    "atu_target dev d m (run_cmds env dev' cs c h) = atu_target dev d m h"
  by (rule accesses_window [OF cmds.op_accesses chan_not_window [OF assms(1) _ assms(2)]
        chan_not_atu [OF assms(1)]]; assumption)+

lemma lock_events_window [simp]:
  "soc_writes dev (spin_lock l h) = soc_writes dev h" "soc_writes dev (spin_unlock l h) = soc_writes dev h"
  "soc_writes dev (Ev_sleep q i # h) = soc_writes dev h"
  "atu_target dev d m (spin_lock l h) = atu_target dev d m h"
  "atu_target dev d m (spin_unlock l h) = atu_target dev d m h"
  "atu_target dev d m (Ev_sleep q i # h) = atu_target dev d m h"
  by (simp_all add: soc_writes_def spin_lock_def spin_unlock_def atu_frames)

lemma lock_events_regs [simp]:
  "reg_val c r (spin_lock l h) = reg_val c r h" "reg_val c r (spin_unlock l h) = reg_val c r h"
  "reg_val c r (Ev_sleep q i # h) = reg_val c r h"
  "reg_val c r (mutex_lock l h) = reg_val c r h" "reg_val c r (mutex_unlock l h) = reg_val c r h"
  by (simp_all add: reg_val_def kernel_defs)

lemma write_infos_ok:
  assumes "window_ok dev h" and "write_infos env ws dev h = (ret, dev', h')"
  shows "ret = (if \<forall>w \<in> set ws. in_reg_range (rad_reg_addr w) then 0 else -1)"
    "window_ok dev' h'"
    "soc_writes dev' h' = rev (map (\<lambda>w. Soc_write32 (rad_reg_addr w) (rad_reg_data w))
      (takeWhile (\<lambda>w. in_reg_range (rad_reg_addr w)) ws)) @ soc_writes dev h"
    "locks h' = locks h"
  using port.put_all_spec [OF assms(1) assms(2) [unfolded write_infos_port]]
  by (simp_all add: soc_writes_def takeWhile_map o_def rev_map filter_map)

text \<open>The user's writes do not reach the engine's registers.\<close>

lemma regs_operations_bars:
  assumes "regs_operations env dev q h = (ret, q', dev', h')"
  shows "bar dev' = bar dev"
  using assms by (auto simp: regs_operations_def slide_window_eq Let_def split: if_splits prod.splits)

lemma regs_operations_frame:
  assumes "regs_operations env dev q h = (ret, q', dev', h')"
    and "\<not> window_off dev a < CONFIG_BAR_SIZE" and "a \<notin> atu_addrs dev"
  shows "last_write a h' = last_write a h"
proof -
  obtain dev1 h1 where s: "slide_window env dev (ra_reg_addr q) (mutex_lock (conbar_lock dev) h) = (dev1, h1)"
    by fastforce
  have b: "bar dev1 = bar dev"
    using s by (auto simp: slide_window_eq Let_def split: if_splits)
  have h1: "last_write a h1 = last_write a h"
    using accesses_last_write [OF slide_window_accesses [OF s] assms(3)] by (simp add: mutex_lock_def)
  have "window_off dev ((ra_reg_addr q AND 0xffffff) + vaddr (bar dev CONFIG_BAR_INDEX)) < CONFIG_BAR_SIZE"
    by (simp add: window_off_def low24_less)
  then have "a \<noteq> (ra_reg_addr q AND 0xffffff) + vaddr (bar dev CONFIG_BAR_INDEX)" using assms(2) by auto
  then show ?thesis
    using assms(1) h1 b
    by (auto simp: regs_operations_def s Let_def access_defs mutex_unlock_def CONFIG_BAR_SIZE_def
        split: if_splits)
qed

lemma write_infos_frame:
  assumes "write_infos env ws dev h = (ret, dev', h')" and "dev_channel dev n t c" and "bars_apart dev"
  shows "reg_val c r h' = reg_val c r h \<and> bar dev' = bar dev"
  using assms
proof (induction ws arbitrary: dev h)
  case (Cons w ws)
  let ?q = "\<lparr>ra_reg_addr = rad_reg_addr w, ra_reg_data = rad_reg_data w, ra_rw_flag = REG_WRITE\<rparr>"
  let ?a = "reg_sel r (hc_ctx c)"
  obtain e q dev1 h1 where o: "regs_operations env dev ?q h = (e, q, dev1, h1)"
    by (metis prod_cases4)
  have b: "bar dev1 = bar dev" by (rule regs_operations_bars [OF o])
  have "reg_val c r h1 = reg_val c r h" unfolding reg_val_def
    using chan_not_window [OF Cons.prems(2) chan_reg_mem Cons.prems(3)]
      chan_not_atu [OF Cons.prems(2) chan_reg_mem]
    by (intro regs_operations_frame [OF o]) (auto simp: atu_addrs_def)
  moreover have "dev_channel dev1 n t c" "bars_apart dev1"
    using Cons.prems(2,3) b
    by (simp_all add: dev_channel_def hdma_block_def bars_apart_def window_off_def)
  ultimately show ?case
    using Cons.prems(1) Cons.IH [of dev1 h1] b by (auto simp: o Let_def split: if_splits)
qed simp

text \<open>The state of a run before the doorbell: the engine's registers and the user's writes.\<close>

lemma llmode_prepared:
  assumes "window_ok dev h" and "dev_channel dev n t c"
    and "write_infos env (user_writes ri) dev
      (run_cmds env dev (data_cmds di) c (spin_lock (hc_lock c) h)) = (rv, dev1, g)"
  shows "rv = (if \<forall>w \<in> set (user_writes ri). in_reg_range (rad_reg_addr w) then 0 else -1)"
    "window_ok dev1 g" "dev_channel dev1 n t c"
    "soc_writes dev1 g = rev (map (\<lambda>w. Soc_write32 (rad_reg_addr w) (rad_reg_data w))
      (takeWhile (\<lambda>w. in_reg_range (rad_reg_addr w)) (user_writes ri))) @ soc_writes dev h"
    "reg_val c DOORBELL g = reg_val c DOORBELL h" "pair_val c LLP_HIGH LLP_LOW g = Some (di_desc_device_addr di)"
    "reg_val c CONTROL1 g = Some 3" "reg_val c CYCLE g = Some 2" "reg_val c INT_SETUP g = Some 0x18"
proof -
  have ch: "is_channel (hdma_block dev) n t c" using assms(2) by (simp add: dev_channel_def)
  have apart: "bars_apart dev" using assms(1) by (simp add: window_ok_def)
  let ?p = "run_cmds env dev (data_cmds di) c (spin_lock (hc_lock c) h)"
  have "window_ok dev ?p"
    using assms(1) by (simp add: window_ok_def window_inv_def run_cmds_window [OF assms(2) apart])
  note W = write_infos_ok [OF this assms(3)]
  note F = write_infos_frame [OF assms(3,2) apart]
  show "rv = (if \<forall>w \<in> set (user_writes ri). in_reg_range (rad_reg_addr w) then 0 else -1)" "window_ok dev1 g"
    by (rule W)+
  show "dev_channel dev1 n t c" using assms(2) F by (simp add: dev_channel_def hdma_block_def)
  show "soc_writes dev1 g = rev (map (\<lambda>w. Soc_write32 (rad_reg_addr w) (rad_reg_data w))
      (takeWhile (\<lambda>w. in_reg_range (rad_reg_addr w)) (user_writes ri))) @ soc_writes dev h"
    using W(3) by (simp add: run_cmds_window [OF assms(2) apart])
  show "reg_val c DOORBELL g = reg_val c DOORBELL h" "pair_val c LLP_HIGH LLP_LOW g = Some (di_desc_device_addr di)"
    "reg_val c CONTROL1 g = Some 3" "reg_val c CYCLE g = Some 2" "reg_val c INT_SETUP g = Some 0x18"
    using F hdma_set_desc_pointer_regs [OF ch]
    by (simp_all add: pair_val_def run_cmds_def data_cmds_def hdma_set_attr_regs [OF ch]
        hdma_enable_intr_regs [OF ch])
qed

lemma start_cmd_eq: "run_cmds env dev [Cmd_start] c g = Ev_write32 (r_doorbell (hc_ctx c)) 1 # g"
  by (simp add: run_cmds_def hdma_start_transfer_def access_defs)

lemma rung_ok:
  assumes "dev_channel dev n t c" and "window_ok dev g"
  shows "soc_writes dev ((if en = dma_enable then [Ev_write32 (r_doorbell (hc_ctx c)) 1] else []) @ g) = soc_writes dev g"
    "window_ok dev ((if en = dma_enable then [Ev_write32 (r_doorbell (hc_ctx c)) 1] else []) @ g)"
proof -
  have "bars_apart dev" using assms(2) by (simp add: window_ok_def)
  note Q = run_cmds_window [OF assms(1) this, where cs = "[Cmd_start]", unfolded start_cmd_eq]
  show "soc_writes dev ((if en = dma_enable then [Ev_write32 (r_doorbell (hc_ctx c)) 1] else []) @ g) = soc_writes dev g"
    "window_ok dev ((if en = dma_enable then [Ev_write32 (r_doorbell (hc_ctx c)) 1] else []) @ g)"
    using assms(2) Q by (simp_all add: window_ok_def window_inv_def)
qed

text \<open>The copy of the descriptor list up to its wait.\<close>

lemma tranfer_desc_rings:
  assumes "dev_channel dev n t c" and "tranfer_desc env dev c di h = (ret, c', h')"
  obtains g rv where "h' = spin_unlock (hc_lock c) (Ev_sleep (hc_wq c) rv # Ev_write32 (r_doorbell (hc_ctx c)) 1 # g)"
    "reg_val c DOORBELL g = reg_val c DOORBELL h" "pair_val c SAR_HIGH SAR_LOW g = Some (di_desc_addr di)"
    "pair_val c DAR_HIGH DAR_LOW g = Some (di_desc_device_addr di)"
    "reg_val c XFERSIZE g = Some (ucast (di_desc_size di))"
    "reg_val c CONTROL1 g = Some 0xd0000" "reg_val c INT_SETUP g = Some 0x3d"
    "(rv, hc_state c') = k_wait env (Ev_write32 (r_doorbell (hc_ctx c)) 1 # g) (hc_wq c) HDMA_TIMEOUT_LENGTH"
    "ret = (if rv = 0 then -1 else 0)"
proof -
  have ch: "is_channel (hdma_block dev) n t c" using assms(1) by (simp add: dev_channel_def)
  let ?g = "run_cmds env dev (butlast (desc_cmds di)) c (spin_lock (hc_lock c) h)"
  have run: "run_cmds env dev (desc_cmds di) c (spin_lock (hc_lock c) h) =
      Ev_write32 (r_doorbell (hc_ctx c)) 1 # ?g"
    by (simp add: run_cmds_def desc_cmds_def hdma_start_transfer_def access_defs)
  obtain rv st where w: "k_wait env (Ev_write32 (r_doorbell (hc_ctx c)) 1 # ?g) (hc_wq c) HDMA_TIMEOUT_LENGTH = (rv, st)"
    by fastforce
  have res: "h' = spin_unlock (hc_lock c) (Ev_sleep (hc_wq c) rv # Ev_write32 (r_doorbell (hc_ctx c)) 1 # ?g)"
    "ret = (if rv = 0 then -1 else 0)" "hc_state c' = st"
    using assms(2) by (auto simp: tranfer_desc_eq run w Let_def)
  show ?thesis
    by (rule that [OF res(1) _ _ _ _ _ _ _ res(2)])
      (simp_all add: w res(3), simp_all add: run_cmds_def desc_cmds_def set_xfer_data_regs [OF ch]
        hdma_set_attr_regs [OF ch] hdma_enable_intr_regs [OF ch])
qed

section \<open>A machine for the witnesses\<close>

definition demo_xfer_env :: "int \<Rightarrow> hdma_state \<Rightarrow> xfer_env" where
  "demo_xfer_env rv st =
     \<lparr>mmio_read32 = (\<lambda>_ _. 7), mmio_read16 = (\<lambda>_ _. 9), dyn_debug = False,
      k_alloc = (\<lambda>_ _. 0x1000), k_call = (\<lambda>_ _. 0), k_sizeof = (\<lambda>_. 32),
      k_gup = (\<lambda>_ _ n. (uint n, \<lambda>_. 0x7000)), k_sg_alloc_table = (\<lambda>_ _. 0),
      k_map_sg = (\<lambda>_ _ _. (1, \<lambda>i. (0x80000000 + 0x1000 * of_nat i, 0x1000))),
      k_user_reg_args = (\<lambda>_ _. None), k_fresh_reg_args = (\<lambda>_. demo_reg_args),
      k_copy_to_user = (\<lambda>_ _. True),
      k_fresh_cell = (\<lambda>_ _. (0xffffffff, 1, 2, 3, 4, 5)),
      k_map_single = (\<lambda>_ p _. p + 0x70000000), k_mapping_error = (\<lambda>a. a = 0),
      k_wait = (\<lambda>_ _ _. (rv, st))\<rparr>"

definition demo_reg_infos :: reg_infos where
  "demo_reg_infos = \<lparr>ri_reg_operation = 1, ri_num = 1,
     ri_write_data = \<lparr>rad_reg_addr = 0x48001000, rad_reg_data = 5\<rparr> # replicate 15 \<lparr>rad_reg_addr = 0, rad_reg_data = 0\<rparr>\<rparr>"

lemma demo_xfer_gup: "gup_counts (demo_xfer_env rv st)"
  by (simp add: gup_counts_def demo_xfer_env_def)

lemma demo_dev_channel: "dev_channel demo_device 3 0 demo_channel"
  by (simp add: dev_channel_def hdma_block_def HDMA_BASE_BAR_OFFSET_def bar_index_defs
      demo_device_def demo_is_channel)

lemma demo_wait: "k_wait (demo_xfer_env rv st) h q t = (rv, st)"
  by (simp add: demo_xfer_env_def)

lemma demo_xfer_setup: "fst (dpu_setup_sg (demo_xfer_env rv st) x pd a f h) = 0"
  by (simp add: dpu_setup_sg_def dpu_get_pages_def demo_xfer_env_def vmalloc_def kmalloc_def
      get_user_pages_fast_def u32_of_int_def Let_def)

lemma demo_desc_setup: "fst (set_hdma_desc (demo_xfer_env rv st) x di pd h) = 0"
  by (simp add: set_hdma_desc_def demo_xfer_env_def kmalloc_def Let_def)

lemma demo_setup_ex: "\<exists>x' h'. dpu_setup_sg (demo_xfer_env rv st) x pd a f h = (0, x', h')"
  using demo_xfer_setup [of rv st x pd a f h] by (cases "dpu_setup_sg (demo_xfer_env rv st) x pd a f h") auto

lemma demo_desc_ex: "\<exists>di' h'. set_hdma_desc (demo_xfer_env rv st) x di pd h = (0, di', h')"
  using demo_desc_setup [of rv st x di pd h] by (cases "set_hdma_desc (demo_xfer_env rv st) x di pd h") auto

section \<open>Properties\<close>

text \<open>
  C6: the descriptor list. When \<open>set_hdma_desc\<close> succeeds, the engine fetches one data element
  per scatter entry, then a link back to the head of the list in device memory: the host side of
  an element is the entry's DMA segment, the device side starts where the previous element
  ended, its length is the segment's, and only the last one raises interrupts. The size handed
  to the copy is that of all cells.
\<close>

theorem set_hdma_desc_chain:
  assumes "set_hdma_desc env x di pd h = (0, di', h')"
    and "xi_sglen x = of_nat (length es)" and "xi_sg x = es" and "length es + 1 < 2 ^ 32"
  shows "length (di_cells di') = length es + 1 \<and> unat (di_desc_size di') = 24 * (length es + 1) \<and>
    (\<forall>k < length es. fetch_element (di_cells di' ! k) =
      (let last = (k = length es - 1); l = dma_sum (take k es); e = es ! k in
       if xi_dir x = DMA_MEM_TO_DEV
       then Data (sg_dma_address e) (xj_dst (xi_align x) + l) (sg_dma_len e) True last last
       else Data (xj_src (xi_align x) + l) (sg_dma_address e) (sg_dma_len e) True last last)) \<and>
    fetch_element (di_cells di' ! length es) = Link (di_desc_device_addr di) True False"
  by (rule set_hdma_desc_cells [OF assms])

theorem set_hdma_desc_chain_witness:
  "\<exists>di' h'. set_hdma_desc (demo_xfer_env 1 TRANSFER_STATE_COMPLETED)
      (demo_xfer 0x2000\<lparr>xi_sglen := 2, xi_sg := [\<lparr>sg_page = 0, sg_length = 0x1000, sg_offset = 0,
          sg_dma_address = 0x80000000, sg_dma_len = 0x1000\<rparr>, \<lparr>sg_page = 0, sg_length = 0x1000, sg_offset = 0,
          sg_dma_address = 0x90000000, sg_dma_len = 0x1000\<rparr>]\<rparr>)
      (zero_desc_info\<lparr>di_desc_device_addr := 0x48010000\<rparr>) 0 [] = (0, di', h') \<and>
    fetch_element (di_cells di' ! 1) = Data 0x90000000 0x1000 0x1000 True True True \<and>
    fetch_element (di_cells di' ! 2) = Link 0x48010000 True False"
proof -
  let ?e = "\<lparr>sg_page = 0, sg_length = 0x1000, sg_offset = 0, sg_dma_address = 0x80000000, sg_dma_len = 0x1000\<rparr>"
  let ?f = "\<lparr>sg_page = 0, sg_length = 0x1000, sg_offset = 0, sg_dma_address = 0x90000000, sg_dma_len = 0x1000\<rparr>"
  let ?x = "demo_xfer 0x2000\<lparr>xi_sglen := 2, xi_sg := [?e, ?f]\<rparr>"
  obtain di' h' where s: "set_hdma_desc (demo_xfer_env 1 TRANSFER_STATE_COMPLETED) ?x (zero_desc_info\<lparr>di_desc_device_addr := 0x48010000\<rparr>) 0 [] = (0, di', h')"
    using demo_desc_ex by blast
  have "xi_sglen ?x = of_nat (length [?e, ?f])" "xi_sg ?x = [?e, ?f]" "length [?e, ?f] + 1 < 2 ^ 32"
    by simp_all
  note c = set_hdma_desc_chain [OF s this]
  note d = c [THEN conjunct2, THEN conjunct2, THEN conjunct1, THEN spec, of 1]
  have "length [?e, ?f] = 2" by simp
  note l = c [THEN conjunct2, THEN conjunct2, THEN conjunct2, unfolded this]
  have "xi_dir ?x = DMA_MEM_TO_DEV" "xj_dst (xi_align ?x) = 0"
    by (simp_all add: demo_xfer_def DMA_MEM_TO_DEV_def)
  then show ?thesis using s d l by (simp add: Let_def)
qed

text \<open>
  C14: copying the list to the device. \<open>tranfer_desc\<close> rings the doorbell of its channel once, when
  the channel's registers hold the list's bus address as source, its device address as
  destination, its size, single-block mode and the interrupt mask; it then waits, and returns -1
  exactly when the wait timed out. No lock is kept.
\<close>

theorem tranfer_desc_correct:
  assumes "dev_channel dev n t c" and "tranfer_desc env dev c di h = (ret, c', h')"
  shows "\<exists>g rv. h' = Ev_unlock (Spin (hc_lock c)) # Ev_sleep (hc_wq c) rv # Ev_write32 (r_doorbell (hc_ctx c)) 1 # g \<and>
    reg_val c DOORBELL g = reg_val c DOORBELL h \<and>
    pair_val c SAR_HIGH SAR_LOW g = Some (di_desc_addr di) \<and>
    pair_val c DAR_HIGH DAR_LOW g = Some (di_desc_device_addr di) \<and>
    reg_val c XFERSIZE g = Some (ucast (di_desc_size di)) \<and>
    reg_val c CONTROL1 g = Some 0xd0000 \<and> reg_val c INT_SETUP g = Some 0x3d \<and>
    (rv, hc_state c') = k_wait env (Ev_write32 (r_doorbell (hc_ctx c)) 1 # g) (hc_wq c) HDMA_TIMEOUT_LENGTH \<and>
    ret = (if rv = 0 then -1 else 0) \<and> locks h' = locks h"
proof -
  obtain g rv where g: "h' = spin_unlock (hc_lock c) (Ev_sleep (hc_wq c) rv # Ev_write32 (r_doorbell (hc_ctx c)) 1 # g)"
    "reg_val c DOORBELL g = reg_val c DOORBELL h" "pair_val c SAR_HIGH SAR_LOW g = Some (di_desc_addr di)"
    "pair_val c DAR_HIGH DAR_LOW g = Some (di_desc_device_addr di)"
    "reg_val c XFERSIZE g = Some (ucast (di_desc_size di))"
    "reg_val c CONTROL1 g = Some 0xd0000" "reg_val c INT_SETUP g = Some 0x3d"
    "(rv, hc_state c') = k_wait env (Ev_write32 (r_doorbell (hc_ctx c)) 1 # g) (hc_wq c) HDMA_TIMEOUT_LENGTH"
    "ret = (if rv = 0 then -1 else 0)"
    by (rule tranfer_desc_rings [OF assms])
  then show ?thesis using tranfer_desc_res(2) [OF assms(2)]
    by (intro exI [of _ g] exI [of _ rv]) (simp add: spin_unlock_def)
qed

theorem tranfer_desc_correct_witness:
  "\<exists>c' h'. tranfer_desc (demo_xfer_env 0 TRANSFER_STATE_RUNNING) demo_device demo_channel zero_desc_info [] = (-1, c', h') \<and>
    locks h' = {#}"
proof -
  obtain ret c' h' where r: "tranfer_desc (demo_xfer_env 0 TRANSFER_STATE_RUNNING) demo_device demo_channel zero_desc_info [] = (ret, c', h')"
    by (metis prod_cases3)
  from tranfer_desc_correct [OF demo_dev_channel r] have "ret = -1 \<and> locks h' = {#}"
    by (auto simp: demo_wait)
  with r show ?thesis by blast
qed

text \<open>
  C5: moving the data. \<open>dma_llmode_transmit\<close> sets the channel to link-list mode with the list's
  device address, then performs the user's register writes in order, each at its own device
  address, and only then rings the doorbell (if asked to) and waits. A write outside the
  register range stops it there: -1, no doorbell. No lock is kept on any path, and the window
  invariant holds.
\<close>

theorem dma_llmode_transmit_correct:
  assumes "window_ok dev h" and "dev_channel dev n t c"
    and "dma_llmode_transmit env dev c di en ri h = (ret, c', dev', h')"
  shows "window_ok dev' h' \<and> locks h' = locks h \<and>
    soc_writes dev' h' = rev (map (\<lambda>w. Soc_write32 (rad_reg_addr w) (rad_reg_data w))
      (takeWhile (\<lambda>w. in_reg_range (rad_reg_addr w)) (user_writes ri))) @ soc_writes dev h \<and>
    (if \<exists>w \<in> set (user_writes ri). \<not> in_reg_range (rad_reg_addr w)
     then ret = -1 \<and> reg_val c DOORBELL h' = reg_val c DOORBELL h
     else \<exists>g rv. h' = Ev_unlock (Spin (hc_lock c)) # Ev_sleep (hc_wq c) rv #
         (if en = dma_enable then [Ev_write32 (r_doorbell (hc_ctx c)) 1] else []) @ g \<and>
       soc_writes dev' g = soc_writes dev' h' \<and> reg_val c DOORBELL g = reg_val c DOORBELL h \<and>
       pair_val c LLP_HIGH LLP_LOW g = Some (di_desc_device_addr di) \<and>
       reg_val c CONTROL1 g = Some 3 \<and> reg_val c CYCLE g = Some 2 \<and> reg_val c INT_SETUP g = Some 0x18 \<and>
       (rv, hc_state c') = k_wait env ((if en = dma_enable then [Ev_write32 (r_doorbell (hc_ctx c)) 1] else []) @ g)
         (hc_wq c) HDMA_TIMEOUT_LENGTH \<and>
       ret = (if rv = 0 then -1 else 0))"
proof -
  let ?bell = "if en = dma_enable then [Ev_write32 (r_doorbell (hc_ctx c)) 1] else []"
  obtain rv1 dev1 g where w: "write_infos env (user_writes ri) dev
      (run_cmds env dev (data_cmds di) c (spin_lock (hc_lock c) h)) = (rv1, dev1, g)"
    by (metis prod_cases3)
  note L = llmode_prepared [OF assms(1,2) w]
  note locks = dma_llmode_transmit_res(2) [OF assms(3)]
  show ?thesis
  proof (cases "rv1 = 0")
    case False
    then have bad: "\<exists>w \<in> set (user_writes ri). \<not> in_reg_range (rad_reg_addr w)" "rv1 = -1"
      using L(1) by (auto split: if_splits)
    have r: "h' = spin_unlock (hc_lock c) g" "dev' = dev1" "ret = -1"
      using assms(3) False bad(2) by (simp_all add: dma_llmode_transmit_eq w Let_def)
    then show ?thesis using bad(1) L(2,4,5) locks by (simp add: window_ok_def window_inv_def)
  next
    case True
    then have good: "\<not> (\<exists>w \<in> set (user_writes ri). \<not> in_reg_range (rad_reg_addr w))"
      using L(1) by (auto split: if_splits)
    obtain rv st where k: "k_wait env (?bell @ g) (hc_wq c) HDMA_TIMEOUT_LENGTH = (rv, st)" by fastforce
    have r: "h' = spin_unlock (hc_lock c) (Ev_sleep (hc_wq c) rv # ?bell @ g)" "dev' = dev1"
      "ret = (if rv = 0 then -1 else 0)" "hc_state c' = st"
      using assms(3) True k
      by (cases "en = dma_enable"; auto simp: dma_llmode_transmit_eq w start_cmd_eq Let_def)+
    note B = rung_ok [OF L(3,2), of en]
    have "soc_writes dev' g = soc_writes dev' h'" "window_ok dev' h'"
      using B by (simp_all add: r window_ok_def window_inv_def)
    moreover have "(rv, hc_state c') = k_wait env (?bell @ g) (hc_wq c) HDMA_TIMEOUT_LENGTH"
      by (simp only: k r(4))
    moreover have "h' = Ev_unlock (Spin (hc_lock c)) # Ev_sleep (hc_wq c) rv # ?bell @ g"
      by (simp add: r spin_unlock_def)
    ultimately show ?thesis using good locks L(4-9) r(2,3)
      by (simp only: if_False simp_thms) (intro conjI exI [of _ g] exI [of _ rv]; simp)
  qed
qed

theorem dma_llmode_transmit_correct_witness:
  "\<exists>c' dev' h'. dma_llmode_transmit (demo_xfer_env 1 TRANSFER_STATE_COMPLETED) demo_device demo_channel zero_desc_info 1 demo_reg_infos []
      = (0, c', dev', h') \<and> soc_writes dev' h' = [Soc_write32 0x48001000 5]"
proof -
  obtain ret c' dev' h' where r: "dma_llmode_transmit (demo_xfer_env 1 TRANSFER_STATE_COMPLETED) demo_device demo_channel zero_desc_info 1 demo_reg_infos []
      = (ret, c', dev', h')" by (metis prod_cases4)
  have u: "user_writes demo_reg_infos = [\<lparr>rad_reg_addr = 0x48001000, rad_reg_data = 5\<rparr>]"
    by (simp add: user_writes_def demo_reg_infos_def reg_enable_def REG_OPERATION_MAX_NUM_def)
  have v: "in_reg_range 0x48001000" by (simp add: in_reg_range_def REGS_ADDR_MIN_def REGS_ADDR_MAX_def)
  have "ret = 0"
    using dma_llmode_transmit_correct [OF demo_window_ok demo_dev_channel r] by (auto simp: u v demo_wait)
  then show ?thesis
    using dma_llmode_transmit_correct [OF demo_window_ok demo_dev_channel r] r
    by (simp add: u v soc_writes_def)
qed



text \<open>
  C30: time-outs. When the device never answers, an inbound transfer never reports success, but an
  outbound one reports success as soon as its buffer could be pinned: its error exits return a
  variable that is always 0.
\<close>

theorem hdma_timeout_results:
  assumes "\<And>h q t. fst (k_wait env h q t) = 0"
    and "eon_hdma_inbound env dev c src dst n a en ri h = (ret, c1, dev1, h1)"
    and "eon_hdma_outbound env dev c cd dst src n a en ri h = (ret2, c2, cd2, dev2, h2)"
  shows "ret \<noteq> 0 \<and> (ret2 = 0 \<longleftrightarrow> fst (dpu_setup_sg env (outbound_info dst src n) (pdev dev) dst 1 h) = 0)"
proof
  show "ret \<noteq> 0"
    using assms(2)
  proof (cases rule: inbound_cases)
    case (data x' g1 di g2 c1 g3 g4)
    then show ?thesis using assms(1) by (simp add: tranfer_desc_eq case_prod_beta Let_def)
  qed
  show "ret2 = 0 \<longleftrightarrow> fst (dpu_setup_sg env (outbound_info dst src n) (pdev dev) dst 1 h) = 0"
    using assms(3) by (cases rule: outbound_cases) simp_all
qed

theorem hdma_timeout_results_witness:
  "\<exists>c2 cd2 dev2 h2. eon_hdma_outbound (demo_xfer_env 0 TRANSFER_STATE_RUNNING) demo_device demo_channel
      demo_channel 0x1ffe 0x50000000 4 0x48010000 1 demo_reg_infos [] = (0, c2, cd2, dev2, h2)"
proof -
  let ?env = "demo_xfer_env 0 TRANSFER_STATE_RUNNING"
  obtain ret c1 dev1 h1 where i: "eon_hdma_inbound ?env demo_device demo_channel
      0x50000000 0x1ffe 4 0x48010000 1 demo_reg_infos [] = (ret, c1, dev1, h1)"
    by (metis prod_cases4)
  obtain ret2 c2 cd2 dev2 h2 where o: "eon_hdma_outbound ?env demo_device demo_channel demo_channel
      0x1ffe 0x50000000 4 0x48010000 1 demo_reg_infos [] = (ret2, c2, cd2, dev2, h2)"
    by (metis prod_cases5)
  have "fst (k_wait ?env h q t) = 0" for h q t by (simp add: demo_wait)
  from hdma_timeout_results [OF this i o] have "ret2 = 0" by (simp add: demo_xfer_setup)
  with o show ?thesis by blast
qed

text \<open>
  C31: a signal counts as success. When both waits are interrupted while the engine is still
  running, an inbound transfer returns 0 although the channel's state is still running, and the
  buffer it reads from and the descriptor memory are already given back.
\<close>

theorem hdma_signal_is_success:
  assumes "\<And>h q t. k_wait env h q t = (-512, TRANSFER_STATE_RUNNING)"
    and "gup_counts env"
    and "dpu_setup_sg env (inbound_info src dst n) (pdev dev) src 1 h = (0, x, g1)"
    and "set_hdma_desc env x (inbound_desc a) (pdev dev) g1 = (0, di, g2)"
    and "user_writes ri = []"
    and "eon_hdma_inbound env dev c src dst n a en ri h = (ret, c', dev', h')"
  shows "ret = 0 \<and> hc_state c' = TRANSFER_STATE_RUNNING \<and> balanced h x h'"
  using assms(6)
proof (cases rule: inbound_cases)
  case (data x' h1 di' h2 c1 h3 h4)
  then have eq: "x' = x" "h1 = g1" "di' = di" "h2 = g2" using assms(3,4) by simp_all
  have "res_same g2 h4" "locks h4 = locks g2"
    using tranfer_desc_res [OF data(3)] dma_llmode_transmit_res [OF data(4)] eq
    by (auto intro: res_same_trans)
  from balanced_teardown [OF assms(2,3) desc_teardown_same [OF assms(4) this]]
  have "balanced h x h'" using data(5) eq by simp
  then show ?thesis
    using data(4) assms(1,5) by (auto simp: dma_llmode_transmit_eq Let_def)
next
  case (copy x' h1 di' h2 h3)
  then show ?thesis using assms(1) by (simp add: tranfer_desc_eq Let_def)
qed (use assms(3,4) in simp_all)

theorem hdma_signal_is_success_witness:
  "\<exists>c' dev' h'. eon_hdma_inbound (demo_xfer_env (-512) TRANSFER_STATE_RUNNING) demo_device demo_channel
      0x1ffe 0x50000000 4 0x48010000 1 (demo_reg_infos\<lparr>ri_num := 0\<rparr>) [] = (0, c', dev', h') \<and>
    hc_state c' = TRANSFER_STATE_RUNNING"
proof -
  let ?env = "demo_xfer_env (-512) TRANSFER_STATE_RUNNING" and ?ri = "demo_reg_infos\<lparr>ri_num := 0\<rparr>"
  obtain ret c' dev' h' where i: "eon_hdma_inbound ?env demo_device demo_channel
      0x1ffe 0x50000000 4 0x48010000 1 ?ri [] = (ret, c', dev', h')"
    by (metis prod_cases4)
  obtain x g1 where s: "dpu_setup_sg ?env (inbound_info 0x1ffe 0x50000000 4) (pdev demo_device) 0x1ffe 1 [] = (0, x, g1)"
    using demo_setup_ex by blast
  obtain di g2 where d: "set_hdma_desc ?env x (inbound_desc 0x48010000) (pdev demo_device) g1 = (0, di, g2)"
    using demo_desc_ex by blast
  have "user_writes ?ri = []" by (simp add: user_writes_def)
  from hdma_signal_is_success [OF demo_wait demo_xfer_gup s d this i] i show ?thesis by blast
qed

text \<open>
  C32: the copy of the descriptor list always waits while it holds the channel's spin lock, which
  must not sleep.
\<close>

theorem tranfer_desc_sleeps_in_atomic:
  "sleeps_in_atomic (snd (snd (tranfer_desc env dev c di h)))"
  by (simp add: tranfer_desc_eq case_prod_beta Let_def spin_unlock_def cmds.op_frame_kernel
      spin_lock_def)

end
