(* ===== verification/Eon_Ioctl.thy ===== *)
theory Eon_Ioctl
  imports Eon_Transfer
begin

text \<open>
  The character device (\<open>test_dev.c\<close>): \<open>device_open\<close>, \<open>device_release\<close>, \<open>device_read\<close>,
  \<open>device_write\<close>, \<open>eon_hdma\<close>, \<open>device_ioctl\<close>, \<open>char_dev_init\<close>, \<open>char_dev_fini\<close>. A use of
  a NULL channel or device pointer is the result \<open>None\<close>.
\<close>

section \<open>Data\<close>

record hdma_mem_args =
  ma_host_addr :: u64
  ma_device_addr :: u64
  ma_mem_size :: u64
  ma_desc_addr :: u64
  ma_hdma_id :: u32
  ma_op :: u32
  ma_enable :: u32
  ma_regs :: reg_infos

definition COMMAND_HDMA_INBOUND :: u32 where
  "COMMAND_HDMA_INBOUND = 1"

definition COMMAND_HDMA_OUTBOUND :: u32 where
  "COMMAND_HDMA_OUTBOUND = 2"

text \<open>
  \<open>_IOWR('S', n, T)\<close>: both direction bits, the size of \<open>T\<close> (328 and 32 bytes on a 64-bit
  machine), the letter and the number.
\<close>

definition IOWR :: "u32 \<Rightarrow> u32 \<Rightarrow> u32 \<Rightarrow> u32" where
  "IOWR t nr sz = push_bit 30 3 OR push_bit 16 sz OR push_bit 8 t OR nr"

definition EON_IOCTL_HDMA :: u32 where
  "EON_IOCTL_HDMA = IOWR 0x53 0x03 328"

definition EON_IOCTL_IATU :: u32 where
  "EON_IOCTL_IATU = IOWR 0x53 0x04 32"

record cdev_env = xfer_env +
  k_user_mem_args :: "hist \<Rightarrow> u64 \<Rightarrow> hdma_mem_args option"
  k_fresh_mem_args :: "hist \<Rightarrow> hdma_mem_args"
  k_device_create :: "hist \<Rightarrow> u32 \<Rightarrow> u64"

text \<open>An open file: what the driver keeps in it.\<close>

record eon_file =
  private_data :: u64

text \<open>What an ioctl stores in user memory.\<close>

datatype reply = No_reply | Reg_reply dpu_reg_args | Mem_reply hdma_mem_args

section \<open>Open, release, read, write\<close>

definition device_open :: "char_dev_ctx \<Rightarrow> eon_file \<Rightarrow> int \<times> eon_file" where
  "device_open cdev filp =
     (let dpu_dev = cc_dpu_dev cdev; filp = filp\<lparr>private_data := dpu_dev\<rparr> in (0, filp))"

definition device_release :: "eon_file \<Rightarrow> int option" where
  "device_release filp = (let dpu_dev = private_data filp in if dpu_dev = 0 then None else Some 0)"

definition device_read :: "eon_file \<Rightarrow> u64 \<Rightarrow> u64 \<Rightarrow> int" where
  "device_read filp buf cnt = 0"

definition device_write :: "eon_file \<Rightarrow> u64 \<Rightarrow> u64 \<Rightarrow> int" where
  "device_write filp buf cnt = 0"

section \<open>The ioctls\<close>

definition eon_hdma ::
  "'a cdev_env_scheme \<Rightarrow> eon_device \<Rightarrow> u32 \<Rightarrow> u64 \<Rightarrow> hist \<Rightarrow>
   (int \<times> hdma_mem_args option \<times> eon_device \<times> hist) option" where
  "eon_hdma env dpu_dev cmd args h =
     (let (p, h) = kmalloc env (k_sizeof env ''struct hdma_mem_args'') h in
      if p = 0 then Some (-1, None, dpu_dev, h)
      else
        let copied = (if cmd AND IOC_IN \<noteq> 0 then k_user_mem_args env h args
                      else Some (k_fresh_mem_args env h))
        in case copied of
          None \<Rightarrow> Some (-2, None, dpu_dev, kfree p h)
        | Some hdma_args \<Rightarrow>
            if unat (ma_hdma_id hdma_args) \<ge> MAX_HDMA_NUMBER then Some (-1, None, dpu_dev, h)
            else
              let n = unat (ma_hdma_id hdma_args);
                  result =
                    (if ma_op hdma_args = COMMAND_HDMA_INBOUND then
                       (case hdmar dpu_dev n of None \<Rightarrow> None
                        | Some hdma_dev \<Rightarrow>
                          let (ret, hdma_dev, dpu_dev, h) =
                                eon_hdma_inbound env dpu_dev hdma_dev (ma_host_addr hdma_args)
                                  (ma_device_addr hdma_args) (ma_mem_size hdma_args)
                                  (ma_desc_addr hdma_args) (ma_enable hdma_args) (ma_regs hdma_args) h
                          in Some (ret, dpu_dev\<lparr>hdmar := (hdmar dpu_dev)(n := Some hdma_dev)\<rparr>, h))
                     else if ma_op hdma_args = COMMAND_HDMA_OUTBOUND then
                       (case (hdmaw dpu_dev n, hdmar dpu_dev n) of
                          (Some hdma_dev, Some hdma_dev_desc) \<Rightarrow>
                            let (ret, hdma_dev, hdma_dev_desc, dpu_dev, h) =
                                  eon_hdma_outbound env dpu_dev hdma_dev hdma_dev_desc
                                    (ma_host_addr hdma_args) (ma_device_addr hdma_args)
                                    (ma_mem_size hdma_args) (ma_desc_addr hdma_args)
                                    (ma_enable hdma_args) (ma_regs hdma_args) h
                            in Some (ret, dpu_dev\<lparr>hdmaw := (hdmaw dpu_dev)(n := Some hdma_dev),
                                   hdmar := (hdmar dpu_dev)(n := Some hdma_dev_desc)\<rparr>, h)
                        | _ \<Rightarrow> None)
                     else Some (0, dpu_dev, h))
              in case result of
                None \<Rightarrow> None
              | Some (ret, dpu_dev, h) \<Rightarrow>
                  let (ret, out) =
                        (if ret = 0 \<and> cmd AND IOC_OUT \<noteq> 0
                         then (if k_copy_to_user env h args then (0, Some hdma_args) else (-3, None))
                         else (ret, None))
                  in Some (ret, out, dpu_dev, kfree p h))"

definition device_ioctl ::
  "'a cdev_env_scheme \<Rightarrow> eon_device \<Rightarrow> u32 \<Rightarrow> u64 \<Rightarrow> hist \<Rightarrow>
   (int \<times> reply \<times> eon_device \<times> hist) option" where
  "device_ioctl env dpu_dev cmd arg h =
     (if cmd = EON_IOCTL_HDMA then
        (case eon_hdma env dpu_dev cmd arg h of None \<Rightarrow> None
         | Some (ret, out, dpu_dev, h) \<Rightarrow>
             Some (ret, case out of None \<Rightarrow> No_reply | Some a \<Rightarrow> Mem_reply a, dpu_dev, h))
      else if cmd = EON_IOCTL_IATU then
        let (ret, out, dpu_dev, h) = eon_rw_reg env dpu_dev cmd arg h
        in Some (ret, case out of None \<Rightarrow> No_reply | Some a \<Rightarrow> Reg_reply a, dpu_dev, h)
      else Some (- ENOTTY, No_reply, dpu_dev, h))"

section \<open>Creating and removing the character device\<close>

text \<open>
  \<open>device_create\<close> returns an error pointer on failure; \<open>device_destroy\<close> of a device that does
  not exist does nothing.
\<close>

definition IS_ERR :: "u64 \<Rightarrow> bool" where
  "IS_ERR p \<longleftrightarrow> p \<ge> 0xfffffffffffff001"

definition device_destroy :: "u32 \<Rightarrow> hist \<Rightarrow> hist" where
  "device_destroy n h = (if Res_char_device n \<in># held h then Ev_release (Res_char_device n) # h else h)"

text \<open>
  On the error exits \<open>ctx\<close> is not freed, and when \<open>device_create\<close> gives NULL the result is that
  of \<open>cdev_add\<close>, 0 or positive.
\<close>

definition char_dev_init ::
  "'a cdev_env_scheme \<Rightarrow> eon_device \<Rightarrow> hist \<Rightarrow> int \<times> eon_device \<times> hist" where
  "char_dev_init env eon h =
     (let (ctx, h) = kmalloc env (k_sizeof env ''struct char_dev_ctx'') h in
      if ctx = 0 then (- EPERM, eon, h)
      else
        let ret = k_call env h ''cdev_add''; h = Ev_call ''cdev_add'' ret # h in
        if ret < 0 then (ret, eon, h)
        else
          let h = Ev_acquire (Res_cdev ctx) # h;
              (name, h) = kmalloc env (k_sizeof env ''name'') h;
              char_dev = k_device_create env h (dpu_id eon)
          in if char_dev = 0 then (ret, eon, Ev_release (Res_cdev ctx) # kfree name h)
          else
            let h = (if IS_ERR char_dev then h else Ev_acquire (Res_char_device (dpu_id eon)) # h);
                h = kfree name h
            in (0, eon\<lparr>char_ctx := Some \<lparr>cc_ptr = ctx, cc_char_dev = char_dev, cc_dpu_dev = dev_ptr eon\<rparr>\<rparr>, h))"

definition char_dev_fini :: "eon_device \<Rightarrow> hist \<Rightarrow> (int \<times> hist) option" where
  "char_dev_fini eon h =
     (let h = device_destroy (dpu_id eon) h in
      case char_ctx eon of None \<Rightarrow> None
      | Some ctx \<Rightarrow> Some (0, Ev_release (Res_cdev (cc_ptr ctx)) # h))"

section \<open>Kernel-only steps\<close>

text \<open>Events that are not device accesses.\<close>

fun kernel_event :: "event \<Rightarrow> bool" where
  "kernel_event (Ev_write32 _ _) = False"
| "kernel_event (Ev_read32 _ _) = False"
| "kernel_event (Ev_write16 _ _) = False"
| "kernel_event (Ev_read16 _ _) = False"
| "kernel_event _ = True"

definition kernel_only :: "hist \<Rightarrow> hist \<Rightarrow> bool" where
  "kernel_only h h' \<longleftrightarrow> (\<exists>g. h' = g @ h \<and> (\<forall>e \<in> set g. kernel_event e))"

lemma kernel_only_refl [simp]: "kernel_only h h"
  by (simp add: kernel_only_def)

lemma kernel_only_Cons [simp]: "kernel_event e \<Longrightarrow> kernel_only h h' \<Longrightarrow> kernel_only h (e # h')"
  unfolding kernel_only_def by (metis append_Cons set_ConsD)

lemma kernel_only_trans: "kernel_only h1 h2 \<Longrightarrow> kernel_only h2 h3 \<Longrightarrow> kernel_only h1 h3"
  unfolding kernel_only_def by (metis Un_iff append.assoc set_append)

lemma kernel_event_frames:
  assumes "kernel_event e"
  shows "soc_view dev (e # h) = soc_view dev h" "atu_target dev d n (e # h) = atu_target dev d n h"
    "reg_val c r (e # h) = reg_val c r h"
  using assms by (cases e; simp add: atu_frames reg_val_def)+

lemma kernel_only_frames:
  assumes "kernel_only h h'"
  shows "soc_view dev h' = soc_view dev h" "atu_target dev d n h' = atu_target dev d n h"
    "reg_val c r h' = reg_val c r h"
proof -
  have "\<forall>e \<in> set g. kernel_event e \<Longrightarrow> soc_view dev (g @ h) = soc_view dev h \<and>
      atu_target dev d n (g @ h) = atu_target dev d n h \<and> reg_val c r (g @ h) = reg_val c r h" for g
    by (induction g) (simp_all add: kernel_event_frames)
  then show "soc_view dev h' = soc_view dev h" "atu_target dev d n h' = atu_target dev d n h"
    "reg_val c r h' = reg_val c r h" using assms unfolding kernel_only_def by blast+
qed

lemma kernel_only_memory [simp]:
  "kernel_only h h' \<Longrightarrow> kernel_only h (vfree p h')" "kernel_only h h' \<Longrightarrow> kernel_only h (kfree p h')"
  "kernel_only h h' \<Longrightarrow> kernel_only h (sg_free_table p h')"
  "kernel_only h h' \<Longrightarrow> kernel_only h (put_page p h')"
  by (simp_all add: vfree_def kfree_def sg_free_table_def put_page_def)

lemma kernel_only_put_each [simp]: "kernel_only h h' \<Longrightarrow> kernel_only h (put_each ps h')"
  by (induction ps arbitrary: h') simp_all

lemma kernel_only_put_pages [simp]:
  "kernel_only h h' \<Longrightarrow> kernel_only h (snd (dpu_put_pages i h'))"
  by (simp add: dpu_put_pages_def Let_def split: option.split)

lemma kernel_only_alloc:
  "vmalloc env n h = (p, h') \<Longrightarrow> kernel_only h h'" "kmalloc env n h = (p, h') \<Longrightarrow> kernel_only h h'"
  by (auto simp: vmalloc_def kmalloc_def Let_def split: if_splits)

lemma kernel_only_gup: "get_user_pages_fast env a n h = (r, p, h') \<Longrightarrow> kernel_only h h'"
  by (auto simp: get_user_pages_fast_def kernel_only_def split: prod.splits)

lemmas kernel_only_steps = kernel_only_trans [OF _ kernel_only_alloc(1)]
  kernel_only_trans [OF _ kernel_only_alloc(2)] kernel_only_trans [OF _ kernel_only_gup]

lemma dpu_get_pages_only:
  assumes "dpu_get_pages env a n i h = (r, i', h')"
  shows "kernel_only h h'"
proof (cases i)
  case None
  then show ?thesis using assms by (simp add: dpu_get_pages_def)
next
  case (Some x)
  obtain b h1 where v: "vmalloc env (get_pages_nr a n * 16) h = (b, h1)" by fastforce
  obtain t h2 where w: "vmalloc env (ucast (ucast (get_pages_nr a n) :: u32) * 8) h1 = (t, h2)" by fastforce
  obtain e ps h3 where g: "get_user_pages_fast env a (ucast (get_pages_nr a n)) h2 = (e, ps, h3)"
    by (metis prod_cases3)
  have k: "kernel_only h h1" "kernel_only h h2" "kernel_only h h3"
    using kernel_only_alloc(1) [OF v] kernel_only_alloc(1) [OF w] kernel_only_gup [OF g]
    by (blast intro: kernel_only_trans)+
  show ?thesis using assms k
    by (auto simp: Some dpu_get_pages_def v w g Let_def split: if_splits)
qed

lemma dpu_setup_sg_only:
  assumes "dpu_setup_sg env x pd a f h = (r, x', h')"
  shows "kernel_only h h'"
proof -
  obtain r1 i h1 where g: "dpu_get_pages env a (xi_size x) (Some (xi_hmem_info x)) h = (r1, i, h1)"
    by (metis prod_cases3)
  obtain sgt h2 where k: "kmalloc env (k_sizeof env ''struct sg_table'') h1 = (sgt, h2)" by fastforce
  have o: "kernel_only h h1" "kernel_only h h2"
    using dpu_get_pages_only [OF g] kernel_only_alloc(2) [OF k] by (blast intro: kernel_only_trans)+
  show ?thesis using assms o
    by (auto simp: dpu_setup_sg_def g k Let_def split: if_splits prod.splits)
qed

lemma dpu_teardown_sg_only [simp]:
  "kernel_only h h' \<Longrightarrow> kernel_only h (dpu_teardown_sg x h')"
  by (simp add: dpu_teardown_sg_def Let_def)

lemma set_hdma_desc_only:
  assumes "set_hdma_desc env x di pd h = (r, di', h')"
  shows "kernel_only h h'"
  using assms by (cases rule: set_hdma_desc_cases) (auto dest: kernel_only_alloc(2))

lemma teardown_dma_desc_only [simp]:
  "kernel_only h h' \<Longrightarrow> kernel_only h (teardown_dma_desc pd di h')"
  by (simp add: teardown_dma_desc_def)

section \<open>The device invariant\<close>

text \<open>
  What every ioctl relies on and keeps: the window invariant, and a context for every channel that
  holds the addresses of that channel's registers.
\<close>

definition chan_inv :: "eon_device \<Rightarrow> bool" where
  "chan_inv dev \<longleftrightarrow> (\<forall>i < MAX_HDMA_NUMBER.
     (\<exists>c. hdmar dev i = Some c \<and> dev_channel dev (of_nat i) 0 c) \<and>
     (\<exists>c. hdmaw dev i = Some c \<and> dev_channel dev (of_nat i) 1 c))"

definition dev_inv :: "eon_device \<Rightarrow> hist \<Rightarrow> bool" where
  "dev_inv dev h \<longleftrightarrow> window_ok dev h \<and> chan_inv dev"

lemma window_ok_only: "kernel_only h h' \<Longrightarrow> window_ok dev h \<Longrightarrow> window_ok dev h'"
  by (simp add: window_ok_def window_inv_def kernel_only_frames)

lemma dev_channel_cong:
  "bar dev' = bar dev \<Longrightarrow> hc_ctx c' = hc_ctx c \<Longrightarrow> dev_channel dev' n t c' = dev_channel dev n t c"
  by (simp add: dev_channel_def hdma_block_def is_channel_def)

lemma config_self [simp]: "\<exists>x. dev = dev\<lparr>config_bar_base := x\<rparr>"
  by (rule exI [of _ "config_bar_base dev"]) simp

lemma regs_operations_dev:
  assumes "regs_operations env dev q h = (ret, q', dev', h')"
  shows "\<exists>x. dev' = dev\<lparr>config_bar_base := x\<rparr>"
  using assms
  by (auto simp: regs_operations_def slide_window_eq Let_def split: if_splits prod.splits)

lemma write_infos_dev:
  "write_infos env ws dev h = (ret, dev', h') \<Longrightarrow> \<exists>x. dev' = dev\<lparr>config_bar_base := x\<rparr>"
proof (induction ws arbitrary: dev h)
  case Nil
  then have "dev' = dev\<lparr>config_bar_base := config_bar_base dev\<rparr>" by simp
  then show ?case ..
next
  case (Cons w ws)
  let ?q = "\<lparr>ra_reg_addr = rad_reg_addr w, ra_reg_data = rad_reg_data w, ra_rw_flag = REG_WRITE\<rparr>"
  obtain e q dev1 h1 where o: "regs_operations env dev ?q h = (e, q, dev1, h1)" by (metis prod_cases4)
  obtain x where x: "dev1 = dev\<lparr>config_bar_base := x\<rparr>" using regs_operations_dev [OF o] by blast
  show ?case
  proof (cases "e = 0")
    case True
    then have "write_infos env ws dev1 h1 = (ret, dev', h')" using Cons.prems by (simp add: o)
    from Cons.IH [OF this] x show ?thesis by auto
  next
    case False
    then show ?thesis using Cons.prems x by (auto simp: o)
  qed
qed

lemma window_ok_sleep [simp]: "window_ok dev (Ev_sleep q i # h) = window_ok dev h"
  "window_ok dev (spin_lock l h) = window_ok dev h" "window_ok dev (spin_unlock l h) = window_ok dev h"
  by (simp_all add: window_ok_def window_inv_def)

lemma run_cmds_window_ok:
  assumes "dev_channel dev n t c" and "window_ok dev h"
  shows "window_ok dev (run_cmds env dev' cs c h)"
proof -
  have "bars_apart dev" using assms(2) by (simp add: window_ok_def)
  then show ?thesis using assms(2)
    by (simp add: window_ok_def window_inv_def run_cmds_window(2) [OF assms(1)])
qed

lemma tranfer_desc_keeps:
  assumes "tranfer_desc env dev c di h = (ret, c', h')" and "dev_channel dev n t c" and "window_ok dev h"
  shows "window_ok dev h'" "hc_ctx c' = hc_ctx c"
  using assms(1,3)
  by (auto simp: tranfer_desc_eq Let_def run_cmds_window_ok [OF assms(2)] split: prod.splits)

lemma dma_llmode_keeps:
  assumes "dma_llmode_transmit env dev c di en ri h = (ret, c', dev', h')"
    and "dev_channel dev n t c" and "window_ok dev h"
  shows "window_ok dev' h'" "hc_ctx c' = hc_ctx c" "\<exists>x. dev' = dev\<lparr>config_bar_base := x\<rparr>"
proof -
  let ?p = "run_cmds env dev (data_cmds di) c (spin_lock (hc_lock c) h)"
  obtain rv dev1 g where w: "write_infos env (user_writes ri) dev ?p = (rv, dev1, g)"
    by (metis prod_cases3)
  have p: "window_ok dev ?p" using assms(3) by (simp add: run_cmds_window_ok [OF assms(2)])
  note W = write_infos_ok(2) [OF p w] write_infos_dev [OF w]
  then obtain x where x: "dev1 = dev\<lparr>config_bar_base := x\<rparr>" by blast
  have ch: "dev_channel dev1 n t c" using assms(2) by (simp add: x dev_channel_def hdma_block_def)
  have bell: "window_ok dev1 (run_cmds env dev1 [Cmd_start] c g)"
    by (rule run_cmds_window_ok [OF ch W(1)])
  have "window_ok dev' h' \<and> hc_ctx c' = hc_ctx c \<and> dev' = dev1"
    using assms(1) W(1) bell
    by (auto simp: dma_llmode_transmit_eq w Let_def split: prod.splits if_splits)
  with x show "window_ok dev' h'" "hc_ctx c' = hc_ctx c" "\<exists>x. dev' = dev\<lparr>config_bar_base := x\<rparr>"
    by auto
qed

lemma inbound_keeps:
  assumes "eon_hdma_inbound env dev c src dst n a en ri h = (ret, c', dev', h')"
    and "dev_channel dev m t c" and "window_ok dev h"
  shows "window_ok dev' h' \<and> hc_ctx c' = hc_ctx c \<and> (\<exists>x. dev' = dev\<lparr>config_bar_base := x\<rparr>)"
proof -
  obtain r1 x h1 where s: "dpu_setup_sg env (inbound_info src dst n) (pdev dev) src 1 h = (r1, x, h1)"
    by (metis prod_cases3)
  obtain r2 di h2 where e: "set_hdma_desc env x (inbound_desc a) (pdev dev) h1 = (r2, di, h2)"
    by (metis prod_cases3)
  obtain r3 c1 h3 where t: "tranfer_desc env dev c di h2 = (r3, c1, h3)" by (metis prod_cases3)
  obtain r4 c2 dev1 h4 where l: "dma_llmode_transmit env dev c1 di en ri h3 = (r4, c2, dev1, h4)"
    by (metis prod_cases4)
  have w: "window_ok dev h1" "window_ok dev h2"
    using assms(3) dpu_setup_sg_only [OF s] set_hdma_desc_only [OF e] by (blast intro: window_ok_only)+
  note T = tranfer_desc_keeps [OF t assms(2) w(2)]
  have "dev_channel dev m t c1" using assms(2) T(2) by (simp add: dev_channel_cong [OF refl T(2)])
  note L = dma_llmode_keeps [OF l this T(1)]
  have tear: "window_ok d (dpu_teardown_sg x g)" "window_ok d (dpu_teardown_sg x (teardown_dma_desc pd di g))"
    if "window_ok d g" for d g pd
    using that by (auto intro: window_ok_only [of g])
  show ?thesis
    using assms(1) w T L tear s e t l
    by (auto simp: eon_hdma_inbound_def Let_def simp flip: inbound_info_def inbound_desc_def
        split: if_splits)
qed

lemma outbound_keeps:
  assumes "eon_hdma_outbound env dev c cd dst src n a en ri h = (ret, c', cd', dev', h')"
    and "dev_channel dev m t c" and "dev_channel dev m2 t2 cd" and "window_ok dev h"
  shows "window_ok dev' h' \<and> hc_ctx c' = hc_ctx c \<and> hc_ctx cd' = hc_ctx cd \<and>
    (\<exists>x. dev' = dev\<lparr>config_bar_base := x\<rparr>)"
proof -
  obtain r1 x h1 where s: "dpu_setup_sg env (outbound_info dst src n) (pdev dev) dst 1 h = (r1, x, h1)"
    by (metis prod_cases3)
  obtain r2 di h2 where e: "set_hdma_desc env x (outbound_desc a) (pdev dev) h1 = (r2, di, h2)"
    by (metis prod_cases3)
  obtain r3 c1 h3 where t: "tranfer_desc env dev cd di h2 = (r3, c1, h3)" by (metis prod_cases3)
  obtain r4 c2 dev1 h4 where l: "dma_llmode_transmit env dev c di en ri h3 = (r4, c2, dev1, h4)"
    by (metis prod_cases4)
  have w: "window_ok dev h1" "window_ok dev h2"
    using assms(4) dpu_setup_sg_only [OF s] set_hdma_desc_only [OF e] by (blast intro: window_ok_only)+
  note T = tranfer_desc_keeps [OF t assms(3) w(2)]
  note L = dma_llmode_keeps [OF l assms(2) T(1)]
  have tear: "window_ok d (dpu_teardown_sg x g)" "window_ok d (dpu_teardown_sg x (teardown_dma_desc pd di g))"
    if "window_ok d g" for d g pd
    using that by (auto intro: window_ok_only [of g])
  show ?thesis
    using assms(1) w T L tear s e t l
    by (auto simp: eon_hdma_outbound_def Let_def simp flip: outbound_info_def outbound_desc_def
        split: if_splits)
qed

section \<open>The ioctls keep the invariant\<close>

lemma inbound_locks:
  assumes "eon_hdma_inbound env dev c src dst n a en ri h = (ret, c', dev', h')"
  shows "locks h' = locks h"
  using assms
  by (cases rule: inbound_cases)
    (auto simp: teardown_dma_desc_def dest!: dpu_setup_sg_locks set_hdma_desc_res(3) tranfer_desc_res(2)
      dma_llmode_transmit_res(2))

lemma outbound_locks:
  assumes "eon_hdma_outbound env dev c cd dst src n a en ri h = (ret, c', cd', dev', h')"
  shows "locks h' = locks h"
  using assms
  by (cases rule: outbound_cases)
    (auto simp: teardown_dma_desc_def dest!: dpu_setup_sg_locks set_hdma_desc_res(3) tranfer_desc_res(2)
      dma_llmode_transmit_res(2))

lemma ioctl_bits [simp]:
  "EON_IOCTL_HDMA AND IOC_IN \<noteq> 0" "EON_IOCTL_HDMA AND IOC_OUT \<noteq> 0"
  "EON_IOCTL_IATU AND IOC_IN \<noteq> 0" "EON_IOCTL_IATU AND IOC_OUT \<noteq> 0" "EON_IOCTL_IATU \<noteq> EON_IOCTL_HDMA"
  by (simp_all add: EON_IOCTL_HDMA_def EON_IOCTL_IATU_def IOWR_def IOC_IN_def IOC_OUT_def)

lemma chan_inv_config [simp]: "chan_inv (dev\<lparr>config_bar_base := x\<rparr>) = chan_inv dev"
  by (simp add: chan_inv_def dev_channel_def hdma_block_def)

lemma window_ok_chans [simp]:
  "window_ok (dev\<lparr>hdmar := f\<rparr>) h = window_ok dev h" "window_ok (dev\<lparr>hdmaw := f\<rparr>) h = window_ok dev h"
  by (simp_all add: window_ok_def window_inv_def bars_apart_def window_off_def atu_target_def
      atu_reg_val_def atu_base_def)

lemma chan_inv_put:
  assumes "chan_inv dev"
  shows "hdmar dev i = Some c \<Longrightarrow> hc_ctx c' = hc_ctx c \<Longrightarrow>
      chan_inv (dev\<lparr>hdmar := (hdmar dev)(i := Some c')\<rparr>)"
    "hdmaw dev i = Some c \<Longrightarrow> hc_ctx c' = hc_ctx c \<Longrightarrow>
      chan_inv (dev\<lparr>hdmaw := (hdmaw dev)(i := Some c')\<rparr>)"
  using assms by (auto simp: chan_inv_def dev_channel_def hdma_block_def is_channel_def)

text \<open>The request of an HDMA ioctl, if it gets one from user memory.\<close>

definition user_transfer :: "'a cdev_env_scheme \<Rightarrow> u64 \<Rightarrow> hist \<Rightarrow> hdma_mem_args option" where
  "user_transfer env args h =
     (let (p, h) = kmalloc env (k_sizeof env ''struct hdma_mem_args'') h in
      if p = 0 then None else k_user_mem_args env h args)"

lemma eon_rw_reg_dev_inv:
  assumes "dev_inv dev h" and "eon_rw_reg env dev EON_IOCTL_IATU arg h = (ret, out, dev', h')"
  shows "dev_inv dev' h' \<and> locks h' = locks h"
proof (cases "\<exists>q. user_request env arg h = Some q \<and> in_reg_range (ra_reg_addr q)")
  case True
  then obtain q where q: "user_request env arg h = Some q" "in_reg_range (ra_reg_addr q)" by blast
  have inv: "window_inv dev h" "bars_apart dev" using assms(1) by (simp_all add: dev_inv_def window_ok_def)
  obtain p h1 where k: "kmalloc env (k_sizeof env ''struct dpu_reg_args'') h = (p, h1)" by fastforce
  have p: "p \<noteq> 0" "k_user_reg_args env h1 arg = Some q"
    using q k by (auto simp: user_request_def split: if_splits)
  obtain q' where s: "dev' = dev\<lparr>config_bar_base := block_of (ra_reg_addr q)\<rparr>"
    "\<And>d. atu_target dev d 1 h' = Some (block_of (ra_reg_addr q))" "locks h' = locks h"
    using eon_rw_reg_in [OF assms(2) _ _ k p q(2) inv] by auto
  show ?thesis using s assms(1) window_okI [OF s(1) s(2) inv(2)] by (simp add: dev_inv_def)
next
  case False
  then have "\<forall>q. user_request env arg h = Some q \<longrightarrow> \<not> in_reg_range (ra_reg_addr q)" by blast
  note s = eon_rw_reg_refused [OF assms(2) _ this]
  then show ?thesis using assms(1) by (simp add: dev_inv_def window_ok_def window_inv_def)
qed

text \<open>The transfer an HDMA ioctl runs keeps the invariant.\<close>

lemma inbound_dev_inv:
  assumes "dev_inv dev h" and "i < MAX_HDMA_NUMBER" and "hdmar dev i = Some c"
    and "eon_hdma_inbound env dev c src dst n a en ri h = (ret, c', dev', h')"
  shows "dev_inv (dev'\<lparr>hdmar := (hdmar dev')(i := Some c')\<rparr>) h'"
proof -
  have ch: "dev_channel dev (of_nat i) 0 c" "window_ok dev h" "chan_inv dev"
    using assms(1-3) by (auto simp: dev_inv_def chan_inv_def)
  obtain x where k: "window_ok dev' h'" "hc_ctx c' = hc_ctx c" "dev' = dev\<lparr>config_bar_base := x\<rparr>"
    using inbound_keeps [OF assms(4) ch(1,2)] by blast
  have "chan_inv dev'" "hdmar dev' i = Some c" using ch(3) assms(3) by (simp_all add: k(3))
  from chan_inv_put(1) [OF this k(2)] k(1) show ?thesis by (simp add: dev_inv_def)
qed

lemma outbound_dev_inv:
  assumes "dev_inv dev h" and "i < MAX_HDMA_NUMBER" and "hdmaw dev i = Some c" and "hdmar dev i = Some d"
    and "eon_hdma_outbound env dev c d dst src n a en ri h = (ret, c', d', dev', h')"
  shows "dev_inv (dev'\<lparr>hdmaw := (hdmaw dev')(i := Some c'), hdmar := (hdmar dev')(i := Some d')\<rparr>) h'"
proof -
  have ch: "dev_channel dev (of_nat i) 1 c" "dev_channel dev (of_nat i) 0 d" "window_ok dev h" "chan_inv dev"
    using assms(1-4) by (auto simp: dev_inv_def chan_inv_def)
  obtain x where k: "window_ok dev' h'" "hc_ctx c' = hc_ctx c" "hc_ctx d' = hc_ctx d"
    "dev' = dev\<lparr>config_bar_base := x\<rparr>"
    using outbound_keeps [OF assms(5) ch(1-3)] by blast
  have "chan_inv dev'" "hdmaw dev' i = Some c" using ch(4) assms(3) by (simp_all add: k(4))
  note w = chan_inv_put(2) [OF this k(2)]
  have "hdmar (dev'\<lparr>hdmaw := (hdmaw dev')(i := Some c')\<rparr>) i = Some d" using assms(4) by (simp add: k(4))
  from chan_inv_put(1) [OF w this k(3)] k(1) show ?thesis by (simp add: dev_inv_def)
qed

lemma dev_inv_memory:
  "kmalloc env n h = (p, h') \<Longrightarrow> dev_inv dev h \<Longrightarrow> dev_inv dev h'"
  "dev_inv dev h \<Longrightarrow> dev_inv dev (kfree p h)"
  by (auto simp: dev_inv_def intro: window_ok_only kernel_only_alloc(2)
      window_ok_only [OF kernel_only_memory(2) [OF kernel_only_refl]])

lemma chan_inv_get:
  assumes "dev_inv dev h" and "i < MAX_HDMA_NUMBER"
  obtains c d where "hdmar dev i = Some c" "hdmaw dev i = Some d"
  using assms by (auto simp: dev_inv_def chan_inv_def)

lemma eon_hdma_dev_inv:
  assumes "dev_inv dev h"
  shows "\<exists>ret out dev' h'. eon_hdma env dev EON_IOCTL_HDMA arg h = Some (ret, out, dev', h') \<and>
    dev_inv dev' h' \<and> locks h' = locks h"
proof -
  obtain p h1 where k: "kmalloc env (k_sizeof env ''struct hdma_mem_args'') h = (p, h1)" by fastforce
  have inv: "dev_inv dev h1" "locks h1 = locks h"
    using dev_inv_memory(1) [OF k assms] alloc_locks(2) [OF k] by simp_all
  consider "p = 0 \<or> k_user_mem_args env h1 arg = None"
    | q where "p \<noteq> 0" "k_user_mem_args env h1 arg = Some q" "unat (ma_hdma_id q) \<ge> MAX_HDMA_NUMBER"
    | q where "p \<noteq> 0" "k_user_mem_args env h1 arg = Some q" "unat (ma_hdma_id q) < MAX_HDMA_NUMBER"
    by (metis linorder_not_less option.exhaust)
  then show ?thesis
  proof cases
    case 1
    then show ?thesis using inv dev_inv_memory(2) [OF inv(1)]
      by (cases "p = 0") (simp_all add: eon_hdma_def k)
  next
    case (2 q)
    then show ?thesis using inv by (simp add: eon_hdma_def k)
  next
    case (3 q)
    let ?i = "unat (ma_hdma_id q)"
    obtain c d where cd: "hdmar dev ?i = Some c" "hdmaw dev ?i = Some d"
      using chan_inv_get [OF inv(1) 3(3)] .
    obtain r c1 dev1 g where i: "eon_hdma_inbound env dev c (ma_host_addr q) (ma_device_addr q)
        (ma_mem_size q) (ma_desc_addr q) (ma_enable q) (ma_regs q) h1 = (r, c1, dev1, g)"
      by (metis prod_cases4)
    obtain r2 d2 c2 dev2 g2 where o: "eon_hdma_outbound env dev d c (ma_host_addr q) (ma_device_addr q)
        (ma_mem_size q) (ma_desc_addr q) (ma_enable q) (ma_regs q) h1 = (r2, d2, c2, dev2, g2)"
      by (metis prod_cases5)
    note I = inbound_dev_inv [OF inv(1) 3(3) cd(1) i] inbound_locks [OF i]
    note O = outbound_dev_inv [OF inv(1) 3(3) cd(2) cd(1) o] outbound_locks [OF o]
    have n: "\<not> MAX_HDMA_NUMBER \<le> ?i" using 3(3) by simp
    note start = eon_hdma_def k 3(1,2) n cd Let_def
    consider "ma_op q = COMMAND_HDMA_INBOUND" | "ma_op q \<noteq> COMMAND_HDMA_INBOUND" "ma_op q = COMMAND_HDMA_OUTBOUND"
      | "ma_op q \<noteq> COMMAND_HDMA_INBOUND" "ma_op q \<noteq> COMMAND_HDMA_OUTBOUND" by blast
    then show ?thesis
    proof cases
      case 1
      then show ?thesis using I inv(2) dev_inv_memory(2) [OF I(1)]
        by (cases "r = 0"; cases "k_copy_to_user env g arg") (simp_all add: start i)
    next
      case 2
      then show ?thesis using O inv(2) dev_inv_memory(2) [OF O(1)]
        by (cases "r2 = 0"; cases "k_copy_to_user env g2 arg") (simp_all add: start o)
    next
      case 3
      then show ?thesis using inv dev_inv_memory(2) [OF inv(1)]
        by (cases "k_copy_to_user env h1 arg") (simp_all add: start)
    qed
  qed
qed

lemma device_ioctl_inv:
  assumes "dev_inv dev h"
  shows "\<exists>ret reply dev' h'. device_ioctl env dev cmd arg h = Some (ret, reply, dev', h') \<and>
    dev_inv dev' h' \<and> locks h' = locks h"
proof (cases "cmd = EON_IOCTL_HDMA")
  case True
  obtain ret out dev' h' where "eon_hdma env dev EON_IOCTL_HDMA arg h = Some (ret, out, dev', h')"
    "dev_inv dev' h' \<and> locks h' = locks h" using eon_hdma_dev_inv [OF assms] by blast
  then show ?thesis by (simp add: device_ioctl_def True)
next
  case False
  obtain ret out dev' h' where r: "eon_rw_reg env dev EON_IOCTL_IATU arg h = (ret, out, dev', h')"
    by (metis prod_cases4)
  from eon_rw_reg_dev_inv [OF assms r] show ?thesis
    using False assms by (cases "cmd = EON_IOCTL_IATU") (simp_all add: device_ioctl_def r)
qed

section \<open>Properties\<close>

definition demo_mem_args :: hdma_mem_args where
  "demo_mem_args = \<lparr>ma_host_addr = 0x1ffe, ma_device_addr = 0x50000000, ma_mem_size = 4,
     ma_desc_addr = 0x48010000, ma_hdma_id = 20, ma_op = 1, ma_enable = 1, ma_regs = demo_reg_infos\<rparr>"

definition demo_cdev_env :: "u64 \<Rightarrow> cdev_env" where
  "demo_cdev_env cdv =
     \<lparr>mmio_read32 = (\<lambda>_ _. 7), mmio_read16 = (\<lambda>_ _. 9), dyn_debug = False,
      k_alloc = (\<lambda>_ _. 0x1000), k_call = (\<lambda>_ _. 0), k_sizeof = (\<lambda>_. 32),
      k_gup = (\<lambda>_ _ n. (uint n, \<lambda>_. 0x7000)), k_sg_alloc_table = (\<lambda>_ _. 0),
      k_map_sg = (\<lambda>_ _ _. (1, \<lambda>i. (0x80000000 + 0x1000 * of_nat i, 0x1000))),
      k_user_reg_args = (\<lambda>_ _. None), k_fresh_reg_args = (\<lambda>_. demo_reg_args),
      k_copy_to_user = (\<lambda>_ _. True), k_fresh_cell = (\<lambda>_ _. (0, 0, 0, 0, 0, 0)),
      k_map_single = (\<lambda>_ p _. p), k_mapping_error = (\<lambda>a. a = 0),
      k_wait = (\<lambda>_ _ _. (1, TRANSFER_STATE_COMPLETED)),
      k_user_mem_args = (\<lambda>_ a. if a = 0 then Some (demo_mem_args\<lparr>ma_hdma_id := 2, ma_op := 9\<rparr>)
                               else Some demo_mem_args),
      k_fresh_mem_args = (\<lambda>_. demo_mem_args), k_device_create = (\<lambda>_ _. cdv)\<rparr>"

definition demo_live_device :: eon_device where
  "demo_live_device = demo_device\<lparr>
     hdmar := (\<lambda>i. Some (demo_channel\<lparr>hc_ctx := hdma_regs_of 0x8000001000 (of_nat i) 0\<rparr>)),
     hdmaw := (\<lambda>i. Some (demo_channel\<lparr>hc_ctx := hdma_regs_of 0x8000001000 (of_nat i) 1\<rparr>))\<rparr>"

lemma demo_dev_inv: "dev_inv demo_live_device []"
proof -
  have "chan_inv demo_live_device"
    by (auto simp: chan_inv_def demo_live_device_def dev_channel_def hdma_block_def is_channel_def
        HDMA_BASE_BAR_OFFSET_def demo_device_def bar_index_defs MAX_HDMA_NUMBER_def unat_of_nat
        take_bit_nat_eq_self)
  moreover have "window_ok demo_live_device []"
    using demo_window_ok by (simp add: demo_live_device_def)
  ultimately show ?thesis by (simp add: dev_inv_def)
qed



text \<open>
  C38: bad transfer requests. A channel number of 16 or more gives -1, but the argument block stays
  allocated; an unknown operation is answered with success, the arguments copied back unchanged.
\<close>

theorem eon_hdma_bad_request:
  assumes "user_transfer env args h = Some q" and "k_copy_to_user env = (\<lambda>_ _. True)"
  shows "\<exists>p. p \<noteq> 0 \<and>
    (if unat (ma_hdma_id q) \<ge> 16
     then eon_hdma env dev EON_IOCTL_HDMA args h = Some (-1, None, dev, Ev_acquire (Res_kmem p) # h)
     else if ma_op q \<notin> {COMMAND_HDMA_INBOUND, COMMAND_HDMA_OUTBOUND}
     then eon_hdma env dev EON_IOCTL_HDMA args h =
       Some (0, Some q, dev, Ev_release (Res_kmem p) # Ev_acquire (Res_kmem p) # h)
     else True)"
  using assms
  by (auto simp: eon_hdma_def user_transfer_def kmalloc_def kfree_def MAX_HDMA_NUMBER_def Let_def
      split: if_splits)

theorem eon_hdma_bad_request_witness:
  "\<exists>p. eon_hdma (demo_cdev_env 1) demo_device EON_IOCTL_HDMA 1 [] = Some (-1, None, demo_device, [Ev_acquire (Res_kmem p)])"
proof -
  have "user_transfer (demo_cdev_env 1) 1 [] = Some demo_mem_args"
    by (simp add: user_transfer_def kmalloc_def demo_cdev_env_def)
  moreover have "k_copy_to_user (demo_cdev_env 1) = (\<lambda>_ _. True)" by (simp add: demo_cdev_env_def)
  ultimately show ?thesis
    using eon_hdma_bad_request [of "demo_cdev_env 1" 1 "[]" demo_mem_args demo_device]
    by (auto simp: demo_mem_args_def)
qed

text \<open>
  C28: the character device's life. When \<open>char_dev_init\<close> sets up the context, \<open>char_dev_fini\<close>
  removes the device and the cdev again, exactly once, and only the context block is not freed.
\<close>

theorem char_dev_roundtrip:
  assumes "char_dev_init env eon h = (ret, eon', h')" and "char_ctx eon' = Some ctx"
    and "char_ctx eon = None" and "Res_char_device (dpu_id eon) \<notin># held h"
  shows "ret = 0 \<and> cc_dpu_dev ctx = dev_ptr eon \<and>
    (\<exists>h2. char_dev_fini eon' h' = Some (0, h2) \<and> held h2 = add_mset (Res_kmem (cc_ptr ctx)) (held h) \<and>
      no_bad_release h2 = no_bad_release h)"
proof -
  obtain p h1 where k: "kmalloc env (k_sizeof env ''struct char_dev_ctx'') h = (p, h1)" by fastforce
  let ?c = "k_call env h1 ''cdev_add''"
  let ?h2 = "Ev_acquire (Res_cdev p) # Ev_call ''cdev_add'' ?c # h1"
  obtain q h3 where n: "kmalloc env (k_sizeof env ''name'') ?h2 = (q, h3)" by fastforce
  let ?d = "k_device_create env h3 (dpu_id eon)"
  have ok: "p \<noteq> 0" "\<not> ?c < 0" "?d \<noteq> 0"
    using assms(1-3) by (auto simp: char_dev_init_def k n Let_def split: if_splits)
  let ?h4 = "kfree q (if IS_ERR ?d then h3 else Ev_acquire (Res_char_device (dpu_id eon)) # h3)"
  have r: "ret = 0" "eon' = eon\<lparr>char_ctx := Some \<lparr>cc_ptr = p, cc_char_dev = ?d, cc_dpu_dev = dev_ptr eon\<rparr>\<rparr>" "h' = ?h4"
    using assms(1) ok by (simp_all add: char_dev_init_def k n Let_def)
  have ctx: "ctx = \<lparr>cc_ptr = p, cc_char_dev = ?d, cc_dpu_dev = dev_ptr eon\<rparr>" using assms(2) r(2) by simp
  have "held h1 = add_mset (Res_kmem p) (held h)" "no_bad_release h1 = no_bad_release h"
    using kmalloc_res [OF k] ok by simp_all
  moreover have "held h3 = (if q = 0 then held ?h2 else add_mset (Res_kmem q) (held ?h2))"
    "no_bad_release h3 = no_bad_release ?h2" using kmalloc_res [OF n] by simp_all
  ultimately show ?thesis using assms(4)
    by (cases "q = 0"; cases "IS_ERR ?d")
      (simp_all add: r ctx char_dev_fini_def device_destroy_def kfree_def add_mset_commute)
qed

theorem char_dev_roundtrip_witness:
  "\<exists>eon' h' ctx. char_dev_init (demo_cdev_env 0x4000) demo_device [] = (0, eon', h') \<and>
    char_ctx eon' = Some ctx \<and> (\<exists>h2. char_dev_fini eon' h' = Some (0, h2) \<and> held h2 = {#Res_kmem (cc_ptr ctx)#})"
proof -
  obtain ret eon' h' where r: "char_dev_init (demo_cdev_env 0x4000) demo_device [] = (ret, eon', h')"
    by (metis prod_cases3)
  then obtain ctx where c: "char_ctx eon' = Some ctx"
    by (auto simp: char_dev_init_def kmalloc_def demo_cdev_env_def Let_def split: if_splits)
  have "char_ctx demo_device = None" by (simp add: demo_device_def)
  from char_dev_roundtrip [OF r c this] r c show ?thesis by auto
qed

text \<open>
  A failing \<open>device_create\<close>. When it gives NULL, \<open>char_dev_init\<close> reports success although
  there is no character device context, and a later \<open>char_dev_fini\<close> uses a NULL pointer.
\<close>

lemma char_dev_init_null_device:
  assumes "char_ctx eon = None" and "char_dev_init env eon h = (ret, eon', h')"
    and "k_device_create env = (\<lambda>_ _. 0)" and "k_alloc env = (\<lambda>_ _. p)" and "p \<noteq> 0"
    and "k_call env = (\<lambda>_ _. 0)"
  shows "ret = 0 \<and> char_ctx eon' = None \<and> char_dev_fini eon' h' = None"
  using assms
  by (auto simp: char_dev_init_def char_dev_fini_def kmalloc_def Let_def)

end
