(* ===== verification/Eon_Irq.thy ===== *)
theory Eon_Irq
  imports Hdma_Ops
begin

text \<open>
  Interrupts (\<open>eon_drv.c\<close>: \<open>dma_isr_handler\<close>, \<open>hama_handle_kthread\<close>): the handler puts a
  byte into a FIFO and wakes the thread; the thread scans the channels for a pending status,
  acknowledges the first it finds, marks the channel completed, wakes its waiter and takes bytes
  out of the FIFO. The thread's loops may run for ever, so they take fuel, and a NULL channel
  is a fault.
\<close>

section \<open>The interrupt FIFO\<close>

definition KFIFO_SIZE :: nat where
  "KFIFO_SIZE = 4096"

definition kfifo_in :: "u8 \<Rightarrow> u8 list \<Rightarrow> u8 list" where
  "kfifo_in x q = (if length q < KFIFO_SIZE then q @ [x] else q)"

text \<open>The number of bytes taken out, and the rest.\<close>

definition kfifo_out :: "u8 list \<Rightarrow> int \<times> u8 list" where
  "kfifo_out q = (case q of [] \<Rightarrow> (0, []) | x # q \<Rightarrow> (1, q))"

definition wake_up :: "u64 \<Rightarrow> hist \<Rightarrow> hist" where
  "wake_up q h = Ev_wake q # h"

definition IRQ_HANDLED :: int where
  "IRQ_HANDLED = 1"

definition dma_isr_handler :: "eon_device \<Rightarrow> hist \<Rightarrow> int \<times> eon_device \<times> hist" where
  "dma_isr_handler eon h =
     (let eon = eon\<lparr>hdma_kfifo := kfifo_in 0x55 (hdma_kfifo eon)\<rparr>
      in (IRQ_HANDLED, eon, wake_up (thread_wq eon) h))"

section \<open>Scanning the channels\<close>

datatype 'a run = Done 'a | Oops | More_fuel

record irq_env = kenv +
  k_thread_wait :: "hist \<Rightarrow> int"
  k_isr_runs :: "hist \<Rightarrow> nat"
  k_should_stop :: "hist \<Rightarrow> bool"

text \<open>
  What happens to a channel with a pending status: completed, acknowledged, its waiter woken if
  \<open>wk\<close> says so.
\<close>

definition serve :: "(u32 \<Rightarrow> bool) \<Rightarrow> hdma_context \<Rightarrow> u32 \<Rightarrow> hist \<Rightarrow> hdma_context \<times> hist" where
  "serve wk ctx irq_status h =
     (let ctx = ctx\<lparr>hc_state := TRANSFER_STATE_COMPLETED\<rparr>;
          h = hdma_clear_intr_status ctx irq_status h;
          h = (if wk irq_status then wake_up (hc_wq ctx) h else h)
      in (ctx, h))"

text \<open>
  The \<open>for\<close> loop over the channels, read channel before write channel of each number; it stops
  at the first pending status, which it returns.
\<close>

primrec scan ::
  "'a kenv_scheme \<Rightarrow> (u32 \<Rightarrow> bool) \<Rightarrow> nat list \<Rightarrow> eon_device \<Rightarrow> hist \<Rightarrow>
   (u32 option \<times> eon_device \<times> hist) run" where
  "scan env wk [] eno_dev h = Done (None, eno_dev, h)"
| "scan env wk (i # is) eno_dev h =
     (case hdmar eno_dev i of None \<Rightarrow> Oops
      | Some ctx \<Rightarrow>
        let (irq_status, h) = hdma_get_intr_status env ctx h in
        if irq_status AND 7 \<noteq> 0 then
          let (ctx, h) = serve wk ctx irq_status h
          in Done (Some irq_status, eno_dev\<lparr>hdmar := (hdmar eno_dev)(i := Some ctx)\<rparr>, h)
        else
          (case hdmaw eno_dev i of None \<Rightarrow> Oops
           | Some ctx \<Rightarrow>
             let (irq_status, h) = hdma_get_intr_status env ctx h in
             if irq_status AND 7 \<noteq> 0 then
               let (ctx, h) = serve wk ctx irq_status h
               in Done (Some irq_status, eno_dev\<lparr>hdmaw := (hdmaw eno_dev)(i := Some ctx)\<rparr>, h)
             else scan env wk is eno_dev h))"

text \<open>In the thread's main loop the waiter is woken for a stop only; \<open>flag\<close> is a \<open>uint8_t\<close>.\<close>

definition status_flag :: "u32 \<Rightarrow> u8" where
  "status_flag irq_status = ucast (irq_status AND 3)"

definition scan_irq ::
  "'a kenv_scheme \<Rightarrow> eon_device \<Rightarrow> hist \<Rightarrow> (u32 option \<times> eon_device \<times> hist) run" where
  "scan_irq env = scan env (\<lambda>irq_status. status_flag irq_status AND 1 = 1) [0..<MAX_HDMA_NUMBER]"

text \<open>The extra loop at the end of a round wakes the waiter in any case.\<close>

definition scan_extra ::
  "'a kenv_scheme \<Rightarrow> eon_device \<Rightarrow> hist \<Rightarrow> (u32 option \<times> eon_device \<times> hist) run" where
  "scan_extra env = scan env (\<lambda>_. True) [0..<MAX_HDMA_NUMBER]"

section \<open>The thread\<close>

text \<open>The thread's local variables that survive an iteration.\<close>

record thread_vars =
  t_ret :: int
  t_loop :: int
  t_flag :: u8

definition fifo_pop :: "thread_vars \<times> eon_device \<Rightarrow> thread_vars \<times> eon_device" where
  "fifo_pop s =
     (case s of (v, eno_dev) \<Rightarrow>
        let (ret, q) = kfifo_out (hdma_kfifo eno_dev)
        in (v\<lparr>t_ret := ret\<rparr>, eno_dev\<lparr>hdma_kfifo := q\<rparr>))"

text \<open>
  What follows the scan in an iteration: bytes out of the FIFO by the flag, one byte after 32
  fruitless iterations; the result says whether the loop is left.
\<close>

definition settle :: "thread_vars \<Rightarrow> eon_device \<Rightarrow> bool \<times> thread_vars \<times> eon_device" where
  "settle v eno_dev =
     (let (v, eno_dev) = (if t_flag v = 3
            then let (v, eno_dev) = fifo_pop (fifo_pop (v, eno_dev)) in (v\<lparr>t_flag := 0\<rparr>, eno_dev)
            else (v, eno_dev));
          (v, eno_dev) = (if t_flag v = 2 \<or> t_flag v = 1
            then let (v, eno_dev) = fifo_pop (v, eno_dev) in (v\<lparr>t_flag := 0\<rparr>, eno_dev)
            else (v, eno_dev))
      in if t_loop v \<ge> 32
         then let (v, eno_dev) = fifo_pop (v, eno_dev) in (True, v\<lparr>t_loop := 0\<rparr>, eno_dev)
         else (should_stop_flag eno_dev = 1, v, eno_dev))"

definition iteration ::
  "'a kenv_scheme \<Rightarrow> thread_vars \<Rightarrow> eon_device \<Rightarrow> hist \<Rightarrow> (bool \<times> thread_vars \<times> eon_device \<times> hist) run"
  where
  "iteration env v eno_dev h =
     (let v = v\<lparr>t_loop := t_loop v + 1\<rparr> in
      case scan_irq env eno_dev h of
        Done (found, eno_dev, h) \<Rightarrow>
          let v = (case found of None \<Rightarrow> v
                   | Some irq_status \<Rightarrow> v\<lparr>t_flag := status_flag irq_status, t_loop := 0\<rparr>);
              (brk, v, eno_dev) = settle v eno_dev
          in Done (brk, v, eno_dev, h)
      | Oops \<Rightarrow> Oops | More_fuel \<Rightarrow> More_fuel)"

text \<open>The \<open>while\<close> loop over the FIFO.\<close>

primrec drain ::
  "'a kenv_scheme \<Rightarrow> nat \<Rightarrow> thread_vars \<Rightarrow> eon_device \<Rightarrow> hist \<Rightarrow> (thread_vars \<times> eon_device \<times> hist) run"
  where
  "drain env 0 v eno_dev h = (if hdma_kfifo eno_dev = [] then Done (v, eno_dev, h) else More_fuel)"
| "drain env (Suc fuel) v eno_dev h =
     (if hdma_kfifo eno_dev = [] then Done (v, eno_dev, h)
      else case iteration env v eno_dev h of
        Done (brk, v, eno_dev, h) \<Rightarrow>
          if brk then Done (v, eno_dev, h) else drain env fuel v eno_dev h
      | Oops \<Rightarrow> Oops | More_fuel \<Rightarrow> More_fuel)"

text \<open>
  One round of the outer loop; the result says whether the thread ends. The interrupt handler
  runs \<open>k_isr_runs\<close> times while the thread waits.
\<close>

primrec isr_runs :: "nat \<Rightarrow> eon_device \<Rightarrow> hist \<Rightarrow> eon_device \<times> hist" where
  "isr_runs 0 eon h = (eon, h)"
| "isr_runs (Suc n) eon h = (let (_, eon, h) = dma_isr_handler eon h in isr_runs n eon h)"

definition thread_round ::
  "'a irq_env_scheme \<Rightarrow> nat \<Rightarrow> thread_vars \<Rightarrow> eon_device \<Rightarrow> hist \<Rightarrow>
   (bool \<times> thread_vars \<times> eon_device \<times> hist) run" where
  "thread_round env fuel v eno_dev h =
     (let ret = k_thread_wait env h;
          v = v\<lparr>t_ret := ret\<rparr>;
          n = k_isr_runs env h;
          h = Ev_sleep (thread_wq eno_dev) ret # h;
          (eno_dev, h) = isr_runs n eno_dev h
      in if k_should_stop env h then Done (True, v, eno_dev, h)
      else case drain env fuel v eno_dev h of
        Done (v, eno_dev, h) \<Rightarrow>
          (case (if hdma_kfifo eno_dev = [] then scan_extra env eno_dev h
                 else Done (None, eno_dev, h)) of
             Done (_, eno_dev, h) \<Rightarrow> Done (should_stop_flag eno_dev = 1, v, eno_dev, h)
           | Oops \<Rightarrow> Oops | More_fuel \<Rightarrow> More_fuel)
      | Oops \<Rightarrow> Oops | More_fuel \<Rightarrow> More_fuel)"

primrec thread_rounds ::
  "'a irq_env_scheme \<Rightarrow> nat \<Rightarrow> nat \<Rightarrow> thread_vars \<Rightarrow> eon_device \<Rightarrow> hist \<Rightarrow>
   (int \<times> eon_device \<times> hist) run" where
  "thread_rounds env fuel 0 v eno_dev h = More_fuel"
| "thread_rounds env fuel (Suc rounds) v eno_dev h =
     (case thread_round env fuel v eno_dev h of
        Done (stop, v, eno_dev, h) \<Rightarrow>
          if stop then Done (t_ret v, eno_dev, h) else thread_rounds env fuel rounds v eno_dev h
      | Oops \<Rightarrow> Oops | More_fuel \<Rightarrow> More_fuel)"

definition hama_handle_kthread ::
  "'a irq_env_scheme \<Rightarrow> nat \<Rightarrow> nat \<Rightarrow> eon_device \<Rightarrow> hist \<Rightarrow> (int \<times> eon_device \<times> hist) run" where
  "hama_handle_kthread env fuel rounds arg h =
     thread_rounds env fuel rounds \<lparr>t_ret = 0, t_loop = 0, t_flag = 0\<rparr> arg h"

section \<open>What a scan does\<close>

datatype slot = Rd nat | Wr nat

fun chan_at :: "eon_device \<Rightarrow> slot \<Rightarrow> hdma_context option" where
  "chan_at dev (Rd i) = hdmar dev i"
| "chan_at dev (Wr i) = hdmaw dev i"

fun put_chan :: "slot \<Rightarrow> hdma_context \<Rightarrow> eon_device \<Rightarrow> eon_device" where
  "put_chan (Rd i) c dev = dev\<lparr>hdmar := (hdmar dev)(i := Some c)\<rparr>"
| "put_chan (Wr i) c dev = dev\<lparr>hdmaw := (hdmaw dev)(i := Some c)\<rparr>"

definition channels_present :: "eon_device \<Rightarrow> bool" where
  "channels_present dev \<longleftrightarrow> (\<forall>i < MAX_HDMA_NUMBER. hdmar dev i \<noteq> None \<and> hdmaw dev i \<noteq> None)"

text \<open>
  \<open>served wk dev h s c st dev' h'\<close>: from \<open>h\<close>, after reads only, the status \<open>st\<close> of channel \<open>c\<close>
  in slot \<open>s\<close> was read, acknowledged as a whole, and the channel marked completed.
\<close>

definition served :: "(u32 \<Rightarrow> bool) \<Rightarrow> eon_device \<Rightarrow> hist \<Rightarrow> slot \<Rightarrow> hdma_context \<Rightarrow> u32 \<Rightarrow>
    eon_device \<Rightarrow> hist \<Rightarrow> bool" where
  "served wk dev h s c st dev' h' \<longleftrightarrow>
     chan_at dev s = Some c \<and> st AND 7 \<noteq> 0 \<and>
     dev' = put_chan s (c\<lparr>hc_state := TRANSFER_STATE_COMPLETED\<rparr>) dev \<and>
     (\<exists>g. accesses {} h g \<and>
       h' = (if wk st then [Ev_wake (hc_wq c)] else []) @
         [Ev_write32 (r_int_clear (hc_ctx c)) st, Ev_read32 (r_int_status (hc_ctx c)) st] @ g)"

lemma get_status_eq:
  "hdma_get_intr_status env c h =
     (let g = Ev_read32 (r_status (hc_ctx c)) (mmio_read32 env h (r_status (hc_ctx c))) # h;
          st = mmio_read32 env g (r_int_status (hc_ctx c))
      in (st, Ev_read32 (r_int_status (hc_ctx c)) st # g))"
  by (simp add: hdma_get_intr_status_def access_defs Let_def)

lemma get_status_reads:
  assumes "hdma_get_intr_status env c h = (st, h')"
  shows "\<exists>g. accesses {} h g \<and> h' = Ev_read32 (r_int_status (hc_ctx c)) st # g"
  using assms by (auto simp: get_status_eq Let_def)

lemma serve_served:
  assumes "chan_at dev s = Some c" and "accesses {} h g" and "st AND 7 \<noteq> 0"
    and "serve wk c st (Ev_read32 (r_int_status (hc_ctx c)) st # g) = (c', h')"
  shows "served wk dev h s c st (put_chan s c' dev) h'"
  using assms
  by (auto simp: served_def serve_def hdma_clear_intr_status_def access_defs wake_up_def Let_def)

lemma scan_cases:
  assumes "scan env wk is dev h = Done (found, dev', h')"
  obtains (none) "found = None" "dev' = dev" "accesses {} h h'"
  | (one) s c st where "found = Some st" "served wk dev h s c st dev' h'"
      "s \<in> Rd ` set is \<union> Wr ` set is"
  using assms
proof (induction "is" arbitrary: h thesis)
  case Nil
  then show ?case by simp
next
  case (Cons i js)
  obtain c where c: "hdmar dev i = Some c"
    using Cons.prems(3) by (auto split: option.splits)
  obtain st g where r: "hdma_get_intr_status env c h = (st, g)" by fastforce
  obtain g0 where g0: "accesses {} h g0" "g = Ev_read32 (r_int_status (hc_ctx c)) st # g0"
    using get_status_reads [OF r] by blast
  show ?case
  proof (cases "st AND 7 = 0")
    case False
    obtain c' g' where s: "serve wk c st g = (c', g')" by fastforce
    have "served wk dev h (Rd i) c st (put_chan (Rd i) c' dev) g'"
      by (rule serve_served [OF _ g0(1) False s [unfolded g0(2)]]) (simp add: c)
    moreover have "found = Some st" "dev' = put_chan (Rd i) c' dev" "h' = g'"
      using Cons.prems(3) False by (simp_all add: c r s)
    ultimately show ?thesis by (intro Cons.prems(2) [of st "Rd i" c]) simp_all
  next
    case True
    obtain w where w: "hdmaw dev i = Some w"
      using Cons.prems(3) True by (auto simp: c r split: option.splits)
    obtain st2 g2 where r2: "hdma_get_intr_status env w g = (st2, g2)" by fastforce
    have hg: "accesses {} h g" using g0 by simp
    obtain g3 where g3: "accesses {} g g3" "g2 = Ev_read32 (r_int_status (hc_ctx w)) st2 # g3"
      using get_status_reads [OF r2] by blast
    have hg3: "accesses {} h g3" by (rule accesses_trans [OF g3(1) hg])
    show ?thesis
    proof (cases "st2 AND 7 = 0")
      case False
      obtain c' g' where s: "serve wk w st2 g2 = (c', g')" by fastforce
      have "served wk dev h (Wr i) w st2 (put_chan (Wr i) c' dev) g'"
        by (rule serve_served [OF _ hg3 False s [unfolded g3(2)]]) (simp add: w)
      moreover have "found = Some st2" "dev' = put_chan (Wr i) c' dev" "h' = g'"
        using Cons.prems(3) True False by (simp_all add: c r w r2 s)
      ultimately show ?thesis by (intro Cons.prems(2) [of st2 "Wr i" w]) simp_all
    next
      case idle: True
      have hg2: "accesses {} h g2" using g3(2) hg3 by simp
      have rest: "scan env wk js dev g2 = Done (found, dev', h')"
        using Cons.prems(3) True idle by (simp add: c r w r2)
      show ?thesis
      proof (rule Cons.IH [OF _ _ rest])
        show thesis if "found = None" "dev' = dev" "accesses {} g2 h'"
          using that accesses_trans [OF _ hg2] by (intro Cons.prems(1)) simp_all
        show thesis if "found = Some st" "served wk dev g2 s c st dev' h'"
          "s \<in> Rd ` set js \<union> Wr ` set js" for s c st
          using that accesses_trans [OF _ hg2]
          by (intro Cons.prems(2) [of st s c]) (auto simp: served_def)
      qed
    qed
  qed
qed

lemma scan_present:
  assumes "\<forall>i \<in> set is. hdmar dev i \<noteq> None \<and> hdmaw dev i \<noteq> None"
  obtains found dev' h' where "scan env wk is dev h = Done (found, dev', h')"
  using assms
proof (induction "is" arbitrary: h thesis)
  case (Cons i js)
  then obtain c w where cw: "hdmar dev i = Some c" "hdmaw dev i = Some w" by auto
  have rest: "\<exists>r. scan env wk js dev g = Done r" for g
    using Cons.IH [of g "\<exists>r. scan env wk js dev g = Done r"] Cons.prems(2) by fastforce
  have "\<exists>r. scan env wk (i # js) dev h = Done r"
    using rest by (auto simp: cw case_prod_beta Let_def)
  then obtain r where "scan env wk (i # js) dev h = Done r" ..
  then show ?case using Cons.prems(1) by (cases r) auto
qed simp

lemma scan_missing:
  assumes "hdmar dev i = None"
  shows "scan env wk (i # is) dev h = Oops"
  by (simp add: assms)

section \<open>The main loop\<close>

lemma present_put [simp]:
  "chan_at dev s = Some c \<Longrightarrow> channels_present dev \<Longrightarrow> channels_present (put_chan s c' dev)"
  by (cases s) (auto simp: channels_present_def)

lemma put_chan_fields [simp]:
  "hdma_kfifo (put_chan s c dev) = hdma_kfifo dev"
  "should_stop_flag (put_chan s c dev) = should_stop_flag dev"
  "thread_wq (put_chan s c dev) = thread_wq dev"
  by (cases s; simp)+

lemma present_fifo [simp]: "channels_present (dev\<lparr>hdma_kfifo := q\<rparr>) = channels_present dev"
  by (simp add: channels_present_def)

lemma fifo_pop_eq: "fifo_pop (v, dev) =
    (v\<lparr>t_ret := if hdma_kfifo dev = [] then 0 else 1\<rparr>, dev\<lparr>hdma_kfifo := tl (hdma_kfifo dev)\<rparr>)"
  by (simp add: fifo_pop_def kfifo_out_def split: list.split)

text \<open>How many bytes an iteration takes out of the FIFO.\<close>

definition pops :: "thread_vars \<Rightarrow> nat" where
  "pops v = (if t_flag v = 3 then 2 else if t_flag v = 2 \<or> t_flag v = 1 then 1 else 0)
     + (if t_loop v \<ge> 32 then 1 else 0)"

lemma settle_spec:
  assumes "settle v dev = (brk, v', dev')"
  shows "dev' = dev\<lparr>hdma_kfifo := drop (pops v) (hdma_kfifo dev)\<rparr>"
    "brk \<longleftrightarrow> t_loop v \<ge> 32 \<or> should_stop_flag dev = 1"
    "t_loop v' = (if t_loop v \<ge> 32 then 0 else t_loop v)"
    "t_flag v' = (if t_flag v \<in> {1, 2, 3} then 0 else t_flag v)"
  using assms
  by (auto simp: settle_def fifo_pop_eq pops_def Let_def drop_Suc numeral_2_eq_2 numeral_3_eq_3
      split: if_splits)

lemma scan_irq_cases:
  assumes "scan_irq env dev h = Done (found, dev', h')"
  obtains (none) "found = None" "dev' = dev" "accesses {} h h'"
  | (one) s c st where "found = Some st"
      "served (\<lambda>st. status_flag st AND 1 = 1) dev h s c st dev' h'"
  using assms unfolding scan_irq_def by (rule scan_cases) auto

lemma scan_irq_present:
  assumes "channels_present dev"
  obtains found dev' h' where "scan_irq env dev h = Done (found, dev', h')"
  using assms scan_present [of "[0..<MAX_HDMA_NUMBER]" dev env]
  unfolding scan_irq_def channels_present_def by (metis atLeastLessThan_iff set_upt)

lemma status_flag_bits:
  "status_flag st \<in> {0, 1, 2, 3}" "status_flag st = 0 \<longleftrightarrow> st AND 3 = 0"
  "status_flag st AND 1 = 1 \<longleftrightarrow> bit st 0"
proof -
  have t: "st AND 3 = take_bit 2 st"
    by (simp add: take_bit_eq_mask mask_eq_exp_minus_1)
  then have a: "unat (st AND 3) = unat st mod 4"
    by (simp add: take_bit_eq_mod unat_mod_distrib)
  have "unat st mod 4 < 4" by simp
  then have f: "unat (status_flag st) = unat st mod 4"
    unfolding status_flag_def using a by (simp add: unsigned_ucast_eq take_bit_nat_eq_self)
  with \<open>unat st mod 4 < 4\<close> have "unat (status_flag st) \<in> {0, 1, 2, 3}" by auto
  then show "status_flag st \<in> {0, 1, 2, 3}" by (auto simp: word_unat_eq_iff)
  show "status_flag st = 0 \<longleftrightarrow> st AND 3 = 0"
    using a f by (simp add: word_unat_eq_iff)
  have "bit (status_flag st) 0 = bit st 0"
    by (simp add: status_flag_def t bit_ucast_iff bit_take_bit_iff)
  then show "status_flag st AND 1 = 1 \<longleftrightarrow> bit st 0"
    by (simp add: and_one_eq mod_2_eq_odd flip: bit_0)
qed

text \<open>
  \<open>no_lone_abort env\<close>: the device never reports an abort alone, that is, a pending status has
  the stop or the watermark bit too.
\<close>

definition no_lone_abort :: "'a kenv_scheme \<Rightarrow> bool" where
  "no_lone_abort env \<longleftrightarrow> (\<forall>h a. mmio_read32 env h a AND 7 \<noteq> 0 \<longrightarrow> mmio_read32 env h a AND 3 \<noteq> 0)"

lemma scan_status_read:
  "scan env wk is dev h = Done (Some st, dev', h') \<Longrightarrow> \<exists>g a. st = mmio_read32 env g a"
  by (induction "is" arbitrary: h)
    (auto simp: get_status_eq Let_def split: option.splits if_splits prod.splits)

definition work :: "thread_vars \<Rightarrow> eon_device \<Rightarrow> nat" where
  "work v dev = 33 * length (hdma_kfifo dev) + nat (32 - t_loop v)"

definition ready :: "thread_vars \<Rightarrow> eon_device \<Rightarrow> bool" where
  "ready v dev \<longleftrightarrow> channels_present dev \<and> t_flag v = 0 \<and> 0 \<le> t_loop v \<and> t_loop v < 32"

lemma iteration_progress:
  assumes "ready v dev" and "no_lone_abort env" and "hdma_kfifo dev \<noteq> []"
  obtains brk v' dev' h' where "iteration env v dev h = Done (brk, v', dev', h')"
    "ready v' dev'" "\<not> brk \<Longrightarrow> work v' dev' < work v dev"
    "length (hdma_kfifo dev') \<le> length (hdma_kfifo dev)"
proof -
  obtain found dev1 h1 where s: "scan_irq env dev h = Done (found, dev1, h1)"
    using scan_irq_present assms(1) unfolding ready_def by metis
  let ?v = "case found of None \<Rightarrow> v\<lparr>t_loop := t_loop v + 1\<rparr>
    | Some st \<Rightarrow> v\<lparr>t_flag := status_flag st, t_loop := 0\<rparr>"
  obtain brk v' dev' where t: "settle ?v dev1 = (brk, v', dev')" by (metis prod_cases3)
  note S = settle_spec [OF t]
  have it: "iteration env v dev h = Done (brk, v', dev', h1)"
    using t by (cases found) (simp_all add: iteration_def s Let_def)
  have dev1: "channels_present dev1" "hdma_kfifo dev1 = hdma_kfifo dev"
    using s assms(1)
    by (cases rule: scan_irq_cases; auto simp: ready_def served_def)+
  show ?thesis
  proof (cases found)
    case None
    then show ?thesis using S dev1 assms(1,3)
      by (intro that [OF it]) (auto simp: ready_def work_def pops_def split: if_splits)
  next
    case (Some st)
    obtain g a where st: "st = mmio_read32 env g a"
      using s scan_status_read unfolding scan_irq_def Some by blast
    have "st AND 7 \<noteq> 0" using s by (cases rule: scan_irq_cases) (auto simp: Some served_def)
    then have f: "status_flag st \<in> {1, 2, 3}"
      using assms(2) st status_flag_bits(1,2) [of st] unfolding no_lone_abort_def by auto
    then have "1 \<le> pops ?v" by (auto simp: Some pops_def)
    moreover obtain x q where "hdma_kfifo dev = x # q" using assms(3) by (cases "hdma_kfifo dev") auto
    ultimately have "length (hdma_kfifo dev') + 1 \<le> length (hdma_kfifo dev)"
      using S(1) dev1 by simp
    then show ?thesis using S dev1 f Some assms(1)
      by (intro that [OF it]) (auto simp: ready_def work_def)
  qed
qed

lemma drain_ends:
  assumes "ready v dev" and "no_lone_abort env" and "work v dev \<le> fuel"
  obtains v' dev' h' where "drain env fuel v dev h = Done (v', dev', h')" "ready v' dev'"
    "length (hdma_kfifo dev') \<le> length (hdma_kfifo dev)"
  using assms
proof (induction fuel arbitrary: v dev h thesis)
  case 0
  then show ?case by (simp add: work_def ready_def)
next
  case (Suc fuel)
  show ?case
  proof (cases "hdma_kfifo dev = []")
    case True
    then show ?thesis using Suc.prems by simp
  next
    case False
    obtain brk v1 dev1 h1 where it: "iteration env v dev h = Done (brk, v1, dev1, h1)"
      "ready v1 dev1" "\<not> brk \<Longrightarrow> work v1 dev1 < work v dev"
      "length (hdma_kfifo dev1) \<le> length (hdma_kfifo dev)"
      using iteration_progress [OF Suc.prems(2,3) False, of h] by blast
    show ?thesis
    proof (cases brk)
      case True
      then show ?thesis using False it Suc.prems(1) by simp
    next
      case go: False
      then have "work v1 dev1 \<le> fuel" using it(3) Suc.prems(4) by simp
      from Suc.IH [OF _ it(2) Suc.prems(3) this] obtain v' dev' h' where
        "drain env fuel v1 dev1 h1 = Done (v', dev', h')" "ready v' dev'"
        "length (hdma_kfifo dev') \<le> length (hdma_kfifo dev1)" by blast
      then show ?thesis using False go it(1,4) Suc.prems(1) by simp
    qed
  qed
qed

section \<open>A device that is being stopped\<close>

definition stopping :: "eon_device \<Rightarrow> bool" where
  "stopping dev \<longleftrightarrow> channels_present dev \<and> should_stop_flag dev = 1"

lemma isr_runs_stopping: "stopping dev \<Longrightarrow> \<exists>dev' h'. isr_runs n dev h = (dev', h') \<and> stopping dev'"
  by (induction n arbitrary: dev h) (auto simp: stopping_def dma_isr_handler_def Let_def)

lemma scan_stopping:
  assumes "stopping dev"
  shows "\<exists>f dev' h'. scan env wk [0..<MAX_HDMA_NUMBER] dev h = Done (f, dev', h') \<and> stopping dev'"
proof -
  obtain f dev' h' where s: "scan env wk [0..<MAX_HDMA_NUMBER] dev h = Done (f, dev', h')"
    using scan_present [of "[0..<MAX_HDMA_NUMBER]" dev env wk h] assms
    unfolding stopping_def channels_present_def by (metis atLeastLessThan_iff set_upt)
  have "stopping dev'"
    using s
  proof (cases rule: scan_cases)
    case (one sl c st)
    then show ?thesis using assms by (auto simp: stopping_def served_def simp del: chan_at.simps put_chan.simps)
  qed (use assms in simp)
  with s show ?thesis by blast
qed

text \<open>The loop leaves at the end of its first iteration.\<close>

lemma drain_stopping:
  assumes "stopping dev"
  shows "\<exists>v' dev' h'. drain env 1 v dev h = Done (v', dev', h') \<and> stopping dev'"
proof (cases "hdma_kfifo dev = []")
  case True
  then show ?thesis using assms by simp
next
  case False
  let ?v = "v\<lparr>t_loop := t_loop v + 1\<rparr>"
  obtain f d1 h1 where s: "scan_irq env dev h = Done (f, d1, h1)" "stopping d1"
    using scan_stopping [OF assms] unfolding scan_irq_def by blast
  obtain brk w d2 where t: "settle (case f of None \<Rightarrow> ?v | Some st \<Rightarrow> ?v\<lparr>t_flag := status_flag st, t_loop := 0\<rparr>) d1
      = (brk, w, d2)" by (metis prod_cases3)
  note S = settle_spec [OF t]
  have "iteration env v dev h = Done (brk, w, d2, h1)"
    using t by (cases f) (simp_all add: iteration_def s(1) Let_def)
  then show ?thesis using False S s(2) by (simp add: stopping_def)
qed

section \<open>Interrupts and iterations in any order\<close>

text \<open>
  The handler and the thread's iterations interleave: a step is an interrupt, or one iteration of
  the loop while the FIFO is not empty.
\<close>

inductive irq_step ::
  "'a kenv_scheme \<Rightarrow> thread_vars \<times> eon_device \<times> hist \<Rightarrow> thread_vars \<times> eon_device \<times> hist \<Rightarrow> bool"
  for env where
  irq_isr: "dma_isr_handler dev h = (r, dev', h') \<Longrightarrow> irq_step env (v, dev, h) (v, dev', h')"
| irq_iteration: "hdma_kfifo dev \<noteq> [] \<Longrightarrow> iteration env v dev h = Done (brk, v', dev', h') \<Longrightarrow>
    irq_step env (v, dev, h) (v', dev', h')"

inductive_cases irq_stepE: "irq_step env (v, dev, h) s"

text \<open>What the interleaving keeps: the channels and their registers, the FIFO's bound.\<close>

definition irq_inv :: "eon_device \<Rightarrow> thread_vars \<times> eon_device \<times> hist \<Rightarrow> bool" where
  "irq_inv dev0 s = (case s of (v, dev, h) \<Rightarrow>
     length (hdma_kfifo dev) \<le> KFIFO_SIZE \<and> 0 \<le> t_loop v \<and> t_loop v < 32 \<and>
     (\<forall>s. map_option hc_ctx (chan_at dev s) = map_option hc_ctx (chan_at dev0 s)))"

lemma chan_at_put:
  "chan_at (put_chan s c dev) t = (if s = t then Some c else chan_at dev t)"
  by (cases s; cases t) auto

lemma chan_at_fifo [simp]: "chan_at (dev\<lparr>hdma_kfifo := q\<rparr>) s = chan_at dev s"
  by (cases s) simp_all

lemma irq_inv_step:
  assumes "irq_step env s s'" and "irq_inv dev0 s"
  shows "irq_inv dev0 s'"
  using assms(1)
proof (cases rule: irq_step.cases)
  case (irq_isr dev h r dev' h' v)
  then show ?thesis using assms(2)
    by (auto simp: irq_inv_def dma_isr_handler_def kfifo_in_def Let_def)
next
  case (irq_iteration dev v h brk v' dev' h')
  obtain found dev1 h1 where s: "scan_irq env dev h = Done (found, dev1, h1)"
    using irq_iteration(4) by (auto simp: iteration_def Let_def split: run.splits)
  let ?v = "case found of None \<Rightarrow> v\<lparr>t_loop := t_loop v + 1\<rparr>
    | Some st \<Rightarrow> v\<lparr>t_flag := status_flag st, t_loop := 0\<rparr>"
  have t: "settle ?v dev1 = (brk, v', dev')"
    using irq_iteration(4) by (cases found) (auto simp: iteration_def s Let_def split: prod.splits)
  note S = settle_spec [OF t]
  have keep: "\<forall>s. map_option hc_ctx (chan_at dev1 s) = map_option hc_ctx (chan_at dev s)"
    "hdma_kfifo dev1 = hdma_kfifo dev"
    using s by (cases rule: scan_irq_cases; auto simp: served_def chan_at_put)+
  show ?thesis using assms(2) S keep irq_iteration
    by (cases found) (auto simp: irq_inv_def split: if_splits)
qed

section \<open>A machine for the witnesses\<close>

definition demo_irq_env :: "u32 \<Rightarrow> irq_env" where
  "demo_irq_env st =
     \<lparr>mmio_read32 = (\<lambda>_ _. st), mmio_read16 = (\<lambda>_ _. 0), dyn_debug = False,
      k_alloc = (\<lambda>_ _. 0x1000), k_call = (\<lambda>_ _. 0), k_sizeof = (\<lambda>_. 32),
      k_thread_wait = (\<lambda>_. 1), k_isr_runs = (\<lambda>_. 1), k_should_stop = (\<lambda>_. False)\<rparr>"

definition demo_full_device :: eon_device where
  "demo_full_device = demo_device\<lparr>
     hdmar := (\<lambda>i. Some (demo_channel\<lparr>hc_ctx := hdma_regs_of 0x8000001000 (of_nat i) 0\<rparr>)),
     hdmaw := (\<lambda>i. Some (demo_channel\<lparr>hc_ctx := hdma_regs_of 0x8000001000 (of_nat i) 1\<rparr>)),
     hdma_kfifo := [0x55]\<rparr>"

definition demo_vars :: thread_vars where
  "demo_vars = \<lparr>t_ret = 0, t_loop = 0, t_flag = 0\<rparr>"

lemma demo_present: "channels_present demo_full_device"
  by (simp add: channels_present_def demo_full_device_def)

lemma demo_ready: "ready demo_vars demo_full_device"
  by (simp add: ready_def demo_present demo_vars_def)

lemma demo_fifo: "hdma_kfifo demo_full_device = [0x55]" "should_stop_flag demo_full_device = 0"
  by (simp_all add: demo_full_device_def demo_device_def)

lemma demo_irq_read: "mmio_read32 (demo_irq_env st) h a = st"
  by (simp add: demo_irq_env_def)

lemma scan_status_const:
  assumes "channels_present dev" and "\<And>h a. mmio_read32 env h a = st" and "st AND 7 \<noteq> 0"
  obtains dev' h' where "scan_irq env dev h = Done (Some st, dev', h')"
proof -
  obtain c where "hdmar dev 0 = Some c"
    using assms(1) by (auto simp: channels_present_def MAX_HDMA_NUMBER_def dest!: spec [of _ 0])
  moreover have "[0..<MAX_HDMA_NUMBER] = 0 # [1..<MAX_HDMA_NUMBER]"
    by (simp add: MAX_HDMA_NUMBER_def upt_conv_Cons)
  ultimately have "\<exists>dev' h'. scan_irq env dev h = Done (Some st, dev', h')"
    using assms(2,3) by (simp add: scan_irq_def get_status_eq Let_def case_prod_beta)
  then show ?thesis using that by blast
qed

section \<open>Properties\<close>

text \<open>
  C23: a scan of the channels. With all channels present it never faults; either no channel had a
  pending status, and the scan only read registers, or exactly one channel is served: the whole
  status that was read is acknowledged, the channel marked completed, its waiter woken exactly
  when the stop bit is set, and every other channel is as before.
\<close>

theorem scan_irq_correct:
  assumes "channels_present dev"
  shows "\<exists>found dev' h'. scan_irq env dev h = Done (found, dev', h') \<and> channels_present dev' \<and>
    (case found of None \<Rightarrow> dev' = dev \<and> accesses {} h h'
     | Some st \<Rightarrow> \<exists>s c. served (\<lambda>st. bit st 0) dev h s c st dev' h' \<and>
         (\<forall>t. t \<noteq> s \<longrightarrow> chan_at dev' t = chan_at dev t))"
proof -
  obtain found dev' h' where s: "scan_irq env dev h = Done (found, dev', h')"
    using scan_irq_present [OF assms] .
  then show ?thesis
  proof (cases rule: scan_irq_cases)
    case none
    then show ?thesis using s assms by simp
  next
    case (one sl c st)
    have "served (\<lambda>st. bit st 0) dev h sl c st dev' h'"
      using one(2) by (simp add: status_flag_bits(3))
    moreover have "channels_present dev'" "\<forall>t. t \<noteq> sl \<longrightarrow> chan_at dev' t = chan_at dev t"
      using one(2) assms by (auto simp: served_def chan_at_put)
    ultimately show ?thesis using s one(1) by auto
  qed
qed

theorem scan_irq_correct_witness:
  "\<exists>dev' h' s c. scan_irq (demo_irq_env 1) demo_full_device [] = Done (Some 1, dev', h') \<and>
    served (\<lambda>st. bit st 0) demo_full_device [] s c 1 dev' h'"
proof -
  obtain dev' h' where s: "scan_irq (demo_irq_env 1) demo_full_device [] = Done (Some 1, dev', h')"
    using scan_status_const [OF demo_present, of "demo_irq_env 1" 1] by (auto simp: demo_irq_read)
  with scan_irq_correct [OF demo_present, of "demo_irq_env 1" "[]"] show ?thesis by auto
qed

text \<open>
  C13: the thread's loop ends. If the device never reports an abort alone, the loop over the FIFO
  returns after at most 33 iterations per byte and 32 more, so 33 * 4096 + 32 iterations are
  enough for any state of the FIFO; it never faults and leaves no more bytes than it found.
\<close>

theorem drain_terminates:
  assumes "channels_present dev" and "no_lone_abort env" and "t_flag v = 0"
    and "0 \<le> t_loop v" and "t_loop v < 32" and "length (hdma_kfifo dev) \<le> KFIFO_SIZE"
  shows "\<exists>v' dev' h'. drain env (33 * 4096 + 32) v dev h = Done (v', dev', h') \<and>
    channels_present dev' \<and> t_flag v' = 0 \<and> length (hdma_kfifo dev') \<le> length (hdma_kfifo dev)"
proof -
  have "ready v dev" "work v dev \<le> 33 * 4096 + 32"
    using assms by (simp_all add: ready_def work_def KFIFO_SIZE_def)
  with drain_ends [OF _ assms(2)] show ?thesis unfolding ready_def by metis
qed

theorem drain_terminates_witness:
  "\<exists>v' dev' h'. drain (demo_irq_env 1) (33 * 4096 + 32) demo_vars demo_full_device [] = Done (v', dev', h')"
proof -
  have "no_lone_abort (demo_irq_env 1)" by (simp add: no_lone_abort_def demo_irq_read)
  from drain_terminates [OF demo_present this, of demo_vars "[]"] show ?thesis
    by (auto simp: demo_vars_def demo_fifo KFIFO_SIZE_def)
qed

text \<open>
  C35: an abort alone blocks the thread. If the device keeps reporting the abort bit without stop or
  watermark, nothing is ever taken out of the FIFO and the iteration count is reset each time:
  the loop does not end, whatever the fuel.
\<close>

theorem lone_abort_livelock:
  assumes "channels_present dev" and "\<And>h a. mmio_read32 env h a = 4"
    and "hdma_kfifo dev \<noteq> []" and "should_stop_flag dev \<noteq> 1" and "t_flag v = 0"
  shows "drain env fuel v dev h = More_fuel"
  using assms
proof (induction fuel arbitrary: v dev h)
  case (Suc fuel)
  obtain dev1 h1 where s: "scan_irq env dev h = Done (Some 4, dev1, h1)"
    using scan_status_const [OF Suc.prems(1,2)] by auto
  have d: "channels_present dev1" "hdma_kfifo dev1 = hdma_kfifo dev" "should_stop_flag dev1 = should_stop_flag dev"
    using s Suc.prems(1) by (cases rule: scan_irq_cases; auto simp: served_def)+
  have f: "status_flag 4 = 0" by (simp add: status_flag_def)
  obtain brk v' dev' where t: "settle (v\<lparr>t_flag := 0, t_loop := 0\<rparr>) dev1 = (brk, v', dev')"
    by (metis prod_cases3)
  note S = settle_spec [OF t]
  have it: "iteration env v dev h = Done (brk, v', dev', h1)"
    using t by (simp add: iteration_def s f Let_def)
  have "\<not> brk" "dev' = dev1" "t_flag v' = 0" using S d Suc.prems(4) by (simp_all add: pops_def)
  then show ?case using Suc.IH [of dev1 v' h1] Suc.prems(2-4) d it by simp
qed simp

theorem lone_abort_livelock_witness:
  "drain (demo_irq_env 4) 1000 demo_vars demo_full_device [] = More_fuel"
  by (rule lone_abort_livelock [OF demo_present])
    (simp_all add: demo_irq_read demo_fifo demo_vars_def)

text \<open>
  C36: an aborted transfer is marked completed, and nobody is woken. A status with the abort bit
  alone puts the channel in the completed state (the failed state is never used), and the scan
  does nothing but access registers: no wake-up.
\<close>

theorem lone_abort_completes:
  assumes "scan_irq env dev h = Done (Some st, dev', h')" and "st AND 7 = 4"
  shows "\<exists>s c. chan_at dev s = Some c \<and>
    chan_at dev' s = Some (c\<lparr>hc_state := TRANSFER_STATE_COMPLETED\<rparr>) \<and>
    accesses {r_int_clear (hc_ctx c)} h h'"
  using assms(1)
proof (cases rule: scan_irq_cases)
  case (one s c st')
  have "\<not> bit st 0"
  proof
    assume "bit st 0"
    then have "bit (st AND 7) 0" by (simp add: bit_and_iff)
    with assms(2) show False by simp
  qed
  then obtain g where g: "accesses {} h g"
    "h' = [Ev_write32 (r_int_clear (hc_ctx c)) st, Ev_read32 (r_int_status (hc_ctx c)) st] @ g"
    "chan_at dev s = Some c" "dev' = put_chan s (c\<lparr>hc_state := TRANSFER_STATE_COMPLETED\<rparr>) dev"
    using one by (auto simp: served_def status_flag_bits(3))
  have "accesses {r_int_clear (hc_ctx c)} h g" by (rule accesses_mono [OF g(1)]) simp
  then show ?thesis using g by (intro exI [of _ s] exI [of _ c]) (simp add: chan_at_put)
qed simp

theorem lone_abort_completes_witness:
  "\<exists>dev' h' s c. scan_irq (demo_irq_env 4) demo_full_device [] = Done (Some 4, dev', h') \<and>
    chan_at dev' s = Some (c\<lparr>hc_state := TRANSFER_STATE_COMPLETED\<rparr>)"
proof -
  obtain dev' h' where s: "scan_irq (demo_irq_env 4) demo_full_device [] = Done (Some 4, dev', h')"
    using scan_status_const [OF demo_present, of "demo_irq_env 4" 4] by (auto simp: demo_irq_read)
  with lone_abort_completes [OF s] show ?thesis by auto
qed

text \<open>
  C22: interrupts and thread iterations in any order. The FIFO never holds more than its 4096
  bytes, the iteration counter stays below 32, and no channel is lost, gained or given other
  registers.
\<close>

theorem irq_interleaving:
  assumes "(irq_step env)\<^sup>*\<^sup>* (v, dev, h) (v', dev', h')"
    and "hdma_kfifo dev = []" and "0 \<le> t_loop v" and "t_loop v < 32"
  shows "length (hdma_kfifo dev') \<le> KFIFO_SIZE \<and> 0 \<le> t_loop v' \<and> t_loop v' < 32 \<and>
    (\<forall>s. map_option hc_ctx (chan_at dev' s) = map_option hc_ctx (chan_at dev s))"
proof -
  have "irq_inv dev (v', dev', h')"
    using assms(1)
  proof (induction rule: rtranclp_induct)
    case base
    then show ?case using assms(2-4) by (simp add: irq_inv_def)
  next
    case (step s t)
    show ?case by (rule irq_inv_step [OF step.hyps(2) step.IH])
  qed
  then show ?thesis by (simp add: irq_inv_def)
qed

theorem irq_interleaving_witness:
  "\<exists>dev' h'. (irq_step (demo_irq_env 1))\<^sup>*\<^sup>* (demo_vars, demo_full_device\<lparr>hdma_kfifo := []\<rparr>, []) (demo_vars, dev', h') \<and>
    hdma_kfifo dev' = [0x55] \<and> length (hdma_kfifo dev') \<le> KFIFO_SIZE"
proof -
  let ?d = "demo_full_device\<lparr>hdma_kfifo := []\<rparr>"
  obtain r dev' h' where i: "dma_isr_handler ?d [] = (r, dev', h')" by (metis prod_cases3)
  then have f: "hdma_kfifo dev' = [0x55]"
    by (auto simp: dma_isr_handler_def kfifo_in_def KFIFO_SIZE_def Let_def)
  have "(irq_step (demo_irq_env 1))\<^sup>*\<^sup>* (demo_vars, ?d, []) (demo_vars, dev', h')"
    using irq_isr [OF i] by blast
  from irq_interleaving [OF this] this f show ?thesis by (auto simp: demo_vars_def)
qed

text \<open>
  C37: the thread needs its channels. A round that finds the FIFO empty scans the channels all the
  same, so a thread whose wait ends (after 200 ms at the latest) before channel 0 exists, or
  after it was freed, uses a NULL pointer.
\<close>

theorem thread_round_faults:
  assumes "hdmar dev 0 = None" and "hdma_kfifo dev = []" and "k_isr_runs env h = 0"
    and "\<not> k_should_stop env (Ev_sleep (thread_wq dev) (k_thread_wait env h) # h)"
  shows "thread_round env fuel v dev h = Oops"
proof -
  have "[0..<MAX_HDMA_NUMBER] = 0 # [1..<MAX_HDMA_NUMBER]"
    by (simp add: MAX_HDMA_NUMBER_def upt_conv_Cons)
  then have "scan_extra env dev h' = Oops" for h'
    using assms(1) by (simp add: scan_extra_def)
  moreover have "drain env fuel w dev h' = Done (w, dev, h')" for w h'
    using assms(2) by (cases fuel) simp_all
  ultimately show ?thesis using assms(2-4) by (simp add: thread_round_def Let_def)
qed

theorem thread_round_faults_witness:
  "thread_round ((demo_irq_env 0)\<lparr>k_isr_runs := \<lambda>_. 0\<rparr>) 10 demo_vars demo_device [] = Oops"
  by (rule thread_round_faults) (simp_all add: demo_device_def demo_irq_env_def)

text \<open>
  C29: the stop flag ends the thread. Once \<open>should_stop_flag\<close> is set, one round with a single
  iteration of its inner loop is enough: it returns, and says that the thread ends.
\<close>

theorem thread_round_stops:
  assumes "channels_present dev" and "should_stop_flag dev = 1"
  shows "\<exists>v' dev' h'. thread_round env 1 v dev h = Done (True, v', dev', h')"
proof -
  obtain d1 h1 where d1: "isr_runs (k_isr_runs env h) dev (Ev_sleep (thread_wq dev) (k_thread_wait env h) # h) = (d1, h1)"
    "stopping d1" using isr_runs_stopping [of dev] assms unfolding stopping_def by blast
  obtain w d2 h2 where d2: "drain env 1 (v\<lparr>t_ret := k_thread_wait env h\<rparr>) d1 h1 = Done (w, d2, h2)" "stopping d2"
    using drain_stopping [OF d1(2)] by blast
  obtain f d3 h3 where d3: "scan_extra env d2 h2 = Done (f, d3, h3)" "stopping d3"
    using scan_stopping [OF d2(2)] unfolding scan_extra_def by blast
  show ?thesis using d1(1) d2 d3 by (simp add: thread_round_def stopping_def Let_def del: drain.simps)
qed

theorem thread_round_stops_witness:
  "\<exists>v' dev' h'. thread_round (demo_irq_env 1) 1 demo_vars (demo_full_device\<lparr>should_stop_flag := 1\<rparr>) []
    = Done (True, v', dev', h')"
  by (rule thread_round_stops) (simp_all add: channels_present_def demo_full_device_def)

end
