(* ===== verification/Eon_Probe.thy ===== *)
theory Eon_Probe
  imports Eon_Ioctl Eon_Irq
begin

text \<open>
  Bringing a device up and down (\<open>eon_drv.c\<close>): \<open>set_dma_mask\<close>, \<open>pci_msi_setup\<close>,
  \<open>iatu_config\<close>, \<open>eon_irq_init\<close>, \<open>eon_irq_fini\<close>, \<open>get_dpu_id\<close>, \<open>eon_probe\<close>,
  \<open>eon_remove\<close>, \<open>eon_init\<close>, \<open>eon_exit\<close>. What the PCI core and the kernel answer is the
  environment's; a use of an uninitialised or NULL pointer is the result \<open>None\<close>. Memory and
  mappings that the kernel's device management releases by itself are not counted.
\<close>

section \<open>Environment and module state\<close>

record probe_env = cdev_env +
  k_pci_word :: "hist \<Rightarrow> nat \<Rightarrow> u16"
  k_pci_dword :: "hist \<Rightarrow> nat \<Rightarrow> u32"
  k_bar_start :: "nat \<Rightarrow> u64"
  k_bar_len :: "nat \<Rightarrow> u64"
  k_iomap :: "nat \<Rightarrow> u64"
  k_kthread_run :: "hist \<Rightarrow> u64"
  k_class_create :: "hist \<Rightarrow> u64"

text \<open>The module's global variables, with the static counter of \<open>get_dpu_id\<close>.\<close>

record module_state =
  eon_class :: u64
  eon_dpu_major :: u32
  next_dpu_id :: u32

text \<open>A kernel call that returns an \<open>int\<close>.\<close>

definition call :: "'a kenv_scheme \<Rightarrow> string \<Rightarrow> hist \<Rightarrow> int \<times> hist" where
  "call env name h = (let r = k_call env h name in (r, Ev_call name r # h))"

section \<open>DMA mask, MSI, interrupts\<close>

definition set_dma_mask :: "'a kenv_scheme \<Rightarrow> hist \<Rightarrow> int \<times> hist" where
  "set_dma_mask env h =
     (let (err, h) = call env ''pci_set_dma_mask 64'' h in
      if err = 0 then
        let (err, h) = call env ''pci_set_consistent_dma_mask 32'' h
        in if err \<noteq> 0 then (err, h) else (0, h)
      else
        let (err, h) = call env ''pci_set_dma_mask 32'' h in
        if err = 0 then
          let (err, h) = call env ''pci_set_consistent_dma_mask 32'' h
          in if err \<noteq> 0 then (err, h) else (0, h)
        else (0, h))"

definition PCI_MSI_FLAGS :: nat where
  "PCI_MSI_FLAGS = 2"

definition PCI_MSI_FLAGS_64BIT :: u16 where
  "PCI_MSI_FLAGS_64BIT = 0x80"

definition PCI_MSI_ADDRESS_LO :: nat where
  "PCI_MSI_ADDRESS_LO = 4"

definition PCI_MSI_ADDRESS_HI :: nat where
  "PCI_MSI_ADDRESS_HI = 8"

definition PCI_MSI_DATA_32 :: nat where
  "PCI_MSI_DATA_32 = 8"

definition PCI_MSI_DATA_64 :: nat where
  "PCI_MSI_DATA_64 = 12"

text \<open>Offsets are relative to the MSI capability.\<close>

definition pci_msi_setup :: "'a probe_env_scheme \<Rightarrow> eon_device \<Rightarrow> hist \<Rightarrow> eon_device" where
  "pci_msi_setup env eon h =
     (let msg_ctl = k_pci_word env h PCI_MSI_FLAGS;
          offset = (if msg_ctl AND PCI_MSI_FLAGS_64BIT \<noteq> 0 then PCI_MSI_DATA_64 else PCI_MSI_DATA_32);
          data = k_pci_word env h offset;
          addr_lo = k_pci_dword env h PCI_MSI_ADDRESS_LO;
          addr_hi = (if msg_ctl AND PCI_MSI_FLAGS_64BIT \<noteq> 0
                     then k_pci_dword env h PCI_MSI_ADDRESS_HI else 0)
      in eon\<lparr>base_addr := (base_addr eon)\<lparr>msg_data := data, msi_addr_l := addr_lo,
           msi_addr_h := addr_hi\<rparr>\<rparr>)"

definition iatu_config :: "'a kenv_scheme \<Rightarrow> eon_device \<Rightarrow> hist \<Rightarrow> hist" where
  "iatu_config env eon h =
     (let (_, h) = iatu_map_inbound_bar env eon (of_nat DESC_BAR) 0 (ucast IRAM_BASE_SOC_ADDR) (512 * 1024) h;
          (_, h) = iatu_map_outbound_bar env eon (of_nat DESC_BAR) 0 (ucast IRAM_BASE_SOC_ADDR) (512 * 1024) h
      in h)"

text \<open>\<open>pci_free_irq_vectors\<close> does nothing when no vectors are allocated.\<close>

definition pci_free_irq_vectors :: "hist \<Rightarrow> hist" where
  "pci_free_irq_vectors h = (if Res_irq_vectors \<in># held h then Ev_release Res_irq_vectors # h else h)"

definition eon_irq_init :: "'a probe_env_scheme \<Rightarrow> eon_device \<Rightarrow> hist \<Rightarrow> int \<times> eon_device \<times> hist" where
  "eon_irq_init env eon h =
     (let (n, h) = call env ''pci_alloc_irq_vectors'' h;
          h = (if n > 0 then Ev_acquire Res_irq_vectors # h else h);
          eon = eon\<lparr>irqs := word_of_int n\<rparr>
      in if irqs eon < 1 then (- EPERM, eon, h)
      else
        let (ret, h) = call env ''devm_request_irq'' h in
        if ret \<noteq> 0 then (ret, eon, pci_free_irq_vectors h)
        else
          let h = Ev_acquire Res_irq_handler # h in (0, pci_msi_setup env eon h, h))"

definition eon_irq_fini :: "hist \<Rightarrow> hist" where
  "eon_irq_fini h = pci_free_irq_vectors (Ev_release Res_irq_handler # h)"

definition get_dpu_id :: "module_state \<Rightarrow> u32 \<times> module_state" where
  "get_dpu_id s = (let ret_dpu_id = next_dpu_id s in (ret_dpu_id, s\<lparr>next_dpu_id := ret_dpu_id + 1\<rparr>))"

section \<open>Channels\<close>

text \<open>
  The loops that create the channels of one direction; they stop at the first failure. The slot is
  the array element, so \<open>hdma_init\<close> always gets an out parameter.
\<close>

primrec init_read_channels ::
  "'a probe_env_scheme \<Rightarrow> nat list \<Rightarrow> eon_device \<Rightarrow> hist \<Rightarrow> int \<times> eon_device \<times> hist" where
  "init_read_channels env [] eon_dev h = (0, eon_dev, h)"
| "init_read_channels env (i # is) eon_dev h =
     (let (ret, slot, h) = hdma_init env (Some (hdmar eon_dev i)) eon_dev (of_nat i)
            (hdma_base (base_addr eon_dev)) 0 h
      in if ret \<noteq> 0 then (ret, eon_dev, h)
      else
        let c = the (the slot);
            eon_dev = eon_dev\<lparr>hdmar := (hdmar eon_dev)(i := Some c)\<rparr>;
            h = hdma_enable eon_dev c h;
            h = hdma_msi_interrupt eon_dev c (msi_addr_h (base_addr eon_dev))
                  (msi_addr_l (base_addr eon_dev)) (msg_data (base_addr eon_dev)) h
        in init_read_channels env is eon_dev h)"

primrec init_write_channels ::
  "'a probe_env_scheme \<Rightarrow> nat list \<Rightarrow> eon_device \<Rightarrow> hist \<Rightarrow> int \<times> eon_device \<times> hist" where
  "init_write_channels env [] eon_dev h = (0, eon_dev, h)"
| "init_write_channels env (i # is) eon_dev h =
     (let (ret, slot, h) = hdma_init env (Some (hdmaw eon_dev i)) eon_dev (of_nat i)
            (hdma_base (base_addr eon_dev)) 1 h
      in if ret \<noteq> 0 then (ret, eon_dev, h)
      else
        let c = the (the slot);
            eon_dev = eon_dev\<lparr>hdmaw := (hdmaw eon_dev)(i := Some c)\<rparr>;
            h = hdma_enable eon_dev c h;
            h = hdma_msi_interrupt eon_dev c (msi_addr_h (base_addr eon_dev))
                  (msi_addr_l (base_addr eon_dev)) (msg_data (base_addr eon_dev)) h
        in init_write_channels env is eon_dev h)"

primrec exit_write_channels :: "nat list \<Rightarrow> eon_device \<Rightarrow> hist \<Rightarrow> eon_device \<times> hist" where
  "exit_write_channels [] eon_dev h = (eon_dev, h)"
| "exit_write_channels (i # is) eon_dev h =
     (case hdmaw eon_dev i of
        None \<Rightarrow> exit_write_channels is eon_dev h
      | Some c \<Rightarrow> exit_write_channels is (eon_dev\<lparr>hdmaw := (hdmaw eon_dev)(i := None)\<rparr>)
          (snd (hdma_exit c h)))"

primrec exit_read_channels :: "nat list \<Rightarrow> eon_device \<Rightarrow> hist \<Rightarrow> eon_device \<times> hist" where
  "exit_read_channels [] eon_dev h = (eon_dev, h)"
| "exit_read_channels (i # is) eon_dev h =
     (case hdmar eon_dev i of
        None \<Rightarrow> exit_read_channels is eon_dev h
      | Some c \<Rightarrow> exit_read_channels is (eon_dev\<lparr>hdmar := (hdmar eon_dev)(i := None)\<rparr>)
          (snd (hdma_exit c h)))"

section \<open>Probe\<close>

definition kthread_stop :: "hist \<Rightarrow> hist" where
  "kthread_stop h = Ev_release Res_kthread # h"

definition kfifo_free :: "hist \<Rightarrow> hist" where
  "kfifo_free h = Ev_release Res_kfifo # h"

text \<open>The labels of the error exits, from the last to the first.\<close>

definition err_char_dev :: "int \<Rightarrow> eon_device \<Rightarrow> hist \<Rightarrow> (int \<times> eon_device \<times> hist) option" where
  "err_char_dev ret eon_dev h = Some (ret, eon_dev, pci_free_irq_vectors h)"

definition err_kfifo :: "int \<Rightarrow> eon_device \<Rightarrow> hist \<Rightarrow> (int \<times> eon_device \<times> hist) option" where
  "err_kfifo ret eon_dev h =
     (case char_dev_fini eon_dev h of None \<Rightarrow> None | Some (_, h) \<Rightarrow> err_char_dev ret eon_dev h)"

definition err_kthread_run :: "int \<Rightarrow> eon_device \<Rightarrow> hist \<Rightarrow> (int \<times> eon_device \<times> hist) option" where
  "err_kthread_run ret eon_dev h = err_kfifo ret eon_dev (kfifo_free h)"

definition probe_exit :: "int \<Rightarrow> eon_device \<Rightarrow> hist \<Rightarrow> (int \<times> eon_device \<times> hist) option" where
  "probe_exit ret eon_dev h =
     (let (eon_dev, h) = exit_write_channels [0..<MAX_HDMA_NUMBER] eon_dev h;
          (eon_dev, h) = exit_read_channels [0..<MAX_HDMA_NUMBER] eon_dev h
      in err_kthread_run ret eon_dev (kthread_stop h))"

definition zero_eon_device :: "u64 \<Rightarrow> eon_device" where
  "zero_eon_device p =
     \<lparr>dev_ptr = p, pdev = 0, bar = (\<lambda>_. \<lparr>paddr = 0, vaddr = 0, bar_sz = 0\<rparr>), irqs = 0,
      base_addr = \<lparr>iatu_base = 0, hdma_base = 0, msi_addr_l = 0, msi_addr_h = 0, msg_data = 0\<rparr>,
      dpu_id = 0, char_ctx = None, hdmar = (\<lambda>_. None), hdmaw = (\<lambda>_. None), config_bar_base = 0,
      conbar_lock = p, hdma_thread = 0, hdma_kfifo = [], thread_wq = p, should_stop_flag = 0\<rparr>"

text \<open>The device structure before the interrupts are set up.\<close>

definition probe_device :: "'a probe_env_scheme \<Rightarrow> u64 \<Rightarrow> u64 \<Rightarrow> u32 \<Rightarrow> eon_device" where
  "probe_device env p pd n =
     (let eon_dev = (zero_eon_device p)\<lparr>pdev := pd, dpu_id := n,
            bar := (\<lambda>i. if i \<le> 5 then \<lparr>paddr = k_bar_start env i, vaddr = k_iomap env i, bar_sz = k_bar_len env i\<rparr>
                        else \<lparr>paddr = 0, vaddr = 0, bar_sz = 0\<rparr>)\<rparr>
      in eon_dev\<lparr>base_addr := (base_addr eon_dev)\<lparr>
           iatu_base := vaddr (bar eon_dev ATU_HDMA_BAR) + IATU_BASE_OFFSET,
           hdma_base := vaddr (bar eon_dev ATU_HDMA_BAR) + HDMA_BASE_BAR_OFFSET\<rparr>\<rparr>)"

text \<open>From the thread on.\<close>

definition probe_channels ::
  "'a probe_env_scheme \<Rightarrow> eon_device \<Rightarrow> hist \<Rightarrow> (int \<times> eon_device \<times> hist) option" where
  "probe_channels env eon_dev h =
     (let thr = k_kthread_run env h;
          eon_dev = eon_dev\<lparr>should_stop_flag := 0, hdma_thread := thr\<rparr>
      in if thr = - 12 then err_kthread_run (- ENOMEM) eon_dev h
      else
        let h = (if IS_ERR thr then h else Ev_acquire Res_kthread # h);
            (ret, eon_dev, h) = init_read_channels env [0..<MAX_HDMA_NUMBER] eon_dev h
        in if ret \<noteq> 0 then probe_exit ret eon_dev h
        else
          let (ret, eon_dev, h) = init_write_channels env [0..<MAX_HDMA_NUMBER] eon_dev h
          in if ret \<noteq> 0 then probe_exit ret eon_dev h else Some (0, eon_dev, h))"

text \<open>
  The result carries the device structure once it is stored as driver data. When the DMA mask
  cannot be set, the code jumps to \<open>exit\<close> with \<open>eon_dev\<close> uninitialised.
\<close>

definition eon_probe ::
  "'a probe_env_scheme \<Rightarrow> module_state \<Rightarrow> u64 \<Rightarrow> hist \<Rightarrow>
   (int \<times> module_state \<times> eon_device option \<times> hist) option" where
  "eon_probe env s pd h =
     (let (ret, h) = call env ''pcim_enable_device'' h in
      if ret \<noteq> 0 then Some (ret, s, None, h)
      else
        let (_, h) = call env ''pcie_capability_set_word'' h;
            (_, h) = call env ''pcie_set_readrq'' h;
            (ret, h) = call env ''pcim_iomap_regions'' h
        in if ret \<noteq> 0 then Some (ret, s, None, h)
        else
          let (_, h) = call env ''pci_set_master'' h;
              (ret, h) = set_dma_mask env h
          in if ret \<noteq> 0 then None
          else
            let p = k_alloc env h (k_sizeof env ''struct eon_device'') in
            if p = 0 then Some (- EPERM, s, None, h)
            else
              let (n, s) = get_dpu_id s;
                  eon_dev = probe_device env p pd n;
                  (ret, eon_dev, h) = eon_irq_init env eon_dev h
              in if ret \<noteq> 0 then Some (ret, s, Some eon_dev, h)
              else
                let h = iatu_config env eon_dev h;
                    (ret, eon_dev, h) = char_dev_init env eon_dev h
                in map_option (\<lambda>(ret, eon_dev, h). (ret, s, Some eon_dev, h))
                  (if ret \<noteq> 0 then err_char_dev ret eon_dev h
                   else
                     let (e, h) = call env ''kfifo_alloc'' h in
                     if e \<noteq> 0 then err_kfifo ret eon_dev h
                     else probe_channels env eon_dev (Ev_acquire Res_kfifo # h)))"

section \<open>Remove, module init and exit\<close>

definition eon_remove :: "eon_device \<Rightarrow> hist \<Rightarrow> (eon_device \<times> hist) option" where
  "eon_remove dev h =
     (let dev = dev\<lparr>should_stop_flag := 1\<rparr>;
          h = wake_up (thread_wq dev) (kthread_stop h);
          h = eon_irq_fini h;
          (dev, h) = exit_write_channels [0..<MAX_HDMA_NUMBER] dev h;
          (dev, h) = exit_read_channels [0..<MAX_HDMA_NUMBER] dev h;
          h = kfifo_free h
      in case char_dev_fini dev h of None \<Rightarrow> None
         | Some (_, h) \<Rightarrow> Some (dev, pci_free_irq_vectors h))"

definition eon_init :: "'a probe_env_scheme \<Rightarrow> u32 \<Rightarrow> module_state \<Rightarrow> hist \<Rightarrow> int \<times> module_state \<times> hist" where
  "eon_init env major s h =
     (let (ret, h) = call env ''alloc_chrdev_region'' h in
      if ret < 0 then (ret, s, h)
      else
        let h = Ev_acquire Res_chrdev_region # h;
            cl = k_class_create env h;
            s = s\<lparr>eon_dpu_major := major, eon_class := cl\<rparr>
        in if IS_ERR cl then (sint cl, s, Ev_release Res_chrdev_region # h)
        else
          let h = Ev_acquire Res_class # h;
              (ret, h) = call env ''pci_register_driver'' h
          in if ret \<noteq> 0
             then (ret, s, Ev_release Res_chrdev_region # Ev_release Res_class # h)
             else (0, s, Ev_acquire Res_pci_driver # h))"

definition eon_exit :: "hist \<Rightarrow> hist" where
  "eon_exit h = Ev_release Res_chrdev_region # Ev_release Res_class # Ev_release Res_pci_driver # h"

section \<open>Creating the channels\<close>

definition slot_of :: "u32 \<Rightarrow> nat \<Rightarrow> slot" where
  "slot_of t i = (if t = 1 then Wr i else Rd i)"

lemma slot_of_eq [simp]: "slot_of t i = slot_of t j \<longleftrightarrow> i = j"
  by (simp add: slot_of_def)

text \<open>Both loops are one function of the direction.\<close>

primrec init_chans ::
  "'a probe_env_scheme \<Rightarrow> u32 \<Rightarrow> nat list \<Rightarrow> eon_device \<Rightarrow> hist \<Rightarrow> int \<times> eon_device \<times> hist" where
  "init_chans env t [] dev h = (0, dev, h)"
| "init_chans env t (i # is) dev h =
     (let (ret, slot, h) = hdma_init env (Some (chan_at dev (slot_of t i))) dev (of_nat i)
            (hdma_base (base_addr dev)) t h
      in if ret \<noteq> 0 then (ret, dev, h)
      else let c = the (the slot) in
        init_chans env t is (put_chan (slot_of t i) c dev)
          (hdma_msi_interrupt dev c (msi_addr_h (base_addr dev)) (msi_addr_l (base_addr dev))
            (msg_data (base_addr dev)) (hdma_enable dev c h)))"

lemma init_read_eq: "init_read_channels env is dev h = init_chans env 0 is dev h"
  by (induction "is" arbitrary: dev h)
    (simp_all add: slot_of_def Let_def hdma_msi_interrupt_def hdma_enable_def hdma_writel_def
      split: prod.split)

lemma init_write_eq: "init_write_channels env is dev h = init_chans env 1 is dev h"
  by (induction "is" arbitrary: dev h)
    (simp_all add: slot_of_def Let_def hdma_msi_interrupt_def hdma_enable_def hdma_writel_def
      split: prod.split)

lemma hdma_init_ok:
  assumes "k_alloc env h (k_sizeof env ''struct hdma_context'') \<noteq> 0"
  obtains c where "hdma_init env (Some old) dev n b t h = (0, Some (Some c), Ev_acquire (Res_kmem (hc_ptr c)) # h)"
    "hc_ctx c = hdma_regs_of b n t" "hc_ptr c \<noteq> 0"
proof -
  define c where "c = the (the (fst (snd (hdma_init env (Some old) dev n b t h))))"
  show ?thesis
    by (rule that [of c])
      (use assms in \<open>simp_all add: c_def hdma_init_def kmalloc_def Let_def hdma_regs_of_def\<close>)
qed

definition programmed :: "eon_device \<Rightarrow> hdma_context \<Rightarrow> hist \<Rightarrow> bool" where
  "programmed dev c h \<longleftrightarrow>
     (let m = Some (join64 (msi_addr_h (base_addr dev)) (msi_addr_l (base_addr dev))) in
      reg_val c EN h = Some 1 \<and> pair_val c MSI_STOP_HIGH MSI_STOP_LOW h = m \<and>
      pair_val c MSI_ABORT_HIGH MSI_ABORT_LOW h = m \<and>
      pair_val c MSI_WATERMARK_HIGH MSI_WATERMARK_LOW h = m \<and>
      reg_val c MSI_MSGD h = Some (ucast (msg_data (base_addr dev))))"

definition start_cmds :: "eon_device \<Rightarrow> chan_cmd list" where
  "start_cmds dev = [Cmd_enable, Cmd_msi (msi_addr_h (base_addr dev)) (msi_addr_l (base_addr dev))
     (msg_data (base_addr dev))]"

lemma start_cmds_eq:
  "hdma_msi_interrupt dev c (msi_addr_h (base_addr dev)) (msi_addr_l (base_addr dev))
    (msg_data (base_addr dev)) (hdma_enable dev c h) = run_cmds env dev (start_cmds dev) c h"
  by (simp add: run_cmds_def start_cmds_def)

lemma programmed_start:
  assumes "is_channel b n t c"
  shows "programmed dev c (run_cmds env dev (start_cmds dev) c h)"
  by (simp add: programmed_def run_cmds_def start_cmds_def hdma_msi_interrupt_regs [OF assms]
      hdma_enable_regs [OF assms])

lemma programmed_cong:
  "(\<And>r. reg_val c r h' = reg_val c r h) \<Longrightarrow> programmed dev c h' = programmed dev c h"
  by (simp add: programmed_def pair_val_def)

definition mem_ok :: "'a kenv_scheme \<Rightarrow> bool" where
  "mem_ok env \<longleftrightarrow> (\<forall>h n. k_alloc env h n \<noteq> 0)"

definition chan_ptrs :: "eon_device \<Rightarrow> u32 \<Rightarrow> nat list \<Rightarrow> resource multiset" where
  "chan_ptrs dev t is = mset (map (\<lambda>i. Res_kmem (hc_ptr (the (chan_at dev (slot_of t i))))) is)"

definition frame_regs :: "eon_device \<Rightarrow> u32 \<Rightarrow> nat list \<Rightarrow> hist \<Rightarrow> hist \<Rightarrow> bool" where
  "frame_regs dev t is h h' \<longleftrightarrow>
     (\<forall>a. (\<forall>i \<in> set is. \<forall>r. a \<noteq> hdma_reg_at (hdma_block dev) (of_nat i) (rw_of t, r)) \<longrightarrow>
        last_write a h' = last_write a h)"

lemma put_chan_other [simp]:
  "base_addr (put_chan s c dev) = base_addr dev" "bar (put_chan s c dev) = bar dev"
  "hdma_block (put_chan s c dev) = hdma_block dev" "char_ctx (put_chan s c dev) = char_ctx dev"
  "config_bar_base (put_chan s c dev) = config_bar_base dev" "dpu_id (put_chan s c dev) = dpu_id dev"
  by (cases s; simp add: hdma_block_def)+

lemma unat_of_nat_16: "i < 16 \<Longrightarrow> unat (of_nat i :: u32) = i"
  by (simp add: unat_of_nat take_bit_nat_eq_self)

text \<open>What the loop achieves when memory does not run out.\<close>

definition chans_made :: "u32 \<Rightarrow> nat list \<Rightarrow> eon_device \<Rightarrow> hist \<Rightarrow> eon_device \<Rightarrow> hist \<Rightarrow> bool" where
  "chans_made t is dev h dev' h' \<longleftrightarrow>
     base_addr dev' = base_addr dev \<and> bar dev' = bar dev \<and> char_ctx dev' = char_ctx dev \<and>
     config_bar_base dev' = config_bar_base dev \<and> dpu_id dev' = dpu_id dev \<and>
     (\<forall>s. s \<notin> slot_of t ` set is \<longrightarrow> chan_at dev' s = chan_at dev s) \<and>
     (\<forall>i \<in> set is. \<exists>c. chan_at dev' (slot_of t i) = Some c \<and> hc_ptr c \<noteq> 0 \<and>
        is_channel (hdma_block dev) (of_nat i) t c \<and> programmed dev c h') \<and>
     held h' = held h + chan_ptrs dev' t is \<and> no_bad_release h' = no_bad_release h \<and>
     locks h' = locks h \<and> frame_regs dev t is h h'"

lemma frame_regs_reg_val:
  assumes "frame_regs dev t is h h'" and "is_channel (hdma_block dev) (of_nat i) u c"
    and "\<forall>i \<in> set is. i < 16" and "i < 16" and "rw_of u \<noteq> rw_of t \<or> i \<notin> set is"
  shows "reg_val c r h' = reg_val c r h"
proof -
  have c: "reg_sel r (hc_ctx c) = hdma_reg_at (hdma_block dev) (of_nat i) (rw_of u, r)"
    using assms(2) by (simp add: is_channel_def reg_sel_regs_of)
  have "hdma_reg_at (hdma_block dev) (of_nat i) (rw_of u, r) \<noteq>
      hdma_reg_at (hdma_block dev) (of_nat j) (rw_of t, q)" if "j \<in> set is" for j q
  proof -
    have b: "unat (of_nat i :: u32) < 16" "unat (of_nat j :: u32) < 16"
      using assms(3,4) that by (simp_all add: unat_of_nat_16)
    have "(of_nat i :: u32) = of_nat j \<longleftrightarrow> i = j"
      using assms(3,4) that by (metis unat_of_nat_16)
    then show ?thesis using assms(5) that by (auto simp: hdma.reg_eq_iff [OF b])
  qed
  then show ?thesis using assms(1) unfolding reg_val_def c frame_regs_def by blast
qed

lemma init_chans_made:
  assumes "mem_ok env" and "distinct is" and "\<forall>i \<in> set is. i < 16"
    and "hdma_base (base_addr dev) = hdma_block dev"
  obtains dev' h' where "init_chans env t is dev h = (0, dev', h')" "chans_made t is dev h dev' h'"
  using assms(2-4)
proof (induction "is" arbitrary: dev h thesis)
  case Nil
  then show ?case by (simp add: chans_made_def chan_ptrs_def frame_regs_def)
next
  case (Cons i js)
  obtain c where c: "hdma_init env (Some (chan_at dev (slot_of t i))) dev (of_nat i) (hdma_block dev) t h =
      (0, Some (Some c), Ev_acquire (Res_kmem (hc_ptr c)) # h)"
    "hc_ctx c = hdma_regs_of (hdma_block dev) (of_nat i) t" "hc_ptr c \<noteq> 0"
    using hdma_init_ok [of env h] assms(1) unfolding mem_ok_def by blast
  have i: "i < 16" "i \<notin> set js" using Cons.prems(2,3) by simp_all
  have ch: "is_channel (hdma_block dev) (of_nat i) t c"
    using c(2) i(1) by (simp add: is_channel_def unat_of_nat_16)
  let ?h = "Ev_acquire (Res_kmem (hc_ptr c)) # h"
  let ?g = "run_cmds env dev (start_cmds dev) c ?h"
  let ?d = "put_chan (slot_of t i) c dev"
  obtain dev' h' where r: "init_chans env t js ?d ?g = (0, dev', h')" "chans_made t js ?d ?g dev' h'"
    using Cons.IH [of ?d ?g] Cons.prems(2-4) by auto
  have run: "init_chans env t (i # js) dev h = (0, dev', h')"
    using r(1) c(1) Cons.prems(4) by (simp add: Let_def start_cmds_eq [where env = env])
  note m = r(2) [unfolded chans_made_def]
  have own: "chan_at dev' (slot_of t i) = Some c"
  proof -
    have "slot_of t i \<notin> slot_of t ` set js" using i(2) by auto
    then have "chan_at dev' (slot_of t i) = chan_at ?d (slot_of t i)" using m by blast
    then show ?thesis by (simp add: chan_at_put)
  qed
  have keep: "programmed dev c h'"
  proof -
    have "frame_regs dev t js ?g h'" using m by (simp add: frame_regs_def)
    then have "reg_val c r h' = reg_val c r ?g" for r
      using Cons.prems(3) i ch by (intro frame_regs_reg_val [of dev t js ?g h' i t c]) simp_all
    then show ?thesis using programmed_start [OF ch, of dev env ?h] programmed_cong by blast
  qed
  have frame: "frame_regs dev t (i # js) h h'"
  proof -
    have "last_write a ?g = last_write a h"
      if "\<forall>r. a \<noteq> hdma_reg_at (hdma_block dev) (of_nat i) (rw_of t, r)" for a
    proof -
      have "a \<notin> chan_addrs c" using that by (auto simp: chan_addrs_channel [OF ch])
      then show ?thesis by (simp add: accesses_last_write [OF cmds.op_accesses])
    qed
    then show ?thesis using m by (auto simp: frame_regs_def)
  qed
  have g: "held ?g = add_mset (Res_kmem (hc_ptr c)) (held h)" "no_bad_release ?g = no_bad_release h"
    "locks ?g = locks h"
    by (simp_all add: cmds.op_frame_kernel)
  have "held h' = held h + chan_ptrs dev' t (i # js)"
    using m own g(1) by (simp add: chan_ptrs_def del: chan_at.simps)
  moreover have "\<forall>k \<in> set (i # js). \<exists>c. chan_at dev' (slot_of t k) = Some c \<and> hc_ptr c \<noteq> 0 \<and>
      is_channel (hdma_block dev) (of_nat k) t c \<and> programmed dev c h'"
    using m own keep c(3) ch by (auto simp: programmed_def)
  moreover have "\<forall>s. s \<notin> slot_of t ` set (i # js) \<longrightarrow> chan_at dev' s = chan_at dev s"
    using m by (auto simp: chan_at_put)
  ultimately have "chans_made t (i # js) dev h dev' h'"
    using m g(2,3) frame by (simp add: chans_made_def)
  with run show ?case by (rule Cons.prems(1))
qed

section \<open>Freeing the channels\<close>

fun clear_chan :: "slot \<Rightarrow> eon_device \<Rightarrow> eon_device" where
  "clear_chan (Rd i) dev = dev\<lparr>hdmar := (hdmar dev)(i := None)\<rparr>"
| "clear_chan (Wr i) dev = dev\<lparr>hdmaw := (hdmaw dev)(i := None)\<rparr>"

primrec exit_chans :: "u32 \<Rightarrow> nat list \<Rightarrow> eon_device \<Rightarrow> hist \<Rightarrow> eon_device \<times> hist" where
  "exit_chans t [] dev h = (dev, h)"
| "exit_chans t (i # is) dev h =
     (case chan_at dev (slot_of t i) of
        None \<Rightarrow> exit_chans t is dev h
      | Some c \<Rightarrow> exit_chans t is (clear_chan (slot_of t i) dev) (kfree (hc_ptr c) h))"

lemma exit_write_eq: "exit_write_channels is dev h = exit_chans 1 is dev h"
  by (induction "is" arbitrary: dev h) (simp_all add: slot_of_def hdma_exit_def split: option.split)

lemma exit_read_eq: "exit_read_channels is dev h = exit_chans 0 is dev h"
  by (induction "is" arbitrary: dev h) (simp_all add: slot_of_def hdma_exit_def split: option.split)

lemma chan_at_clear: "chan_at (clear_chan s dev) t = (if s = t then None else chan_at dev t)"
  by (cases s; cases t) auto

lemma clear_chan_fields [simp]:
  "char_ctx (clear_chan s dev) = char_ctx dev" "dpu_id (clear_chan s dev) = dpu_id dev"
  by (cases s; simp)+

definition chans_freed :: "u32 \<Rightarrow> nat list \<Rightarrow> eon_device \<Rightarrow> eon_device \<Rightarrow> bool" where
  "chans_freed t is dev dev' \<longleftrightarrow> char_ctx dev' = char_ctx dev \<and> dpu_id dev' = dpu_id dev \<and>
     (\<forall>s. chan_at dev' s = (if s \<in> slot_of t ` set is then None else chan_at dev s))"

text \<open>Freeing channels whose contexts are held frees each once.\<close>

lemma exit_chans_freed:
  assumes "distinct is" and "held h = D + chan_ptrs dev t is"
    and "\<forall>i \<in> set is. \<exists>c. chan_at dev (slot_of t i) = Some c \<and> hc_ptr c \<noteq> 0"
  shows "\<exists>dev' h'. exit_chans t is dev h = (dev', h') \<and> chans_freed t is dev dev' \<and> held h' = D \<and>
    no_bad_release h' = no_bad_release h \<and> locks h' = locks h"
  using assms
proof (induction "is" arbitrary: dev h)
  case Nil
  then show ?case by (simp add: chans_freed_def chan_ptrs_def)
next
  case (Cons i js)
  obtain c where c: "chan_at dev (slot_of t i) = Some c" "hc_ptr c \<noteq> 0" using Cons.prems(3) by auto
  let ?d = "clear_chan (slot_of t i) dev" and ?h = "kfree (hc_ptr c) h"
  have other: "chan_at ?d (slot_of t j) = chan_at dev (slot_of t j)" if "j \<in> set js" for j
    using that Cons.prems(1) by (auto simp: chan_at_clear)
  have ptrs: "chan_ptrs ?d t js = chan_ptrs dev t js"
    unfolding chan_ptrs_def using other by (intro arg_cong [where f = mset] map_cong) simp_all
  have "held h = D + add_mset (Res_kmem (hc_ptr c)) (chan_ptrs dev t js)"
    using Cons.prems(2) c(1) by (simp add: chan_ptrs_def)
  then have h: "held ?h = D + chan_ptrs ?d t js" "no_bad_release ?h = no_bad_release h"
    using c(2) ptrs by (simp_all add: kfree_def)
  have "\<forall>j \<in> set js. \<exists>c. chan_at ?d (slot_of t j) = Some c \<and> hc_ptr c \<noteq> 0"
    using Cons.prems(3) other by simp
  from Cons.IH [OF _ h(1) this] obtain dev' h' where r: "exit_chans t js ?d ?h = (dev', h')"
    "chans_freed t js ?d dev'" "held h' = D" "no_bad_release h' = no_bad_release ?h" "locks h' = locks ?h"
    using Cons.prems(1) by auto
  have "chans_freed t (i # js) dev dev'"
    using r(2) by (auto simp: chans_freed_def chan_at_clear)
  then show ?case using r h c(1) by simp
qed

section \<open>A probe that succeeds\<close>

text \<open>Up to the FIFO, and to the end, every kernel call does its part.\<close>

definition front_ok :: "'a probe_env_scheme \<Rightarrow> bool" where
  "front_ok env \<longleftrightarrow> mem_ok env \<and>
     (\<forall>h n. n \<noteq> ''kfifo_alloc'' \<longrightarrow> k_call env h n = (if n = ''pci_alloc_irq_vectors'' then 1 else 0)) \<and>
     (\<forall>h n. k_device_create env h n \<noteq> 0 \<and> \<not> IS_ERR (k_device_create env h n))"

definition probe_ok :: "'a probe_env_scheme \<Rightarrow> bool" where
  "probe_ok env \<longleftrightarrow> front_ok env \<and> (\<forall>h. k_call env h ''kfifo_alloc'' = 0) \<and>
     (\<forall>h. \<not> IS_ERR (k_kthread_run env h))"

lemma IS_ERR_ENOMEM: "IS_ERR (- 12)"
  by (simp add: IS_ERR_def)

lemma irq_init_ok:
  assumes "front_ok env"
  obtains h' where "eon_irq_init env dev h = (0, pci_msi_setup env (dev\<lparr>irqs := 1\<rparr>) h', h')"
    "kernel_only h h'" "held h' = held h + {#Res_irq_vectors, Res_irq_handler#}"
    "no_bad_release h' = no_bad_release h" "locks h' = locks h"
  using assms
  by (simp add: eon_irq_init_def call_def front_ok_def Let_def)

lemma iatu_config_eq:
  "iatu_config env dev h =
     atu_program env dev Outbound 4 0 0x48000000 (512 * 1024)
       (atu_program env dev Inbound 4 0 0x48000000 (512 * 1024) h)"
  by (simp add: iatu_config_def iatu_map_inbound_bar_eq iatu_map_outbound_bar_eq DESC_BAR_def
      IRAM_BASE_SOC_ADDR_def)

lemma char_dev_init_ok:
  assumes "front_ok env"
  obtains ctx h' where "char_dev_init env dev h = (0, dev\<lparr>char_ctx := Some ctx\<rparr>, h')" "kernel_only h h'"
    "held h' = held h + {#Res_kmem (cc_ptr ctx), Res_cdev (cc_ptr ctx), Res_char_device (dpu_id dev)#}"
    "no_bad_release h' = no_bad_release h" "locks h' = locks h"
proof -
  obtain p h1 where k: "kmalloc env (k_sizeof env ''struct char_dev_ctx'') h = (p, h1)" by fastforce
  let ?h2 = "Ev_acquire (Res_cdev p) # Ev_call ''cdev_add'' 0 # h1"
  obtain q h3 where n: "kmalloc env (k_sizeof env ''name'') ?h2 = (q, h3)" by fastforce
  have ok: "p \<noteq> 0" "q \<noteq> 0"
    using k n assms by (auto simp: kmalloc_def front_ok_def mem_ok_def Let_def split: if_splits)
  let ?d = "k_device_create env h3 (dpu_id dev)"
  have d: "?d \<noteq> 0" "\<not> IS_ERR ?d" "k_call env h1 ''cdev_add'' = 0" using assms by (simp_all add: front_ok_def)
  let ?c = "\<lparr>cc_ptr = p, cc_char_dev = ?d, cc_dpu_dev = dev_ptr dev\<rparr>"
  let ?h = "kfree q (Ev_acquire (Res_char_device (dpu_id dev)) # h3)"
  have "kernel_only h h1" "kernel_only ?h2 h3" using kernel_only_alloc(2) k n by blast+
  then have "kernel_only h ?h2" "kernel_only ?h2 ?h" by simp_all
  then have "kernel_only h ?h" by (rule kernel_only_trans)
  moreover have "char_dev_init env dev h = (0, dev\<lparr>char_ctx := Some ?c\<rparr>, ?h)"
    using ok d by (simp add: char_dev_init_def k n Let_def)
  moreover have "held ?h = held h + {#Res_kmem p, Res_cdev p, Res_char_device (dpu_id dev)#}"
    "no_bad_release ?h = no_bad_release h" "locks ?h = locks h"
    using kmalloc_res [OF k] kmalloc_res [OF n] alloc_locks(2) [OF k] alloc_locks(2) [OF n] ok
    by (simp_all add: kfree_def add_mset_commute)
  ultimately show ?thesis by (intro that [of ?c ?h]) simp_all
qed

lemma atu_not_channel:
  assumes "i < 16"
  shows "atu_reg_at (atu_base dev) m r \<noteq> hdma_reg_at (hdma_block dev) (of_nat i) q"
proof -
  let ?c = "demo_channel\<lparr>hc_ctx := hdma_regs_of (hdma_block dev) (of_nat i) (if fst q = WrCh then 1 else 0)\<rparr>"
  have ch: "is_channel (hdma_block dev) (of_nat i) (if fst q = WrCh then 1 else 0) ?c"
    using assms by (simp add: is_channel_def unat_of_nat_16)
  then have "dev_channel dev (of_nat i) (if fst q = WrCh then 1 else 0) ?c" by (simp add: dev_channel_def)
  moreover have "hdma_reg_at (hdma_block dev) (of_nat i) q \<in> chan_addrs ?c"
  proof -
    have "rw_of (if fst q = WrCh then 1 else 0) = fst q" by (cases "fst q") (simp_all add: rw_of_def)
    then have "hdma_reg_at (hdma_block dev) (of_nat i) q =
        hdma_reg_at (hdma_block dev) (of_nat i) (rw_of (if fst q = WrCh then 1 else 0), snd q)" by simp
    then show ?thesis unfolding chan_addrs_channel [OF ch] by blast
  qed
  ultimately show ?thesis using chan_not_atu by metis
qed

lemma frame_regs_atu:
  assumes "frame_regs dev t is h h'" and "\<forall>i \<in> set is. i < 16"
  shows "atu_target dev d m h' = atu_target dev d m h"
  using assms atu_not_channel unfolding frame_regs_def atu_target_def atu_reg_val_def by simp

definition all_chans :: "nat list" where
  "all_chans = [0..<MAX_HDMA_NUMBER]"

lemma all_chans [simp]: "distinct all_chans" "i \<in> set all_chans \<longleftrightarrow> i < 16"
  by (simp_all add: all_chans_def MAX_HDMA_NUMBER_def)

text \<open>All channels of both directions present, of this device, and programmed.\<close>

definition chans_up :: "eon_device \<Rightarrow> hist \<Rightarrow> bool" where
  "chans_up dev h \<longleftrightarrow> (\<forall>i < 16. \<forall>t \<in> {0, 1}. \<exists>c. chan_at dev (slot_of t i) = Some c \<and> hc_ptr c \<noteq> 0 \<and>
     dev_channel dev (of_nat i) t c \<and> programmed dev c h)"

definition same_base :: "eon_device \<Rightarrow> eon_device \<Rightarrow> bool" where
  "same_base dev dev' \<longleftrightarrow> base_addr dev' = base_addr dev \<and> bar dev' = bar dev \<and>
     char_ctx dev' = char_ctx dev \<and> config_bar_base dev' = config_bar_base dev \<and> dpu_id dev' = dpu_id dev"

lemma programmed_base: "base_addr dev' = base_addr dev \<Longrightarrow> programmed dev' c h = programmed dev c h"
  by (simp add: programmed_def)

lemma probe_channels_ok:
  assumes "probe_ok env" and "hdma_base (base_addr dev) = hdma_block dev"
  obtains dev' h' where "probe_channels env dev h = Some (0, dev', h')" "same_base dev dev'" "chans_up dev' h'"
    "held h' = add_mset Res_kthread (held h) + chan_ptrs dev' 0 all_chans + chan_ptrs dev' 1 all_chans"
    "no_bad_release h' = no_bad_release h" "locks h' = locks h"
    "\<forall>d m. atu_target dev d m h' = atu_target dev d m h"
proof -
  let ?t = "k_kthread_run env h"
  let ?d = "dev\<lparr>should_stop_flag := 0, hdma_thread := ?t\<rparr>" and ?h = "Ev_acquire Res_kthread # h"
  have no_err: "\<not> IS_ERR ?t" using assms(1) by (simp add: probe_ok_def)
  then have "?t \<noteq> - 12" using IS_ERR_ENOMEM by metis
  with no_err assms(1) have t: "\<not> IS_ERR ?t" "?t \<noteq> - 12" "mem_ok env" by (simp_all add: probe_ok_def front_ok_def)
  have b: "hdma_block ?d = hdma_block dev" by (simp add: hdma_block_def)
  obtain d1 h1 where r: "init_chans env 0 all_chans ?d ?h = (0, d1, h1)" "chans_made 0 all_chans ?d ?h d1 h1"
    by (rule init_chans_made [OF t(3), of all_chans ?d 0 ?h]) (use assms(2) b in simp_all)
  note R = r(2) [unfolded chans_made_def]
  have b1: "hdma_block d1 = hdma_block dev" using R by (simp add: hdma_block_def)
  obtain d2 h2 where w: "init_chans env 1 all_chans d1 h1 = (0, d2, h2)" "chans_made 1 all_chans d1 h1 d2 h2"
    by (rule init_chans_made [OF t(3), of all_chans d1 1 h1]) (use assms(2) b1 R in simp_all)
  note W = w(2) [unfolded chans_made_def]
  have base: "same_base dev d2" using R W by (simp add: same_base_def)
  then have b2: "hdma_block d2 = hdma_block dev" by (simp add: hdma_block_def same_base_def)
  have "slot_of 0 i \<notin> slot_of 1 ` set all_chans" for i by (auto simp: slot_of_def)
  then have keep: "chan_at d2 (slot_of 0 i) = chan_at d1 (slot_of 0 i)" for i using W by blast
  have up: "chans_up d2 h2"
    unfolding chans_up_def
  proof (intro allI impI ballI)
    fix i :: nat and u :: u32 assume i: "i < 16" and u: "u \<in> {0, 1}"
    show "\<exists>c. chan_at d2 (slot_of u i) = Some c \<and> hc_ptr c \<noteq> 0 \<and> dev_channel d2 (of_nat i) u c \<and> programmed d2 c h2"
    proof (cases "u = 1")
      case True
      then obtain c where c: "chan_at d2 (slot_of 1 i) = Some c" "hc_ptr c \<noteq> 0"
        "is_channel (hdma_block d1) (of_nat i) 1 c" "programmed d1 c h2"
        using W i by (meson all_chans(2))
      have "programmed d2 c h2" using c(4) W programmed_base by metis
      then show ?thesis using c True b1 b2 by (auto simp: dev_channel_def)
    next
      case False
      then have u: "u = 0" using u by simp
      obtain c where c: "chan_at d1 (slot_of 0 i) = Some c" "hc_ptr c \<noteq> 0"
        "is_channel (hdma_block ?d) (of_nat i) 0 c" "programmed ?d c h1"
        using R i by (meson all_chans(2))
      have "reg_val c r h2 = reg_val c r h1" for r
      proof (rule frame_regs_reg_val)
        show "frame_regs d1 1 all_chans h1 h2" using W by blast
        show "is_channel (hdma_block d1) (of_nat i) 0 c" using c(3) b b1 by simp
      qed (simp_all add: i rw_of_def)
      then have "programmed ?d c h2" using c(4) programmed_cong by blast
      moreover have "base_addr d2 = base_addr ?d" using R W by simp
      ultimately have "programmed d2 c h2" using programmed_base by blast
      then show ?thesis using c keep u b b2 by (auto simp: dev_channel_def)
    qed
  qed
  have ptrs: "chan_ptrs d1 0 all_chans = chan_ptrs d2 0 all_chans" by (simp add: chan_ptrs_def keep)
  have run: "probe_channels env dev h = Some (0, d2, h2)"
    using r(1) w(1) t
    by (simp add: probe_channels_def init_read_eq init_write_eq all_chans_def Let_def)
  have atu: "atu_target dev d m h2 = atu_target dev d m h" for d m
  proof -
    have "frame_regs ?d 0 all_chans ?h h1" "frame_regs d1 1 all_chans h1 h2" using R W by blast+
    then have "atu_target ?d d m h1 = atu_target ?d d m ?h" "atu_target d1 d m h2 = atu_target d1 d m h1"
      using frame_regs_atu [of ?d 0 all_chans ?h h1] frame_regs_atu [of d1 1 all_chans h1 h2] by simp_all
    moreover have "atu_target d1 = atu_target dev" "atu_target ?d = atu_target dev"
      using R by (simp_all add: atu_target_def atu_reg_val_def atu_base_def fun_eq_iff)
    ultimately show ?thesis by (simp add: atu_frames)
  qed
  show ?thesis
    using R W base up ptrs atu by (intro that [OF run]) (simp_all add: ac_simps)
qed

text \<open>The resources of a device that is up: a context block, the cdev, the FIFO, the thread, the contexts.\<close>

definition up_res :: "eon_device \<Rightarrow> resource multiset" where
  "up_res dev =
     {#Res_irq_vectors, Res_irq_handler, Res_cdev (cc_ptr (the (char_ctx dev))),
       Res_char_device (dpu_id dev), Res_kfifo, Res_kthread#}
     + chan_ptrs dev 0 all_chans + chan_ptrs dev 1 all_chans"

definition ctx_leak :: "eon_device \<Rightarrow> resource multiset" where
  "ctx_leak dev = {#Res_kmem (cc_ptr (the (char_ctx dev)))#}"

lemma msi_fields [simp]:
  "bar (pci_msi_setup env dev h) = bar dev" "dpu_id (pci_msi_setup env dev h) = dpu_id dev"
  "char_ctx (pci_msi_setup env dev h) = char_ctx dev"
  "config_bar_base (pci_msi_setup env dev h) = config_bar_base dev"
  "hdma_base (base_addr (pci_msi_setup env dev h)) = hdma_base (base_addr dev)"
  "iatu_base (base_addr (pci_msi_setup env dev h)) = iatu_base (base_addr dev)"
  "hdmar (pci_msi_setup env dev h) = hdmar dev" "hdmaw (pci_msi_setup env dev h) = hdmaw dev"
  "hdma_thread (pci_msi_setup env dev h) = hdma_thread dev"
  by (simp_all add: pci_msi_setup_def Let_def)

lemma probe_device_fields [simp]:
  "config_bar_base (probe_device env p pd n) = 0" "dpu_id (probe_device env p pd n) = n"
  "char_ctx (probe_device env p pd n) = None" "hdma_thread (probe_device env p pd n) = 0"
  "hdmar (probe_device env p pd n) = (\<lambda>_. None)" "hdmaw (probe_device env p pd n) = (\<lambda>_. None)"
  "hdma_base (base_addr (probe_device env p pd n)) = hdma_block (probe_device env p pd n)"
  by (simp_all add: probe_device_def zero_eon_device_def hdma_block_def Let_def)

lemma bars_apart_cong: "bar dev' = bar dev \<Longrightarrow> bars_apart dev' = bars_apart dev"
  by (simp add: bars_apart_def window_off_def)

lemma set_dma_mask_ok:
  assumes "front_ok env"
  obtains h' where "set_dma_mask env h = (0, h')" "kernel_only h h'" "held h' = held h"
    "no_bad_release h' = no_bad_release h" "locks h' = locks h"
  using assms by (simp add: set_dma_mask_def call_def front_ok_def)

text \<open>The part of the probe before the FIFO is one equation.\<close>

definition after_front :: "'a probe_env_scheme \<Rightarrow> eon_device \<Rightarrow> hist \<Rightarrow> (int \<times> eon_device \<times> hist) option" where
  "after_front env dev h =
     (let (e, h) = call env ''kfifo_alloc'' h in
      if e \<noteq> 0 then err_kfifo 0 dev h else probe_channels env dev (Ev_acquire Res_kfifo # h))"

lemma probe_front:
  assumes "front_ok env"
  obtains dev h' where
    "eon_probe env s pd h = map_option (\<lambda>(ret, dev, h). (ret, s\<lparr>next_dpu_id := next_dpu_id s + 1\<rparr>, Some dev, h))
       (after_front env dev h')"
    "char_ctx dev \<noteq> None" "dpu_id dev = next_dpu_id s" "config_bar_base dev = 0"
    "bars_apart dev = bars_apart (probe_device env 0 0 0)" "hdma_base (base_addr dev) = hdma_block dev"
    "hdmar dev = (\<lambda>_. None)" "hdmaw dev = (\<lambda>_. None)" "hdma_thread dev = 0"
    "\<forall>d. atu_target dev d 0 h' = Some 0x48000000"
    "held h' = held h + {#Res_irq_vectors, Res_irq_handler, Res_cdev (cc_ptr (the (char_ctx dev))),
       Res_char_device (dpu_id dev)#} + ctx_leak dev"
    "no_bad_release h' = no_bad_release h" "locks h' = locks h"
proof -
  let ?n = "next_dpu_id s"
  define h0 where "h0 = Ev_call ''pci_set_master'' 0 # Ev_call ''pcim_iomap_regions'' 0 #
    Ev_call ''pcie_set_readrq'' 0 # Ev_call ''pcie_capability_set_word'' 0 # Ev_call ''pcim_enable_device'' 0 # h"
  obtain h1 where m: "set_dma_mask env h0 = (0, h1)" "held h1 = held h0"
    "no_bad_release h1 = no_bad_release h0" "locks h1 = locks h0"
    using set_dma_mask_ok [OF assms] by metis
  define p where "p = k_alloc env h1 (k_sizeof env ''struct eon_device'')"
  let ?d0 = "probe_device env p pd ?n"
  obtain h2 where i: "eon_irq_init env ?d0 h1 = (0, pci_msi_setup env (?d0\<lparr>irqs := 1\<rparr>) h2, h2)"
    "held h2 = held h1 + {#Res_irq_vectors, Res_irq_handler#}"
    "no_bad_release h2 = no_bad_release h1" "locks h2 = locks h1"
    using irq_init_ok [OF assms] by metis
  define d1 where "d1 = pci_msi_setup env (?d0\<lparr>irqs := 1\<rparr>) h2"
  define h3 where "h3 = iatu_config env d1 h2"
  have h3: "held h3 = held h2" "no_bad_release h3 = no_bad_release h2" "locks h3 = locks h2"
    unfolding h3_def iatu_config_eq
    using accesses_frame [of "atu_addrs d1"] by (simp_all add: atu_program_accesses accesses_held
        accesses_no_bad_release accesses_locks atu_program_def Let_def)
  have t3: "atu_target d1 d 0 h3 = Some 0x48000000" for d
    by (cases d) (simp_all add: h3_def iatu_config_eq atu_target_program)
  obtain ctx h4 where c: "char_dev_init env d1 h3 = (0, d1\<lparr>char_ctx := Some ctx\<rparr>, h4)" "kernel_only h3 h4"
    "held h4 = held h3 + {#Res_kmem (cc_ptr ctx), Res_cdev (cc_ptr ctx), Res_char_device (dpu_id d1)#}"
    "no_bad_release h4 = no_bad_release h3" "locks h4 = locks h3"
    using char_dev_init_ok [OF assms] by metis
  let ?d2 = "d1\<lparr>char_ctx := Some ctx\<rparr>"
  have run: "eon_probe env s pd h = map_option (\<lambda>(ret, dev, h). (ret, s\<lparr>next_dpu_id := ?n + 1\<rparr>, Some dev, h))
      (after_front env ?d2 h4)"
  proof -
    have p0: "(p = 0) = False" using assms by (simp add: p_def front_ok_def mem_ok_def)
    have k: "call env n g = (0, Ev_call n 0 # g)"
      if "n \<noteq> ''pci_alloc_irq_vectors''" "n \<noteq> ''kfifo_alloc''" for n g
      using assms that by (simp add: call_def front_ok_def)
    note ks = k [of "''pcim_enable_device''", simplified] k [of "''pcie_capability_set_word''", simplified]
      k [of "''pcie_set_readrq''", simplified] k [of "''pcim_iomap_regions''", simplified]
      k [of "''pci_set_master''", simplified]
    show ?thesis
      unfolding eon_probe_def after_front_def
      by (simp only: ks Let_def prod.case simp_thms if_False if_True m(1) [unfolded h0_def] p0 get_dpu_id_def
          p_def [symmetric] i(1) [folded d1_def] h3_def [symmetric] c(1))
  qed
  have t: "atu_target ?d2 d 0 h4 = Some 0x48000000" for d
  proof -
    have "atu_target ?d2 d 0 h4 = atu_target d1 d 0 h3"
      using kernel_only_frames(2) [OF c(2)] by (simp add: atu_target_def atu_reg_val_def atu_base_def)
    then show ?thesis by (simp add: t3)
  qed
  have "bars_apart ?d2 = bars_apart (probe_device env 0 0 0)"
    by (rule bars_apart_cong) (simp add: d1_def probe_device_def Let_def)
  moreover have "hdma_base (base_addr ?d2) = hdma_block ?d2"
    by (simp add: d1_def) (simp add: hdma_block_def)
  moreover have "held h4 = held h + {#Res_irq_vectors, Res_irq_handler, Res_cdev (cc_ptr ctx),
      Res_char_device (dpu_id ?d2)#} + ctx_leak ?d2"
    using c(3) h3(1) i(2) m(2) by (simp add: ctx_leak_def h0_def add_mset_commute)
  moreover have "no_bad_release h4 = no_bad_release h" "locks h4 = locks h"
    using c(4,5) h3(2,3) i(3,4) m(3,4) by (simp_all add: h0_def)
  ultimately show ?thesis using run t by (intro that [of ?d2 h4]) (simp_all add: d1_def)
qed

lemma eon_probe_up:
  assumes "probe_ok env" and "bars_apart (probe_device env 0 0 0)"
  obtains dev h' where "eon_probe env s pd h = Some (0, s\<lparr>next_dpu_id := next_dpu_id s + 1\<rparr>, Some dev, h')"
    "char_ctx dev \<noteq> None" "dpu_id dev = next_dpu_id s" "config_bar_base dev = 0" "bars_apart dev"
    "chans_up dev h'" "\<forall>d. atu_target dev d 0 h' = Some 0x48000000"
    "held h' = held h + up_res dev + ctx_leak dev" "no_bad_release h' = no_bad_release h" "locks h' = locks h"
proof -
  have "front_ok env" using assms(1) by (simp add: probe_ok_def)
  obtain d g where f:
    "eon_probe env s pd h = map_option (\<lambda>(ret, dev, h). (ret, s\<lparr>next_dpu_id := next_dpu_id s + 1\<rparr>, Some dev, h))
       (after_front env d g)"
    "char_ctx d \<noteq> None" "dpu_id d = next_dpu_id s" "config_bar_base d = 0"
    "bars_apart d = bars_apart (probe_device env 0 0 0)" "hdma_base (base_addr d) = hdma_block d"
    "\<forall>e. atu_target d e 0 g = Some 0x48000000"
    "held g = held h + {#Res_irq_vectors, Res_irq_handler, Res_cdev (cc_ptr (the (char_ctx d))),
       Res_char_device (dpu_id d)#} + ctx_leak d"
    "no_bad_release g = no_bad_release h" "locks g = locks h"
    by (rule probe_front [OF \<open>front_ok env\<close>, of s pd h])
  let ?g = "Ev_acquire Res_kfifo # Ev_call ''kfifo_alloc'' 0 # g"
  obtain dev h' where r: "probe_channels env d ?g = Some (0, dev, h')" "same_base d dev" "chans_up dev h'"
    "held h' = add_mset Res_kthread (held ?g) + chan_ptrs dev 0 all_chans + chan_ptrs dev 1 all_chans"
    "no_bad_release h' = no_bad_release ?g" "locks h' = locks ?g"
    "\<forall>e m. atu_target d e m h' = atu_target d e m ?g"
    by (rule probe_channels_ok [OF assms(1) f(6), where h = ?g])
  have b: "char_ctx dev = char_ctx d" "dpu_id dev = dpu_id d" "config_bar_base dev = 0" "bar dev = bar d"
    using r(2) f(4) by (simp_all add: same_base_def)
  have run: "eon_probe env s pd h = Some (0, s\<lparr>next_dpu_id := next_dpu_id s + 1\<rparr>, Some dev, h')"
    using assms(1) r(1) by (simp add: f(1) after_front_def call_def probe_ok_def)
  have t: "atu_target dev e 0 h' = Some 0x48000000" for e
  proof -
    have "atu_target dev e 0 h' = atu_target d e 0 h'"
      using r(2) by (simp add: same_base_def atu_target_def atu_reg_val_def atu_base_def)
    then show ?thesis using f(7) by (simp add: r(7) atu_frames)
  qed
  have apart: "bars_apart dev" using bars_apart_cong [OF b(4)] f(5) assms(2) by simp
  have "held h' = held h + up_res dev + ctx_leak dev"
    using r(4) f(8) b by (simp add: up_res_def ctx_leak_def add_mset_commute ac_simps)
  with run f(2,3,9,10) b r(3,5,6) t apart show ?thesis by (intro that [of dev h']) simp_all
qed

end
