(* ===== verification/Eon_Lifecycle.thy ===== *)
theory Eon_Lifecycle
  imports Eon_Probe
begin

text \<open>
  The life of a device, over all the components: after a probe that succeeds come ioctls,
  interrupts and scans of the thread in any order, then \<open>eon_remove\<close>. An ioctl is one step here:
  what other threads do while it waits is in the answers of the environment.
\<close>

section \<open>What an ioctl leaves behind\<close>

fun leakable :: "resource \<Rightarrow> bool" where
  "leakable (Res_kmem _) = True"
| "leakable (Res_sg_map _) = True"
| "leakable _ = False"

text \<open>\<open>grows h h'\<close>: nothing but memory blocks and scatter-list mappings is held in addition.\<close>

definition grows :: "hist \<Rightarrow> hist \<Rightarrow> bool" where
  "grows h h' \<longleftrightarrow> (\<exists>X. held h' = held h + X \<and> (\<forall>r \<in># X. leakable r)) \<and>
     (no_bad_release h \<longrightarrow> no_bad_release h')"

lemma grows_same [simp]: "held h' = held h \<Longrightarrow> no_bad_release h' = no_bad_release h \<Longrightarrow> grows h h'"
  by (simp add: grows_def)

lemma grows_trans [trans]: "grows h1 h2 \<Longrightarrow> grows h2 h3 \<Longrightarrow> grows h1 h3"
proof -
  assume a: "grows h1 h2" "grows h2 h3"
  then obtain X Y where "held h2 = held h1 + X" "held h3 = held h2 + Y" "\<forall>r \<in># X. leakable r"
    "\<forall>r \<in># Y. leakable r" by (auto simp: grows_def)
  then have "held h3 = held h1 + (X + Y)" "\<forall>r \<in># X + Y. leakable r" by (auto simp: ac_simps)
  then show ?thesis using a unfolding grows_def by blast
qed

lemma grows_leaves: "leaves h r h' \<Longrightarrow> grows h h'"
  by (auto simp: leaves_def balanced_def grows_def split: prod.splits if_splits)

lemma grows_kmalloc:
  assumes "kmalloc env n h = (p, h')" and "p \<noteq> 0"
  shows "grows h h'" "res_same h' h2 \<Longrightarrow> grows h (kfree p h2)" "grows h' h2 \<Longrightarrow> grows h (kfree p h2)"
proof -
  have k: "held h' = add_mset (Res_kmem p) (held h)" "no_bad_release h' = no_bad_release h"
    using kmalloc_res [OF assms(1)] assms(2) by simp_all
  show "grows h h'" unfolding grows_def using k by (intro conjI exI [of _ "{#Res_kmem p#}"]) simp_all
  show g: "grows h (kfree p h2)" if more: "grows h' h2" for h2
  proof -
    obtain X where X: "held h2 = held h' + X" "\<forall>r \<in># X. leakable r" "no_bad_release h' \<longrightarrow> no_bad_release h2"
      using more unfolding grows_def by blast
    then show ?thesis unfolding grows_def using k assms(2)
      by (intro conjI exI [of _ X]) (simp_all add: kfree_def)
  qed
  show "res_same h' h2 \<Longrightarrow> grows h (kfree p h2)"
    by (rule g) (simp add: res_same_def)
qed

lemma grows_kmalloc_fail: "kmalloc env n h = (0, h') \<Longrightarrow> grows h h'"
  using kmalloc_res [of env n h 0 h'] by simp

section \<open>What an ioctl keeps of the device structure\<close>

definition steady :: "eon_device \<Rightarrow> eon_device \<Rightarrow> bool" where
  "steady dev dev' \<longleftrightarrow> char_ctx dev' = char_ctx dev \<and> dpu_id dev' = dpu_id dev \<and>
     (\<forall>s. map_option hc_ptr (chan_at dev' s) = map_option hc_ptr (chan_at dev s))"

lemma steady_refl [simp]: "steady dev dev"
  by (simp add: steady_def)

lemma chan_at_config [simp]: "chan_at (dev\<lparr>config_bar_base := x\<rparr>) s = chan_at dev s"
  by (cases s) simp_all

lemma steady_config [simp]: "steady dev (dev\<lparr>config_bar_base := x\<rparr>)"
  by (simp add: steady_def)

lemma steady_put:
  assumes "steady dev dev'" and "chan_at dev' s = Some c" and "hc_ptr c' = hc_ptr c"
  shows "steady dev (put_chan s c' dev')"
proof -
  have e: "map_option hc_ptr (chan_at dev' t) = map_option hc_ptr (chan_at dev t)" for t
    using assms(1) by (simp only: steady_def)
  have "map_option hc_ptr (chan_at (put_chan s c' dev') t) = map_option hc_ptr (chan_at dev t)" for t
    using e [of t] assms(2,3) by (cases "s = t") (simp_all add: chan_at_put del: chan_at.simps put_chan.simps)
  then show ?thesis using assms(1) by (simp add: steady_def del: chan_at.simps put_chan.simps)
qed

lemma tranfer_desc_ptr:
  "tranfer_desc env dev c di h = (ret, c', h') \<Longrightarrow> hc_ptr c' = hc_ptr c"
  by (auto simp: tranfer_desc_eq Let_def split: prod.splits)

lemma dma_llmode_ptr:
  assumes "dma_llmode_transmit env dev c di en ri h = (ret, c', dev', h')"
  shows "hc_ptr c' = hc_ptr c" "\<exists>x. dev' = dev\<lparr>config_bar_base := x\<rparr>"
proof -
  let ?p = "run_cmds env dev (data_cmds di) c (spin_lock (hc_lock c) h)"
  obtain rv dev1 g where w: "write_infos env (user_writes ri) dev ?p = (rv, dev1, g)"
    by (metis prod_cases3)
  have "hc_ptr c' = hc_ptr c \<and> dev' = dev1"
    using assms by (auto simp: dma_llmode_transmit_eq w Let_def split: prod.splits if_splits)
  then show "hc_ptr c' = hc_ptr c" "\<exists>x. dev' = dev\<lparr>config_bar_base := x\<rparr>"
    using write_infos_dev [OF w] by simp_all
qed

lemma inbound_ptr:
  assumes "eon_hdma_inbound env dev c src dst n a en ri h = (ret, c', dev', h')"
  shows "hc_ptr c' = hc_ptr c \<and> (\<exists>x. dev' = dev\<lparr>config_bar_base := x\<rparr>)"
proof -
  obtain r1 x h1 where s: "dpu_setup_sg env (inbound_info src dst n) (pdev dev) src 1 h = (r1, x, h1)"
    by (metis prod_cases3)
  obtain r2 di h2 where e: "set_hdma_desc env x (inbound_desc a) (pdev dev) h1 = (r2, di, h2)"
    by (metis prod_cases3)
  obtain r3 c1 h3 where t: "tranfer_desc env dev c di h2 = (r3, c1, h3)" by (metis prod_cases3)
  obtain r4 c2 dev1 h4 where l: "dma_llmode_transmit env dev c1 di en ri h3 = (r4, c2, dev1, h4)"
    by (metis prod_cases4)
  show ?thesis
    using assms tranfer_desc_ptr [OF t] dma_llmode_ptr [OF l] s e t l
    by (auto simp: eon_hdma_inbound_def Let_def simp flip: inbound_info_def inbound_desc_def
        split: if_splits)
qed

lemma outbound_ptr:
  assumes "eon_hdma_outbound env dev c cd dst src n a en ri h = (ret, c', cd', dev', h')"
  shows "hc_ptr c' = hc_ptr c \<and> hc_ptr cd' = hc_ptr cd \<and> (\<exists>x. dev' = dev\<lparr>config_bar_base := x\<rparr>)"
proof -
  obtain r1 x h1 where s: "dpu_setup_sg env (outbound_info dst src n) (pdev dev) dst 1 h = (r1, x, h1)"
    by (metis prod_cases3)
  obtain r2 di h2 where e: "set_hdma_desc env x (outbound_desc a) (pdev dev) h1 = (r2, di, h2)"
    by (metis prod_cases3)
  obtain r3 c1 h3 where t: "tranfer_desc env dev cd di h2 = (r3, c1, h3)" by (metis prod_cases3)
  obtain r4 c2 dev1 h4 where l: "dma_llmode_transmit env dev c di en ri h3 = (r4, c2, dev1, h4)"
    by (metis prod_cases4)
  show ?thesis
    using assms tranfer_desc_ptr [OF t] dma_llmode_ptr [OF l] s e t l
    by (auto simp: eon_hdma_outbound_def Let_def simp flip: outbound_info_def outbound_desc_def
        split: if_splits)
qed

lemma eon_rw_reg_keeps:
  assumes "eon_rw_reg env dev cmd args h = (ret, out, dev', h')"
  shows "grows h h' \<and> (\<exists>x. dev' = dev\<lparr>config_bar_base := x\<rparr>)"
proof -
  obtain p h1 where k: "kmalloc env (k_sizeof env ''struct dpu_reg_args'') h = (p, h1)" by fastforce
  show ?thesis
  proof (cases "p = 0")
    case True
    then show ?thesis using assms k grows_kmalloc_fail [of env _ h h1]
      by (auto simp: eon_rw_reg_def intro!: exI [of _ "config_bar_base dev"])
  next
    case False
    note g = grows_kmalloc [OF k False]
    have slide: "res_same h1 h2 \<and> (\<exists>x. d = dev\<lparr>config_bar_base := x\<rparr>)"
      if "slide_window env dev a (mutex_lock m h1) = (d, h2)" for a m d h2
    proof
      show "res_same h1 h2"
        using res_same_accesses [OF slide_window_accesses [OF that]] by (simp add: res_same_def kernel_defs)
      show "\<exists>x. d = dev\<lparr>config_bar_base := x\<rparr>"
        using that by (auto simp: slide_window_eq Let_def split: if_splits)
    qed
    have ev: "res_same h1 (Ev_write16 a w # h2) = res_same h1 h2"
      "res_same h1 (Ev_read16 a w # h2) = res_same h1 h2" for a w h2
      by (simp_all add: res_same_def)
    show ?thesis
      using assms g(1) g(2) [of h1] False
      by (auto simp: eon_rw_reg_def k Let_def access_defs ev split: option.splits if_splits prod.splits
          dest!: slide intro!: g(2) intro: exI [of _ "config_bar_base dev"])
  qed
qed

lemma eon_hdma_keeps:
  assumes "gup_counts env" and "eon_hdma env dev cmd args h = Some (ret, out, dev', h')"
  shows "grows h h' \<and> steady dev dev'"
proof -
  obtain p h1 where k: "kmalloc env (k_sizeof env ''struct hdma_mem_args'') h = (p, h1)" by fastforce
  show ?thesis
  proof (cases "p = 0")
    case True
    then show ?thesis using assms k grows_kmalloc_fail [of env _ h h1] by (auto simp: eon_hdma_def)
  next
    case False
    note g = grows_kmalloc [OF k False]
    have i: "grows h (kfree p h2) \<and> steady dev (d\<lparr>hdmar := (hdmar d)(n := Some c')\<rparr>)"
      if run: "eon_hdma_inbound env dev c a b m e en ri h1 = (r, c', d, h2)" "hdmar dev n = Some c"
      for n c a b m e en ri r c' d h2
    proof
      show "grows h (kfree p h2)" by (rule g(3) [OF grows_leaves [OF inbound_leaves [OF assms(1) that(1)]]])
      obtain x where "hc_ptr c' = hc_ptr c" "d = dev\<lparr>config_bar_base := x\<rparr>"
        using inbound_ptr [OF run(1)] by blast
      then show "steady dev (d\<lparr>hdmar := (hdmar d)(n := Some c')\<rparr>)"
        using steady_put [OF steady_config [of dev x], of "Rd n" c c'] run(2) by simp
    qed
    have o: "grows h (kfree p h2) \<and>
        steady dev (d\<lparr>hdmaw := (hdmaw d)(n := Some c'), hdmar := (hdmar d)(n := Some e')\<rparr>)"
      if run: "eon_hdma_outbound env dev c e a b m l en ri h1 = (r, c', e', d, h2)"
        "hdmaw dev n = Some c" "hdmar dev n = Some e"
      for n c e a b m l en ri r c' e' d h2
    proof
      show "grows h (kfree p h2)" by (rule g(3) [OF grows_leaves [OF outbound_leaves [OF assms(1) that(1)]]])
      obtain x where x: "hc_ptr c' = hc_ptr c" "hc_ptr e' = hc_ptr e" "d = dev\<lparr>config_bar_base := x\<rparr>"
        using outbound_ptr [OF run(1)] by blast
      have "steady dev (put_chan (Wr n) c' (dev\<lparr>config_bar_base := x\<rparr>))"
        by (rule steady_put [OF steady_config _ x(1)]) (simp add: run(2))
      from steady_put [OF this _ x(2), of "Rd n"] run(3) x(3)
      show "steady dev (d\<lparr>hdmaw := (hdmaw d)(n := Some c'), hdmar := (hdmar d)(n := Some e')\<rparr>)" by simp
    qed
    have r: "grows h h1" "grows h (kfree p h1)" using g(1) g(2) [of h1] by simp_all
    show ?thesis
      using assms(2) r False
      by (auto simp: eon_hdma_def k Let_def split: option.splits if_splits prod.splits dest!: i o)
  qed
qed

lemma device_ioctl_keeps:
  assumes "gup_counts env" and "device_ioctl env dev cmd arg h = Some (ret, reply, dev', h')"
  shows "grows h h' \<and> steady dev dev'"
proof (cases "cmd = EON_IOCTL_HDMA")
  case True
  then show ?thesis using assms(2) eon_hdma_keeps [OF assms(1)]
    by (auto simp: device_ioctl_def split: option.splits)
next
  case False
  then show ?thesis using assms(2)
    by (auto simp: device_ioctl_def Let_def split: if_splits prod.splits dest!: eon_rw_reg_keeps)
qed

section \<open>Steps of a live device\<close>

text \<open>
  \<open>live env dev h\<close> steps: an ioctl of any process, an interrupt, an iteration of the thread's
  loop, the thread's extra scan.
\<close>

inductive live_step ::
  "'a cdev_env_scheme \<Rightarrow> thread_vars \<times> eon_device \<times> hist \<Rightarrow> thread_vars \<times> eon_device \<times> hist \<Rightarrow> bool"
  for env where
  live_ioctl: "device_ioctl env dev cmd arg h = Some (ret, reply, dev', h') \<Longrightarrow>
    live_step env (v, dev, h) (v, dev', h')"
| live_irq: "irq_step env s s' \<Longrightarrow> live_step env s s'"
| live_extra: "scan_extra env dev h = Done (found, dev', h') \<Longrightarrow> live_step env (v, dev, h) (v, dev', h')"

inductive_cases live_stepE: "live_step env s s'"

text \<open>What the thread's steps keep of the invariant.\<close>

definition keeps :: "eon_device \<times> hist \<Rightarrow> eon_device \<times> hist \<Rightarrow> bool" where
  "keeps s s' = (case s of (dev, h) \<Rightarrow> case s' of (dev', h') \<Rightarrow>
     (dev_inv dev h \<longrightarrow> dev_inv dev' h' \<and> locks h' = locks h \<and> grows h h' \<and> steady dev dev'))"

lemma keeps_refl [simp]: "keeps s s"
  by (auto simp: keeps_def)

lemma steady_trans: "steady d1 d2 \<Longrightarrow> steady d2 d3 \<Longrightarrow> steady d1 d3"
  by (simp add: steady_def)

lemma keeps_trans: "keeps s1 s2 \<Longrightarrow> keeps s2 s3 \<Longrightarrow> keeps s1 s3"
  by (auto simp: keeps_def intro: grows_trans steady_trans)

lemma window_ok_fifo [simp]: "window_ok (dev\<lparr>hdma_kfifo := q\<rparr>) h = window_ok dev h"
  by (simp add: window_ok_def window_inv_def bars_apart_def window_off_def atu_target_def
      atu_reg_val_def atu_base_def)

lemma dev_inv_fifo [simp]: "dev_inv (dev\<lparr>hdma_kfifo := q\<rparr>) h = dev_inv dev h"
  by (simp add: dev_inv_def chan_inv_def dev_channel_def hdma_block_def)

lemma keeps_fifo: "keeps (dev, h) (dev\<lparr>hdma_kfifo := q\<rparr>, h)"
  by (simp add: keeps_def steady_def)

lemma keeps_wake: "keeps (dev, h) (dev, Ev_wake q # h)"
  using window_ok_only [of h "Ev_wake q # h" dev] by (auto simp: keeps_def dev_inv_def)

lemma keeps_reads:
  assumes "accesses {} h h'"
  shows "keeps (dev, h) (dev, h')"
proof -
  have "window_ok dev h \<Longrightarrow> window_ok dev h'"
    using accesses_window(2) [OF assms] by (simp add: window_ok_def window_inv_def)
  then show ?thesis using accesses_frame [OF assms] by (auto simp: keeps_def dev_inv_def)
qed

lemma dev_inv_chan:
  assumes "dev_inv dev h" and "chan_at dev s = Some c" and "s \<in> Rd ` {..<16} \<union> Wr ` {..<16}"
  obtains n t where "dev_channel dev n t c"
  using assms by (cases s) (auto simp: dev_inv_def chan_inv_def MAX_HDMA_NUMBER_def)

lemma dev_inv_put:
  assumes "dev_inv dev h" and "chan_at dev s = Some c" and "hc_ctx c' = hc_ctx c"
  shows "dev_inv (put_chan s c' dev) h"
  using assms chan_inv_put [of dev] by (cases s) (auto simp: dev_inv_def)

lemma keeps_served:
  assumes "served wk dev h s c st dev' h'" and "s \<in> Rd ` {..<16} \<union> Wr ` {..<16}"
  shows "keeps (dev, h) (dev', h')"
proof -
  obtain g where g: "accesses {} h g" and c: "chan_at dev s = Some c"
    and d: "dev' = put_chan s (c\<lparr>hc_state := TRANSFER_STATE_COMPLETED\<rparr>) dev"
    and h': "h' = (if wk st then [Ev_wake (hc_wq c)] else []) @
         [Ev_write32 (r_int_clear (hc_ctx c)) st, Ev_read32 (r_int_status (hc_ctx c)) st] @ g"
    using assms(1) unfolding served_def by blast
  let ?h = "Ev_write32 (r_int_clear (hc_ctx c)) st # Ev_read32 (r_int_status (hc_ctx c)) st # g"
  have acc: "accesses (chan_addrs c) h ?h" using accesses_mono [OF g, of "chan_addrs c"] by simp
  have "keeps (dev, h) (dev', ?h)"
    unfolding keeps_def prod.case
  proof (intro impI conjI)
    assume inv: "dev_inv dev h"
    then obtain n t where ch: "dev_channel dev n t c" using dev_inv_chan [OF _ c assms(2)] by blast
    have apart: "bars_apart dev" using inv by (simp add: dev_inv_def window_ok_def)
    have "window_ok dev ?h"
      using inv accesses_window(2) [OF acc chan_not_window [OF ch _ apart] chan_not_atu [OF ch]]
      by (simp add: dev_inv_def window_ok_def window_inv_def)
    then have "dev_inv dev ?h" using inv by (simp add: dev_inv_def)
    from dev_inv_put [OF this c] show "dev_inv dev' ?h" by (simp add: d)
    show "locks ?h = locks h" "grows h ?h" using accesses_frame [OF acc] by simp_all
    show "steady dev dev'" unfolding d by (rule steady_put [OF steady_refl c]) simp
  qed
  moreover have "keeps (dev', ?h) (dev', h')" using keeps_wake by (simp add: h')
  ultimately show ?thesis by (rule keeps_trans)
qed

lemma keeps_scan:
  assumes "scan env wk [0..<MAX_HDMA_NUMBER] dev h = Done (found, dev', h')"
  shows "keeps (dev, h) (dev', h')"
  using assms
proof (cases rule: scan_cases)
  case none
  then show ?thesis by (simp add: keeps_reads)
next
  case (one s c st)
  then show ?thesis by (intro keeps_served) (auto simp: MAX_HDMA_NUMBER_def)
qed

lemma keeps_irq:
  assumes "irq_step env (v, dev, h) (v', dev', h')"
  shows "keeps (dev, h) (dev', h')"
  using assms
proof (cases rule: irq_step.cases)
  case (irq_isr r)
  then show ?thesis using keeps_trans [OF keeps_fifo keeps_wake]
    by (auto simp: dma_isr_handler_def wake_up_def Let_def)
next
  case (irq_iteration brk)
  obtain found dev1 where s: "scan_irq env dev h = Done (found, dev1, h')"
    and "\<exists>q. dev' = dev1\<lparr>hdma_kfifo := q\<rparr>"
    using irq_iteration(2) settle_spec(1)
    by (auto simp: iteration_def Let_def split: run.splits prod.splits) blast+
  then show ?thesis using keeps_trans [OF keeps_scan keeps_fifo] unfolding scan_irq_def by blast
qed

lemma keeps_live:
  assumes "gup_counts env" and "live_step env (v, dev, h) (v', dev', h')"
  shows "keeps (dev, h) (dev', h')"
  using assms(2)
proof (cases rule: live_step.cases)
  case (live_ioctl cmd arg ret reply)
  then show ?thesis using device_ioctl_keeps [OF assms(1)] device_ioctl_inv [of dev h env cmd arg]
    by (auto simp: keeps_def)
next
  case (live_extra found)
  then show ?thesis using keeps_scan unfolding scan_extra_def by blast
qed (use keeps_irq in blast)

lemma keeps_life:
  assumes "gup_counts env" and "(live_step env)\<^sup>*\<^sup>* (v, dev, h) (v', dev', h')"
  shows "keeps (dev, h) (dev', h')"
proof -
  have "keeps (dev, h) (snd (v', dev', h'))"
    using assms(2)
  proof (induction rule: rtranclp_induct)
    case (step s t)
    obtain v1 d1 h1 v2 d2 h2 where st: "s = (v1, d1, h1)" "t = (v2, d2, h2)" by (metis prod_cases3)
    have "keeps (snd s) (snd t)" using keeps_live [OF assms(1)] step.hyps(2) by (simp add: st)
    with step.IH show ?case by (rule keeps_trans)
  qed simp
  then show ?thesis by simp
qed

section \<open>Taking the device down\<close>

definition chans_present :: "eon_device \<Rightarrow> bool" where
  "chans_present dev \<longleftrightarrow> (\<forall>i < 16. \<forall>t \<in> {0, 1}. \<exists>c. chan_at dev (slot_of t i) = Some c \<and> hc_ptr c \<noteq> 0)"

lemma steady_present:
  assumes "steady dev dev'" and "chans_present dev"
  shows "chans_present dev'"
  unfolding chans_present_def
proof (intro allI impI ballI)
  fix i :: nat and t :: u32 assume "i < 16" "t \<in> {0, 1}"
  then obtain c where c: "chan_at dev (slot_of t i) = Some c" "hc_ptr c \<noteq> 0"
    using assms(2) unfolding chans_present_def by blast
  have "map_option hc_ptr (chan_at dev' (slot_of t i)) = map_option hc_ptr (chan_at dev (slot_of t i))"
    using assms(1) by (simp only: steady_def)
  then have "map_option hc_ptr (chan_at dev' (slot_of t i)) = Some (hc_ptr c)" by (simp only: c(1) option.map)
  with c(2) show "\<exists>c. chan_at dev' (slot_of t i) = Some c \<and> hc_ptr c \<noteq> 0"
    by (simp only: map_option_eq_Some) metis
qed

lemma steady_ptrs:
  assumes "steady dev dev'" and "chans_present dev" and "t \<in> {0, 1}"
  shows "chan_ptrs dev' t all_chans = chan_ptrs dev t all_chans"
proof -
  have "hc_ptr (the (chan_at dev' (slot_of t i))) = hc_ptr (the (chan_at dev (slot_of t i)))" if "i < 16" for i
  proof -
    have "chan_at dev (slot_of t i) \<noteq> None" using assms(2,3) that by (auto simp: chans_present_def)
    moreover have "map_option hc_ptr (chan_at dev' (slot_of t i)) = map_option hc_ptr (chan_at dev (slot_of t i))"
      using assms(1) by (simp only: steady_def)
    ultimately show ?thesis by (metis option.map_disc_iff option.map_sel)
  qed
  then show ?thesis unfolding chan_ptrs_def by (intro arg_cong [where f = mset] map_cong) simp_all
qed

lemma eon_remove_returns:
  assumes "char_ctx dev = Some ctx" and "chans_present dev" and "held h = D + up_res dev"
    and "Res_irq_vectors \<notin># D"
  obtains dev' h' where "eon_remove dev h = Some (dev', h')" "held h' = D"
    "no_bad_release h' = no_bad_release h" "locks h' = locks h"
    "\<forall>i < 16. hdmar dev' i = None \<and> hdmaw dev' i = None"
proof -
  let ?d = "dev\<lparr>should_stop_flag := 1\<rparr>" and ?C = "Res_cdev (cc_ptr ctx)" and ?N = "Res_char_device (dpu_id dev)"
  let ?h1 = "eon_irq_fini (wake_up (thread_wq dev) (kthread_stop h))"
  have at: "chan_at ?d s = chan_at dev s" for s by (cases s) simp_all
  then have ptr: "chan_ptrs ?d t is = chan_ptrs dev t is" for t "is" by (simp add: chan_ptrs_def)
  have up: "held h = D + {#Res_irq_vectors, Res_irq_handler, ?C, ?N, Res_kfifo, Res_kthread#}
      + chan_ptrs dev 0 all_chans + chan_ptrs dev 1 all_chans"
    using assms(1,3) by (simp add: up_res_def ac_simps)
  have h1: "held ?h1 = D + {#?C, ?N, Res_kfifo#} + chan_ptrs dev 0 all_chans + chan_ptrs ?d 1 all_chans"
    "no_bad_release ?h1 = no_bad_release h" "locks ?h1 = locks h"
    using up by (simp_all add: ptr eon_irq_fini_def wake_up_def kthread_stop_def pci_free_irq_vectors_def)
  have "\<forall>i \<in> set all_chans. \<exists>c. chan_at ?d (slot_of 1 i) = Some c \<and> hc_ptr c \<noteq> 0"
    using assms(2) at by (simp add: chans_present_def)
  from exit_chans_freed [OF all_chans(1) h1(1) this] obtain d2 h2 where w:
    "exit_chans 1 all_chans ?d ?h1 = (d2, h2)" "chans_freed 1 all_chans ?d d2"
    "held h2 = D + {#?C, ?N, Res_kfifo#} + chan_ptrs dev 0 all_chans"
    "no_bad_release h2 = no_bad_release h" "locks h2 = locks h" using h1(2,3) by auto
  have "slot_of 0 i \<notin> slot_of 1 ` set all_chans" for i by (auto simp: slot_of_def)
  then have rd: "chan_at d2 (slot_of 0 i) = chan_at dev (slot_of 0 i)" for i
    using w(2) at unfolding chans_freed_def by presburger
  then have "chan_ptrs d2 0 all_chans = chan_ptrs dev 0 all_chans" by (simp add: chan_ptrs_def)
  with w(3) have h2: "held h2 = D + {#?C, ?N, Res_kfifo#} + chan_ptrs d2 0 all_chans" by simp
  have "\<forall>i \<in> set all_chans. \<exists>c. chan_at d2 (slot_of 0 i) = Some c \<and> hc_ptr c \<noteq> 0"
    using assms(2) rd by (simp add: chans_present_def)
  from exit_chans_freed [OF all_chans(1) h2 this] obtain d3 h3 where r:
    "exit_chans 0 all_chans d2 h2 = (d3, h3)" "chans_freed 0 all_chans d2 d3"
    "held h3 = D + {#?C, ?N, Res_kfifo#}"
    "no_bad_release h3 = no_bad_release h" "locks h3 = locks h" using w(4,5) by auto
  have f: "char_ctx d3 = Some ctx" "dpu_id d3 = dpu_id dev"
    using r(2) w(2) assms(1) by (simp_all add: chans_freed_def)
  let ?h' = "Ev_release ?C # Ev_release ?N # kfifo_free h3"
  have "Res_irq_vectors \<notin># held ?h'" using r(3) assms(4) by (simp add: kfifo_free_def)
  then have run: "eon_remove dev h = Some (d3, ?h')"
    using w(1) r(1,3) f
    by (simp add: eon_remove_def exit_write_eq exit_read_eq all_chans_def Let_def char_dev_fini_def
        device_destroy_def kfifo_free_def pci_free_irq_vectors_def)
  have gone: "hdmar d3 i = None \<and> hdmaw d3 i = None" if "i < 16" for i
  proof -
    have "chan_at d3 (slot_of 0 i) = None" using r(2) that by (auto simp: chans_freed_def)
    moreover have "chan_at d2 (slot_of 1 i) = None" using w(2) that by (auto simp: chans_freed_def)
    then have "chan_at d3 (slot_of 1 i) = None" using r(2) by (auto simp: chans_freed_def)
    ultimately show ?thesis by (simp add: slot_of_def)
  qed
  show ?thesis
    by (rule that [OF run]) (use r gone in \<open>simp_all add: kfifo_free_def\<close>)
qed

lemma chans_up_inv:
  assumes "chans_up dev h"
  shows "chan_inv dev" "chans_present dev"
proof -
  have "\<exists>c. chan_at dev (slot_of t i) = Some c \<and> hc_ptr c \<noteq> 0 \<and> dev_channel dev (of_nat i) t c"
    if "i < 16" "t \<in> {0, 1}" for i t
    using assms that unfolding chans_up_def by blast
  from this [of _ 0] this [of _ 1] show "chan_inv dev"
    by (auto simp: chan_inv_def slot_of_def MAX_HDMA_NUMBER_def) 
  show "chans_present dev" using assms unfolding chans_up_def chans_present_def by blast
qed

section \<open>Properties\<close>

definition demo_probe_env :: "(string \<Rightarrow> int) \<Rightarrow> probe_env" where
  "demo_probe_env call_result = cdev_env.extend ((demo_cdev_env 0x4000)\<lparr>k_call := \<lambda>_ n. call_result n\<rparr>)
     \<lparr>k_pci_word = (\<lambda>_ _. 0x80), k_pci_dword = (\<lambda>_ _. 0xfee00000), k_bar_start = (\<lambda>i. 0x4000000000 + of_nat i * 0x100000000),
      k_bar_len = (\<lambda>_. 0x100000000), k_iomap = (\<lambda>i. 0x8000000000 + of_nat i * 0x100000000),
      k_kthread_run = (\<lambda>_. 0x9200), k_class_create = (\<lambda>_. 0x9400)\<rparr>"

definition calls_ok :: "string \<Rightarrow> int" where
  "calls_ok n = (if n = ''pci_alloc_irq_vectors'' then 1 else 0)"

definition demo_module :: module_state where
  "demo_module = \<lparr>eon_class = 0x9400, eon_dpu_major = 240, next_dpu_id = 0\<rparr>"

lemmas demo_probe_defs = demo_probe_env_def demo_cdev_env_def cdev_env.defs

lemma demo_probe_ok: "probe_ok (demo_probe_env calls_ok)"
  by (simp add: probe_ok_def front_ok_def mem_ok_def IS_ERR_def calls_ok_def demo_probe_defs)

lemma demo_probe_apart: "bars_apart (probe_device (demo_probe_env f) 0 0 0)"
  by (simp add: bars_apart_def window_off_def probe_device_def zero_eon_device_def bar_index_defs
      CONFIG_BAR_SIZE_def Let_def demo_probe_defs)

lemma demo_probe_gup: "gup_counts (demo_probe_env f)"
  by (simp add: gup_counts_def demo_probe_defs)

text \<open>
  C9: a probe that succeeds. When every kernel call does its part and the two BARs do not
  overlap in the kernel's address space, \<open>eon_probe\<close> returns 0 with a device whose channels of
  both directions hold the addresses of their own registers, are enabled and carry the device's MSI message;
  region 0 is mapped to the descriptor RAM in both directions; the next device gets the next
  number; exactly the resources of a running device are held, and no lock.
\<close>

theorem eon_probe_ready:
  assumes "probe_ok env" and "bars_apart (probe_device env 0 0 0)"
  shows "\<exists>dev h'. eon_probe env s pd h = Some (0, s\<lparr>next_dpu_id := next_dpu_id s + 1\<rparr>, Some dev, h') \<and>
    dpu_id dev = next_dpu_id s \<and> dev_inv dev h' \<and> chans_up dev h' \<and>
    (\<forall>d. atu_target dev d 0 h' = Some 0x48000000) \<and>
    held h' = held h + up_res dev + ctx_leak dev \<and> no_bad_release h' = no_bad_release h \<and> locks h' = locks h"
proof -
  obtain dev h' where p: "eon_probe env s pd h = Some (0, s\<lparr>next_dpu_id := next_dpu_id s + 1\<rparr>, Some dev, h')"
    "config_bar_base dev = 0" "bars_apart dev" "chans_up dev h'"
    "dpu_id dev = next_dpu_id s" "\<forall>d. atu_target dev d 0 h' = Some 0x48000000"
    "held h' = held h + up_res dev + ctx_leak dev" "no_bad_release h' = no_bad_release h" "locks h' = locks h"
    by (rule eon_probe_up [OF assms, of s pd h]) blast
  have "dev_inv dev h'"
    using p(2,3) chans_up_inv(1) [OF p(4)] by (simp add: dev_inv_def window_ok_def window_inv_def)
  then show ?thesis using p by blast
qed

theorem eon_probe_ready_witness:
  "\<exists>dev h'. eon_probe (demo_probe_env calls_ok) demo_module 0x8000 [] = Some (0, demo_module\<lparr>next_dpu_id := 1\<rparr>, Some dev, h') \<and>
    chans_up dev h'"
  using eon_probe_ready [OF demo_probe_ok demo_probe_apart, of demo_module "0x8000" "[]"]
  by (auto simp: demo_module_def)



text \<open>
  C39: a probe without a FIFO. When \<open>kfifo_alloc\<close> fails, what was set up before is taken down
  again except the interrupt handler, but \<open>eon_probe\<close> returns 0, so the device counts as bound, without
  thread and channels; \<open>eon_remove\<close> then stops a thread that never ran and frees what is gone.
\<close>

theorem eon_probe_fifo_failure:
  assumes "front_ok env" and "\<And>h. k_call env h ''kfifo_alloc'' \<noteq> 0"
    and "Res_kthread \<notin># held h" and "Res_irq_vectors \<notin># held h"
  shows "\<exists>s' dev h'. eon_probe env s pd h = Some (0, s', Some dev, h') \<and>
    (\<forall>i. hdmar dev i = None \<and> hdmaw dev i = None) \<and> hdma_thread dev = 0 \<and>
    held h' = held h + {#Res_irq_handler#} + ctx_leak dev \<and>
    (\<exists>dev2 h2. eon_remove dev h' = Some (dev2, h2) \<and> \<not> no_bad_release h2)"
proof -
  obtain d g where f:
    "eon_probe env s pd h = map_option (\<lambda>(ret, dev, h). (ret, s\<lparr>next_dpu_id := next_dpu_id s + 1\<rparr>, Some dev, h))
       (after_front env d g)"
    "char_ctx d \<noteq> None" "hdmar d = (\<lambda>_. None)" "hdmaw d = (\<lambda>_. None)" "hdma_thread d = 0"
    "held g = held h + {#Res_irq_vectors, Res_irq_handler, Res_cdev (cc_ptr (the (char_ctx d))),
       Res_char_device (dpu_id d)#} + ctx_leak d"
    by (rule probe_front [OF assms(1), of s pd h])
  obtain ctx where ctx: "char_ctx d = Some ctx" using f(2) by blast
  let ?N = "Res_char_device (dpu_id d)" and ?C = "Res_cdev (cc_ptr ctx)"
  let ?g = "Ev_call ''kfifo_alloc'' (k_call env g ''kfifo_alloc'') # g"
  let ?h' = "Ev_release Res_irq_vectors # Ev_release ?C # Ev_release ?N # ?g"
  have run: "eon_probe env s pd h = Some (0, s\<lparr>next_dpu_id := next_dpu_id s + 1\<rparr>, Some d, ?h')"
    using f(6) assms(2) ctx
    by (simp add: f(1) after_front_def call_def err_kfifo_def err_char_dev_def char_dev_fini_def
        device_destroy_def pci_free_irq_vectors_def Let_def)
  have held: "held ?h' = held h + {#Res_irq_handler#} + ctx_leak d"
    using f(6) ctx by (simp add: add_mset_commute)
  have none: "exit_chans t is (d\<lparr>should_stop_flag := 1\<rparr>) x = (d\<lparr>should_stop_flag := 1\<rparr>, x)" for t "is" x
    by (induction "is") (auto simp: slot_of_def f(3,4))
  have "\<not> no_bad_release (kthread_stop ?h')"
    using held assms(3) by (simp add: kthread_stop_def ctx_leak_def)
  then have "\<exists>dev2 h2. eon_remove d ?h' = Some (dev2, h2) \<and> \<not> no_bad_release h2"
    using ctx by (simp add: eon_remove_def exit_write_eq exit_read_eq none Let_def char_dev_fini_def
        device_destroy_def kfifo_free_def pci_free_irq_vectors_def wake_up_def eon_irq_fini_def)
  with run held f(3-5) show ?thesis by auto
qed

definition fifo_fails :: "string \<Rightarrow> int" where
  "fifo_fails n = (if n = ''kfifo_alloc'' then -12 else calls_ok n)"

theorem eon_probe_fifo_failure_witness:
  "\<exists>s' dev h' dev2 h2. eon_probe (demo_probe_env fifo_fails) demo_module 0x8000 [] = Some (0, s', Some dev, h') \<and>
    eon_remove dev h' = Some (dev2, h2) \<and> \<not> no_bad_release h2"
proof -
  have "front_ok (demo_probe_env fifo_fails)"
    by (simp add: front_ok_def mem_ok_def IS_ERR_def calls_ok_def fifo_fails_def demo_probe_defs)
  moreover have "k_call (demo_probe_env fifo_fails) h ''kfifo_alloc'' \<noteq> 0" for h
    by (simp add: fifo_fails_def demo_probe_defs)
  ultimately show ?thesis
    using eon_probe_fifo_failure [of "demo_probe_env fifo_fails" "[]" demo_module "0x8000"] by fastforce
qed

text \<open>
  A failing interrupt set-up. When \<open>pci_alloc_irq_vectors\<close> answers with an error number,
  its conversion to the eight bits of \<open>irqs\<close> gives a positive number of vectors, and
  \<open>eon_irq_init\<close> goes on to request the interrupt and reports success without any vector.
\<close>

lemma eon_irq_init_accepts_error:
  assumes "k_call env h ''pci_alloc_irq_vectors'' = n" and "-256 < n" and "n < 0"
    and "k_call env (Ev_call ''pci_alloc_irq_vectors'' n # h) ''devm_request_irq'' = 0"
  shows "\<exists>eon' h'. eon_irq_init env eon h = (0, eon', h') \<and> uint (irqs eon') = 256 + n \<and>
    held h' = held h + {#Res_irq_handler#}"
proof -
  have "n mod 256 = (n + 256) mod 256" by (simp only: mod_add_self2)
  also have "\<dots> = 256 + n" using assms(2,3) by (subst mod_pos_pos_trivial) simp_all
  finally have u: "uint (word_of_int n :: u8) = 256 + n" by (simp add: uint_word_of_int)
  then have "\<not> (word_of_int n :: u8) < 1" using assms(2) by (simp add: word_less_def)
  then show ?thesis using u assms
    by (simp add: eon_irq_init_def call_def pci_msi_setup_def Let_def)
qed

text \<open>
  A probe without a DMA mask. When the 64-bit mask is accepted and the coherent mask is
  not, \<open>eon_probe\<close> leaves by the exit that frees the channels of a device structure it has
  not allocated yet.
\<close>

lemma eon_probe_mask_failure:
  assumes "\<And>h n. k_call env h n = (if n = ''pci_set_consistent_dma_mask 32'' then e else 0)" and "e \<noteq> 0"
  shows "fst (set_dma_mask env h) = e \<and> eon_probe env s pd h = None"
  using assms by (simp add: set_dma_mask_def eon_probe_def call_def Let_def)

text \<open>
  C40: the module's life. When \<open>eon_init\<close> fails it gives the error of the step that failed and holds
  nothing more than before; when it succeeds it holds the device numbers, the class and the driver
  registration, and \<open>eon_exit\<close> gives exactly these back. No card number is used up either way.
\<close>

theorem eon_init_exit:
  assumes "eon_init env major s h = (ret, s', h')"
  shows "(if ret = 0
     then held h' = held h + {#Res_chrdev_region, Res_class, Res_pci_driver#} \<and>
       eon_dpu_major s' = major \<and> \<not> IS_ERR (eon_class s') \<and>
       held (eon_exit h') = held h \<and> no_bad_release (eon_exit h') = no_bad_release h
     else held h' = held h \<and> no_bad_release h' = no_bad_release h) \<and> next_dpu_id s' = next_dpu_id s"
proof -
  have err: "sint p \<noteq> 0" if "IS_ERR p" for p
  proof
    assume "sint p = 0"
    then have "p = 0" by (intro signed_word_eqI) simp
    with that show False by (simp add: IS_ERR_def)
  qed
  show ?thesis using assms
    by (auto simp: eon_init_def call_def eon_exit_def Let_def add_mset_commute split: if_splits dest: err)
qed

theorem eon_init_exit_witness:
  "\<exists>s' h'. eon_init (demo_probe_env calls_ok) 240 demo_module [] = (0, s', h') \<and> held (eon_exit h') = {#}"
proof -
  obtain ret s' h' where r: "eon_init (demo_probe_env calls_ok) 240 demo_module [] = (ret, s', h')"
    by (metis prod_cases3)
  have "ret = 0" using r by (auto simp: eon_init_def call_def IS_ERR_def calls_ok_def demo_probe_defs Let_def)
  with eon_init_exit [OF r] r show ?thesis by auto
qed

end
