(* ===== verification/Eon_Recovery.thy ===== *)
theory Eon_Recovery
  imports Eon_Lifecycle
begin

text \<open>
  The interrupt thread against a device that behaves as the HDMA does: a status bit stays set until
  it is written to the clear register, and no new interrupt comes. The scan is then the search for the first pending
  channel in a fixed order, and the thread's periodic scan recovers from lost interrupts.
\<close>

section \<open>A device with latched status registers\<close>

text \<open>The bits of a clear register written so far.\<close>

fun cleared :: "u64 \<Rightarrow> hist \<Rightarrow> u32" where
  "cleared a [] = 0"
| "cleared a (Ev_write32 b d # g) = (if a = b then cleared a g OR d else cleared a g)"
| "cleared a (_ # g) = cleared a g"

definition int_status :: "eon_device \<Rightarrow> slot \<Rightarrow> u64" where
  "int_status dev s = r_int_status (hc_ctx (the (chan_at dev s)))"

definition int_clear :: "eon_device \<Rightarrow> slot \<Rightarrow> u64" where
  "int_clear dev s = r_int_clear (hc_ctx (the (chan_at dev s)))"

text \<open>What is left of the status \<open>raised s\<close> of the channel in slot \<open>s\<close> after the events \<open>g\<close>.\<close>

definition left :: "eon_device \<Rightarrow> (slot \<Rightarrow> u32) \<Rightarrow> hist \<Rightarrow> slot \<Rightarrow> u32" where
  "left dev raised g s = raised s AND NOT (cleared (int_clear dev s) g)"

definition pending :: "eon_device \<Rightarrow> (slot \<Rightarrow> u32) \<Rightarrow> hist \<Rightarrow> slot \<Rightarrow> bool" where
  "pending dev raised g s \<longleftrightarrow> left dev raised g s AND 7 \<noteq> 0"

text \<open>From the history \<open>h\<close> on, reads of a status register give what is left.\<close>

definition latched :: "'a kenv_scheme \<Rightarrow> eon_device \<Rightarrow> (slot \<Rightarrow> u32) \<Rightarrow> hist \<Rightarrow> bool" where
  "latched env dev raised h \<longleftrightarrow> (\<forall>s g. chan_at dev s \<noteq> None \<longrightarrow>
     mmio_read32 env (g @ h) (int_status dev s) = left dev raised g s)"

section \<open>The order of the scan\<close>

definition slots_of :: "nat list \<Rightarrow> slot list" where
  "slots_of is = concat (map (\<lambda>i. [Rd i, Wr i]) is)"

lemma slots_of_simps [simp]: "slots_of [] = []" "slots_of (i # is) = Rd i # Wr i # slots_of is"
  by (simp_all add: slots_of_def)

definition complete :: "slot \<Rightarrow> eon_device \<Rightarrow> eon_device" where
  "complete s dev = put_chan s ((the (chan_at dev s))\<lparr>hc_state := TRANSFER_STATE_COMPLETED\<rparr>) dev"

text \<open>
  The reference: the first pending channel in the given order, if any, is completed and its
  status cleared as a whole; nothing else changes.
\<close>

fun scanned :: "(u32 \<Rightarrow> bool) \<Rightarrow> eon_device \<Rightarrow> (slot \<Rightarrow> u32) \<Rightarrow> hist \<Rightarrow> slot option \<Rightarrow>
    u32 option \<times> eon_device \<times> hist \<Rightarrow> bool" where
  "scanned wk dev raised g None (found, dev', g') \<longleftrightarrow> found = None \<and> dev' = dev \<and>
     (\<forall>a. cleared a g' = cleared a g) \<and> set g \<subseteq> set g'"
| "scanned wk dev raised g (Some s) (found, dev', g') \<longleftrightarrow> found = Some (left dev raised g s) \<and>
     dev' = complete s dev \<and>
     (\<forall>a. cleared a g' = (if a = int_clear dev s then cleared a g OR left dev raised g s else cleared a g)) \<and>
     (wk (left dev raised g s) \<longrightarrow> Ev_wake (hc_wq (the (chan_at dev s))) \<in> set g') \<and> set g \<subseteq> set g'"

lemma left_cong: "(\<forall>a. cleared a g' = cleared a g) \<Longrightarrow> left dev raised g' = left dev raised g"
  by (simp add: left_def fun_eq_iff)

lemma get_status_latched:
  assumes "latched env dev raised h" and "chan_at dev s = Some c"
  obtains g' where "hdma_get_intr_status env c (g @ h) = (left dev raised g s, g' @ h)"
    "\<forall>a. cleared a g' = cleared a g" "set g \<subseteq> set g'"
proof -
  let ?a = "r_status (hc_ctx c)" and ?b = "r_int_status (hc_ctx c)"
  let ?g1 = "Ev_read32 ?a (mmio_read32 env (g @ h) ?a) # g"
  have "mmio_read32 env (?g1 @ h) ?b = left dev raised ?g1 s"
    using assms unfolding latched_def int_status_def by (metis option.distinct(1) option.sel)
  then have "mmio_read32 env (Ev_read32 ?a (mmio_read32 env (g @ h) ?a) # g @ h) ?b = left dev raised g s"
    by (simp add: left_def)
  then have "hdma_get_intr_status env c (g @ h) =
      (left dev raised g s, (Ev_read32 ?b (left dev raised g s) # ?g1) @ h)"
    by (simp add: get_status_eq Let_def)
  then show ?thesis by (rule that) auto
qed

lemma serve_scanned:
  assumes "chan_at dev s = Some c" and "\<forall>a. cleared a g' = cleared a g" and "set g \<subseteq> set g'"
    and "pending dev raised g s" and "serve wk c (left dev raised g s) (g' @ h) = (c', h')"
  obtains g2 where "h' = g2 @ h"
    "scanned wk dev raised g (Some s) (Some (left dev raised g s), put_chan s c' dev, g2)"
proof -
  let ?st = "left dev raised g s"
  let ?w = "Ev_write32 (r_int_clear (hc_ctx c)) ?st # g'"
  let ?g = "if wk ?st then Ev_wake (hc_wq c) # ?w else ?w"
  have "h' = ?g @ h" "c' = c\<lparr>hc_state := TRANSFER_STATE_COMPLETED\<rparr>"
    using assms(4,5) by (auto simp: pending_def serve_def hdma_clear_intr_status_def access_defs wake_up_def Let_def)
  moreover from this have "scanned wk dev raised g (Some s) (Some ?st, put_chan s c' dev, ?g)"
    using assms(1-3) by (auto simp: complete_def int_clear_def)
  ultimately show ?thesis using that by blast
qed

lemma scan_find:
  assumes "latched env dev raised h" and "\<forall>i \<in> set is. hdmar dev i \<noteq> None \<and> hdmaw dev i \<noteq> None"
  shows "\<exists>found dev' g'. scan env wk is dev (g @ h) = Done (found, dev', g' @ h) \<and>
    scanned wk dev raised g (find (pending dev raised g) (slots_of is)) (found, dev', g')"
  using assms(2)
proof (induction "is" arbitrary: g)
  case Nil
  then show ?case by simp
next
  case (Cons i js)
  obtain c w where cw: "hdmar dev i = Some c" "hdmaw dev i = Some w" using Cons.prems by auto
  then have at: "chan_at dev (Rd i) = Some c" "chan_at dev (Wr i) = Some w" by simp_all
  obtain g1 where r: "hdma_get_intr_status env c (g @ h) = (left dev raised g (Rd i), g1 @ h)"
    "\<forall>a. cleared a g1 = cleared a g" "set g \<subseteq> set g1" by (rule get_status_latched [OF assms(1) at(1)])
  show ?case
  proof (cases "pending dev raised g (Rd i)")
    case True
    obtain c' h' where s: "serve wk c (left dev raised g (Rd i)) (g1 @ h) = (c', h')" by fastforce
    obtain g2 where "h' = g2 @ h" "scanned wk dev raised g (Some (Rd i))
        (Some (left dev raised g (Rd i)), put_chan (Rd i) c' dev, g2)"
      by (rule serve_scanned [OF at(1) r(2,3) True s])
    then show ?thesis using True by (auto simp: cw r(1) s pending_def)
  next
    case idle: False
    obtain g2 where r2: "hdma_get_intr_status env w (g1 @ h) = (left dev raised g1 (Wr i), g2 @ h)"
      "\<forall>a. cleared a g2 = cleared a g1" "set g1 \<subseteq> set g2" by (rule get_status_latched [OF assms(1) at(2)])
    have l: "left dev raised g1 = left dev raised g" "left dev raised g2 = left dev raised g"
      using r(2) r2(2) by (simp_all add: left_def fun_eq_iff)
    have sub: "\<forall>a. cleared a g2 = cleared a g" "set g \<subseteq> set g2" using r(2,3) r2(2,3) by auto
    show ?thesis
    proof (cases "pending dev raised g (Wr i)")
      case True
      obtain c' h' where s: "serve wk w (left dev raised g (Wr i)) (g2 @ h) = (c', h')" by fastforce
      obtain g3 where "h' = g3 @ h" "scanned wk dev raised g (Some (Wr i))
          (Some (left dev raised g (Wr i)), put_chan (Wr i) c' dev, g3)"
        by (rule serve_scanned [OF at(2) sub True s])
      then show ?thesis using True idle by (auto simp: cw r(1) r2(1) l s pending_def)
    next
      case False
      have p: "pending dev raised g2 = pending dev raised g" by (simp add: pending_def l fun_eq_iff)
      from Cons.IH [of g2] Cons.prems obtain found dev' g' where
        n: "scan env wk js dev (g2 @ h) = Done (found, dev', g' @ h)"
        "scanned wk dev raised g2 (find (pending dev raised g) (slots_of js)) (found, dev', g')"
        unfolding p by auto
      have "scanned wk dev raised g (find (pending dev raised g) (slots_of js)) (found, dev', g')"
        using n(2) sub by (cases "find (pending dev raised g) (slots_of js)") (auto simp: l)
      then show ?thesis using idle False n(1) by (simp add: cw r(1) r2(1) l) (simp add: pending_def)
    qed
  qed
qed

section \<open>Rounds of the thread without interrupts\<close>

definition all_slots :: "slot list" where
  "all_slots = slots_of [0..<MAX_HDMA_NUMBER]"

lemma set_all_slots: "set all_slots = Rd ` {..<16} \<union> Wr ` {..<16}"
  by (auto simp: all_slots_def slots_of_def MAX_HDMA_NUMBER_def)

text \<open>\<open>alike dev0 dev\<close>: the same channels with the same registers and wait queues.\<close>

definition alike :: "eon_device \<Rightarrow> eon_device \<Rightarrow> bool" where
  "alike dev0 dev \<longleftrightarrow> (\<forall>s. map_option (\<lambda>c. (hc_ctx c, hc_wq c)) (chan_at dev s) =
     map_option (\<lambda>c. (hc_ctx c, hc_wq c)) (chan_at dev0 s))"

lemma alike_refl [simp]: "alike dev dev"
  by (simp add: alike_def)

lemma alike_at:
  assumes "alike dev0 dev"
  shows "chan_at dev s = None \<longleftrightarrow> chan_at dev0 s = None"
    "hc_ctx (the (chan_at dev s)) = hc_ctx (the (chan_at dev0 s))"
    "hc_wq (the (chan_at dev s)) = hc_wq (the (chan_at dev0 s))"
  using assms unfolding alike_def
  by (cases "chan_at dev s"; cases "chan_at dev0 s"; force dest: spec [of _ s] simp del: chan_at.simps)+

lemma alike_left:
  assumes "alike dev0 dev"
  shows "int_clear dev = int_clear dev0" "left dev = left dev0" "pending dev = pending dev0"
    "latched env dev = latched env dev0"
proof -
  show c: "int_clear dev = int_clear dev0" using alike_at(2) [OF assms] by (simp add: int_clear_def fun_eq_iff)
  have s: "int_status dev = int_status dev0" using alike_at(2) [OF assms] by (simp add: int_status_def fun_eq_iff)
  show l: "left dev = left dev0" using c by (simp add: left_def fun_eq_iff)
  then show "pending dev = pending dev0" by (simp add: pending_def fun_eq_iff)
  show "latched env dev = latched env dev0" using l s alike_at(1) [OF assms] by (simp add: latched_def fun_eq_iff)
qed

lemma alike_complete:
  assumes "alike dev0 dev" and "chan_at dev s \<noteq> None"
  shows "alike dev0 (complete s dev)"
proof -
  obtain c where c: "chan_at dev s = Some c" using assms(2) by blast
  have e: "map_option (\<lambda>c. (hc_ctx c, hc_wq c)) (chan_at dev t) =
      map_option (\<lambda>c. (hc_ctx c, hc_wq c)) (chan_at dev0 t)" for t
    using assms(1) unfolding alike_def by blast
  show ?thesis unfolding alike_def
  proof
    fix t
    show "map_option (\<lambda>c. (hc_ctx c, hc_wq c)) (chan_at (complete s dev) t) =
        map_option (\<lambda>c. (hc_ctx c, hc_wq c)) (chan_at dev0 t)"
      using e [of t] c by (cases "s = t") (simp_all add: complete_def chan_at_put del: chan_at.simps put_chan.simps)
  qed
qed

lemma alike_present: "alike dev0 dev \<Longrightarrow> channels_present dev0 \<Longrightarrow> channels_present dev"
  using alike_at(1) [of dev0 dev "Rd _"] alike_at(1) [of dev0 dev "Wr _"] by (simp add: channels_present_def)

definition completed :: "eon_device \<Rightarrow> slot \<Rightarrow> bool" where
  "completed dev s \<longleftrightarrow> (\<exists>c. chan_at dev s = Some c \<and> hc_state c = TRANSFER_STATE_COMPLETED)"

lemma completed_complete:
  assumes "chan_at dev s \<noteq> None"
  shows "completed (complete s dev) s" "completed dev t \<Longrightarrow> completed (complete s dev) t"
  using assms by (auto simp: completed_def complete_def chan_at_put simp del: chan_at.simps put_chan.simps)

text \<open>Different channels have different clear registers.\<close>

lemma clear_inj:
  assumes "chan_inv dev" and "s \<in> set all_slots" and "t \<in> set all_slots"
  shows "int_clear dev s = int_clear dev t \<longleftrightarrow> s = t"
proof -
  have addr: "int_clear dev (Rd i) = hdma_reg_at (hdma_block dev) (of_nat i) (RdCh, INT_CLEAR)"
    "int_clear dev (Wr i) = hdma_reg_at (hdma_block dev) (of_nat i) (WrCh, INT_CLEAR)" if "i < 16" for i
    using assms(1) that reg_sel_regs_of [of INT_CLEAR]
    by (auto simp: chan_inv_def MAX_HDMA_NUMBER_def dev_channel_def is_channel_def int_clear_def rw_of_def
        dest!: spec [of _ i])
  have eq: "hdma_reg_at (hdma_block dev) (of_nat i) (d, INT_CLEAR) = hdma_reg_at (hdma_block dev) (of_nat j) (e, INT_CLEAR) \<longleftrightarrow>
      d = e \<and> i = j" if "i < 16" "j < 16" for i j d e
  proof -
    have u: "unat (of_nat i :: u32) = i" "unat (of_nat j :: u32) = j" using that by (simp_all add: unat_of_nat_16)
    then have b: "unat (of_nat i :: u32) < 16" "unat (of_nat j :: u32) < 16" using that by simp_all
    have "(of_nat i :: u32) = of_nat j \<longleftrightarrow> i = j" using u by metis
    then show ?thesis by (auto simp: hdma.reg_eq_iff [OF b])
  qed
  show ?thesis using assms(2,3) by (auto simp: set_all_slots addr eq simp del: hdma_reg_at.simps)
qed

lemma left_again: "left dev raised g s = x \<Longrightarrow> cleared (int_clear dev s) g' = cleared (int_clear dev s) g OR x \<Longrightarrow>
    left dev raised g' s = 0"
  by (auto simp: left_def bit_eq_iff bit_simps)

definition waiting :: "eon_device \<Rightarrow> (slot \<Rightarrow> u32) \<Rightarrow> hist \<Rightarrow> slot set" where
  "waiting dev raised g = {s \<in> set all_slots. pending dev raised g s}"

lemma finite_waiting [simp]: "finite (waiting dev raised g)" 
  by (simp add: waiting_def)

lemma scanned_waiting:
  assumes "chan_inv dev" and "find (pending dev raised g) all_slots = Some s"
    and "scanned wk dev raised g (Some s) (found, dev', g')"
  shows "s \<in> waiting dev raised g" "waiting dev raised g' = waiting dev raised g - {s}"
proof -
  have s: "s \<in> set all_slots" "pending dev raised g s"
    using assms(2) by (auto simp: find_Some_iff)
  then show "s \<in> waiting dev raised g" by (simp add: waiting_def)
  have c: "cleared a g' = (if a = int_clear dev s then cleared a g OR left dev raised g s else cleared a g)" for a
    using assms(3) by simp
  have "left dev raised g' s = 0" by (rule left_again [OF refl]) (simp add: c)
  moreover have "left dev raised g' t = left dev raised g t" if "t \<in> set all_slots" "t \<noteq> s" for t
    using that clear_inj [OF assms(1) that(1) s(1)] by (simp add: left_def c)
  ultimately have "left dev raised g' t = (if t = s then 0 else left dev raised g t)" if "t \<in> set all_slots" for t
    using that by simp
  then show "waiting dev raised g' = waiting dev raised g - {s}"
    by (auto simp: waiting_def pending_def split: if_splits)
qed

text \<open>A thread that nobody interrupts or stops: only its wait times out.\<close>

definition quiet :: "'a irq_env_scheme \<Rightarrow> bool" where
  "quiet env \<longleftrightarrow> (\<forall>h. k_isr_runs env h = 0 \<and> \<not> k_should_stop env h)"

definition idle_fifo :: "eon_device \<Rightarrow> bool" where
  "idle_fifo dev \<longleftrightarrow> hdma_kfifo dev = [] \<and> should_stop_flag dev \<noteq> 1"

text \<open>The state after \<open>n\<close> rounds.\<close>

primrec rounds :: "'a irq_env_scheme \<Rightarrow> nat \<Rightarrow> nat \<Rightarrow> thread_vars \<Rightarrow> eon_device \<Rightarrow> hist \<Rightarrow>
    (thread_vars \<times> eon_device \<times> hist) run" where
  "rounds env fuel 0 v dev h = Done (v, dev, h)"
| "rounds env fuel (Suc n) v dev h =
     (case thread_round env fuel v dev h of
        Done (stop, v, dev, h) \<Rightarrow> if stop then Done (v, dev, h) else rounds env fuel n v dev h
      | Oops \<Rightarrow> Oops | More_fuel \<Rightarrow> More_fuel)"

lemma quiet_round:
  assumes "quiet env" and "idle_fifo dev"
    and "scan_extra env dev (Ev_sleep (thread_wq dev) (k_thread_wait env h) # h) = Done (found, dev', h')"
    and "idle_fifo dev'"
  shows "thread_round env fuel v dev h = Done (False, v\<lparr>t_ret := k_thread_wait env h\<rparr>, dev', h')"
proof -
  have "drain env fuel w dev x = Done (w, dev, x)" for w x
    using assms(2) by (cases fuel) (simp_all add: idle_fifo_def)
  then show ?thesis using assms by (simp add: thread_round_def quiet_def idle_fifo_def Let_def)
qed

text \<open>One round: nothing is pending and nothing changes, or one channel is completed and woken.\<close>

lemma round_progress:
  assumes "quiet env" and "chan_inv dev0" and "latched env dev0 raised h" and "alike dev0 dev" and "idle_fifo dev"
  obtains v' dev' g' where "thread_round env fuel v dev (g @ h) = Done (False, v', dev', g' @ h)"
    "alike dev0 dev'" "idle_fifo dev'" "set g \<subseteq> set g'" "\<And>t. completed dev t \<Longrightarrow> completed dev' t"
    "waiting dev0 raised g = {} \<and> waiting dev0 raised g' = {} \<or>
     (\<exists>s \<in> waiting dev0 raised g. waiting dev0 raised g' = waiting dev0 raised g - {s} \<and> completed dev' s \<and>
        Ev_wake (hc_wq (the (chan_at dev0 s))) \<in> set g')"
proof -
  note A = alike_left(1-3) [OF assms(4)]
  have l: "latched env dev raised h" using assms(3) alike_left(4) [OF assms(4), of env] by simp
  let ?g = "Ev_sleep (thread_wq dev) (k_thread_wait env (g @ h)) # g"
  have pres: "channels_present dev"
    by (rule alike_present [OF assms(4)]) (use assms(2) in \<open>auto simp: chan_inv_def channels_present_def\<close>)
  have w: "waiting dev0 raised ?g = waiting dev0 raised g" by (simp add: waiting_def pending_def left_def)
  obtain found dev' g' where s: "scan_extra env dev (?g @ h) = Done (found, dev', g' @ h)"
    "scanned (\<lambda>_. True) dev raised ?g (find (pending dev0 raised ?g) all_slots) (found, dev', g')"
    using scan_find [OF l, of "[0..<MAX_HDMA_NUMBER]" "\<lambda>_. True" ?g] A pres
    unfolding scan_extra_def all_slots_def channels_present_def by auto
  have run: "idle_fifo dev' \<Longrightarrow> thread_round env fuel v dev (g @ h) =
      Done (False, v\<lparr>t_ret := k_thread_wait env (g @ h)\<rparr>, dev', g' @ h)"
    using quiet_round [OF assms(1,5) s(1) [simplified]] by blast
  show ?thesis
  proof (cases "find (pending dev0 raised ?g) all_slots")
    case None
    have "waiting dev0 raised g = {}"
      using None unfolding w [symmetric] by (auto simp: waiting_def find_None_iff)
    moreover have "waiting dev0 raised g' = waiting dev0 raised ?g" "dev' = dev" "set g \<subseteq> set g'"
      using s(2) None by (auto simp: waiting_def pending_def left_def)
    ultimately show ?thesis using assms(4,5) w by (intro that [OF run]) auto
  next
    case (Some sl)
    have sc: "scanned (\<lambda>_. True) dev0 raised ?g (Some sl)
        (Some (left dev0 raised ?g sl), complete sl dev0, g')" and d: "dev' = complete sl dev"
      using s(2) Some A alike_at [OF assms(4), of sl] by auto
    note W = scanned_waiting [OF assms(2) Some sc, unfolded w]
    have at: "chan_at dev sl \<noteq> None"
      using W(1) pres by (auto simp: waiting_def set_all_slots channels_present_def MAX_HDMA_NUMBER_def)
    have "idle_fifo dev'" using assms(5) by (simp add: d idle_fifo_def complete_def)
    moreover have "alike dev0 dev'" unfolding d by (rule alike_complete [OF assms(4) at])
    moreover have "completed dev' sl" "\<And>t. completed dev t \<Longrightarrow> completed dev' t"
      unfolding d using completed_complete [OF at] by blast+
    ultimately show ?thesis using W sc by (intro that [OF run]) auto
  qed
qed

lemma rounds_progress:
  assumes "quiet env" and "chan_inv dev0" and "latched env dev0 raised h" and "alike dev0 dev" and "idle_fifo dev"
  shows "\<exists>v' dev' g'. rounds env fuel n v dev (g @ h) = Done (v', dev', g' @ h) \<and>
    set g \<subseteq> set g' \<and> (\<forall>t. completed dev t \<longrightarrow> completed dev' t) \<and>
    card (waiting dev0 raised g') \<le> card (waiting dev0 raised g) - n \<and>
    (\<forall>s \<in> waiting dev0 raised g - waiting dev0 raised g'. completed dev' s \<and>
       Ev_wake (hc_wq (the (chan_at dev0 s))) \<in> set g')"
  using assms(4,5)
proof (induction n arbitrary: v dev g)
  case 0
  then show ?case by auto
next
  case (Suc n)
  obtain v1 d1 g1 where r: "thread_round env fuel v dev (g @ h) = Done (False, v1, d1, g1 @ h)"
    "alike dev0 d1" "idle_fifo d1" "set g \<subseteq> set g1" "\<forall>t. completed dev t \<longrightarrow> completed d1 t"
    and w: "waiting dev0 raised g = {} \<and> waiting dev0 raised g1 = {} \<or>
     (\<exists>s \<in> waiting dev0 raised g. waiting dev0 raised g1 = waiting dev0 raised g - {s} \<and> completed d1 s \<and>
        Ev_wake (hc_wq (the (chan_at dev0 s))) \<in> set g1)"
    by (rule round_progress [OF assms(1-3) Suc.prems, where fuel = fuel and v = v and g = g]) blast
  obtain v2 d2 g2 where n: "rounds env fuel n v1 d1 (g1 @ h) = Done (v2, d2, g2 @ h)"
    "set g1 \<subseteq> set g2" "\<forall>t. completed d1 t \<longrightarrow> completed d2 t"
    "card (waiting dev0 raised g2) \<le> card (waiting dev0 raised g1) - n"
    "\<forall>s \<in> waiting dev0 raised g1 - waiting dev0 raised g2. completed d2 s \<and>
       Ev_wake (hc_wq (the (chan_at dev0 s))) \<in> set g2"
    using Suc.IH [OF r(2,3), of v1 g1] by (elim exE conjE) (rule that)
  have "card (waiting dev0 raised g1) \<le> card (waiting dev0 raised g) - 1"
    using w
  proof
    assume "\<exists>s \<in> waiting dev0 raised g. waiting dev0 raised g1 = waiting dev0 raised g - {s} \<and> completed d1 s \<and>
        Ev_wake (hc_wq (the (chan_at dev0 s))) \<in> set g1"
    then obtain s where "s \<in> waiting dev0 raised g" "waiting dev0 raised g1 = waiting dev0 raised g - {s}" by blast
    then show ?thesis by (simp only: card_Diff_singleton)
  qed simp
  then have "card (waiting dev0 raised g2) \<le> card (waiting dev0 raised g) - Suc n" using n(4) by simp
  moreover have "\<forall>s \<in> waiting dev0 raised g - waiting dev0 raised g2. completed d2 s \<and>
      Ev_wake (hc_wq (the (chan_at dev0 s))) \<in> set g2"
    using w n(2,3,5) by auto
  moreover have "\<forall>t. completed dev t \<longrightarrow> completed d2 t" "set g \<subseteq> set g2" using r(4,5) n(2,3) by auto
  ultimately show ?case using r(1) n(1) by simp
qed

section \<open>Properties\<close>

definition demo_latched_env :: irq_env where
  "demo_latched_env = (demo_irq_env 0)\<lparr>mmio_read32 := (\<lambda>h a. 1 AND NOT (cleared (a + 8) h)), k_isr_runs := \<lambda>_. 0\<rparr>"

lemma demo_latched: "latched demo_latched_env demo_live_device (\<lambda>_. 1) []"
proof -
  have "int_status demo_live_device s + 8 = int_clear demo_live_device s" for s
    by (cases s) (simp_all add: int_status_def int_clear_def demo_live_device_def hdma_regs_of_def
        hdma_regs_wr_def hdma_regs_rd_def HDMA_INT_STATUS_OFF_WRCH_def HDMA_INT_CLEAR_OFF_WRCH_def
        HDMA_INT_STATUS_OFF_RDCH_def HDMA_INT_CLEAR_OFF_RDCH_def)
  then show ?thesis by (simp add: latched_def left_def demo_latched_env_def)
qed

lemma demo_live: "chan_inv demo_live_device" "channels_present demo_live_device"
  "hdma_kfifo demo_live_device = []" "should_stop_flag demo_live_device \<noteq> 1"
  using demo_dev_inv by (auto simp: dev_inv_def chan_inv_def channels_present_def demo_live_device_def demo_device_def)

text \<open>
  C11: the scan is a search. On a device that latches its status bits, the thread's scan serves
  the first channel with a pending status in the order read 0, write 0, read 1, write 1 and so on,
  clears exactly the status it read there, and changes nothing when there is none.
\<close>

theorem scan_first_pending:
  assumes "channels_present dev" and "latched env dev raised h"
  shows "\<exists>found dev' g'. scan env wk [0..<MAX_HDMA_NUMBER] dev h = Done (found, dev', g' @ h) \<and>
    scanned wk dev raised [] (find (pending dev raised []) all_slots) (found, dev', g')"
  using scan_find [OF assms(2), of "[0..<MAX_HDMA_NUMBER]" wk "[]"] assms(1)
  by (auto simp: channels_present_def all_slots_def)

theorem scan_first_pending_witness:
  "\<exists>dev' g'. scan demo_latched_env (\<lambda>_. True) [0..<MAX_HDMA_NUMBER] demo_live_device [] = Done (Some 1, dev', g') \<and>
    dev' = complete (Rd 0) demo_live_device"
proof -
  have "find (pending demo_live_device (\<lambda>_. 1) []) all_slots = Some (Rd 0)"
    by (simp add: all_slots_def MAX_HDMA_NUMBER_def upt_conv_Cons pending_def left_def)
  then show ?thesis
    using scan_first_pending [OF demo_live(2) demo_latched, of "\<lambda>_. True"] by (auto simp: left_def)
qed

text \<open>
  C12: lost interrupts are recovered. If the device latches its status bits and reports nothing
  new, 32 rounds of the thread are enough, with no interrupt at all, each started by the time-out of its wait: afterwards no channel has a pending
  status, and every channel that had one is completed and its waiter was woken.
\<close>

theorem lost_interrupts_recovered:
  assumes "quiet env" and "chan_inv dev" and "latched env dev raised h"
    and "hdma_kfifo dev = []" and "should_stop_flag dev \<noteq> 1"
  shows "\<exists>v' dev' g'. rounds env fuel 32 v dev h = Done (v', dev', g' @ h) \<and>
    (\<forall>s \<in> set all_slots. \<not> pending dev raised g' s \<and>
       (pending dev raised [] s \<longrightarrow> completed dev' s \<and> Ev_wake (hc_wq (the (chan_at dev s))) \<in> set g'))"
proof -
  have "idle_fifo dev" using assms(4,5) by (simp add: idle_fifo_def)
  from rounds_progress [OF assms(1-3) alike_refl this, of fuel 32 v "[]"] obtain v' dev' g' where
    r: "rounds env fuel 32 v dev h = Done (v', dev', g' @ h)"
    "card (waiting dev raised g') \<le> card (waiting dev raised []) - 32"
    "\<forall>s \<in> waiting dev raised [] - waiting dev raised g'. completed dev' s \<and>
       Ev_wake (hc_wq (the (chan_at dev s))) \<in> set g'" by auto
  have "card (waiting dev raised []) \<le> card (set all_slots)" by (rule card_mono) (auto simp: waiting_def)
  also have "\<dots> \<le> 32" using card_length [of all_slots]
    by (simp add: all_slots_def slots_of_def MAX_HDMA_NUMBER_def upt_conv_Cons)
  finally have "waiting dev raised g' = {}" using r(2) by simp
  with r(1,3) show ?thesis by (auto simp: waiting_def)
qed

theorem lost_interrupts_recovered_witness:
  "\<exists>v' dev' g'. rounds demo_latched_env 0 32 demo_vars demo_live_device [] = Done (v', dev', g') \<and> completed dev' (Wr 15)"
proof -
  have "quiet demo_latched_env" by (simp add: quiet_def demo_latched_env_def demo_irq_env_def)
  moreover have "Wr 15 \<in> set all_slots" "pending demo_live_device (\<lambda>_. 1) [] (Wr 15)"
    by (simp_all add: set_all_slots pending_def left_def)
  ultimately show ?thesis
    using lost_interrupts_recovered [OF _ demo_live(1) demo_latched demo_live(3,4), of 0 demo_vars] by fastforce
qed

end
