(* ===== verification/Eon_EndToEnd.thy ===== *)
theory Eon_EndToEnd
  imports Eon_Ioctl
begin

text \<open>
  What a whole transfer does to the data. The engine that runs the descriptor list is an abstract
  machine on two memories, the host's (by bus address) and the card's; the theorems of this file put
  pinning, scatter list, descriptor list and both DMA runs together: an inbound transfer has the
  engine copy exactly the user's buffer, an outbound one has it fill exactly that buffer.
\<close>

section \<open>The engine\<close>

type_synonym mem = "u64 \<Rightarrow> u8"

text \<open>
  The engine moves the bytes of the data elements in order and stops at the link, whose cycle bit
  ends the list.
\<close>

fun engine :: "element list \<Rightarrow> mem \<Rightarrow> mem \<Rightarrow> mem" where
  "engine [] host dev = dev"
| "engine (Data src dst n cb lie rie # es) host dev =
     engine es host (\<lambda>z. if unat (z - dst) < unat n then host (src + (z - dst)) else dev z)"
| "engine (Link p cb tcb # es) host dev = dev"

definition dma_total :: "sg_entry list \<Rightarrow> nat" where
  "dma_total es = sum_list (map (\<lambda>e. unat (sg_dma_len e)) es)"

lemma dma_total_simps [simp]: "dma_total [] = 0" "dma_total (e # es) = unat (sg_dma_len e) + dma_total es"
  by (simp_all add: dma_total_def)

text \<open>
  The elements of a list: data for each entry, then the link. The card side of the entries is
  consecutive from \<open>c\<close>; it is the source of an outbound transfer and the destination of an inbound one.
\<close>

definition entry_moves :: "bool \<Rightarrow> u64 \<Rightarrow> sg_entry \<Rightarrow> element \<Rightarrow> bool" where
  "entry_moves out c e el \<longleftrightarrow> (\<exists>cb lie rie. el =
     (if out then Data c (sg_dma_address e) (sg_dma_len e) cb lie rie
      else Data (sg_dma_address e) c (sg_dma_len e) cb lie rie))"

definition elements_for :: "bool \<Rightarrow> u64 \<Rightarrow> sg_entry list \<Rightarrow> element list \<Rightarrow> bool" where
  "elements_for out c es els \<longleftrightarrow> length els = length es + 1 \<and>
     (\<forall>k < length es. entry_moves out (c + dma_sum (take k es)) (es ! k) (els ! k)) \<and>
     (\<exists>p cb tcb. els ! length es = Link p cb tcb)"

lemma elements_for_Nil: "elements_for out c [] els \<Longrightarrow> engine els src dst = dst"
  by (auto simp: elements_for_def length_Suc_conv)

lemma elements_for_Cons:
  assumes "elements_for out c (e # es) els"
  obtains el els' where "els = el # els'" "entry_moves out c e el" "elements_for out (c + ucast (sg_dma_len e)) es els'"
proof -
  obtain el els' where els: "els = el # els'" using assms by (cases els) (auto simp: elements_for_def)
  have all: "\<forall>k < length (e # es). entry_moves out (c + dma_sum (take k (e # es))) ((e # es) ! k) (els ! k)"
    using assms unfolding elements_for_def by blast
  have "entry_moves out (c + ucast (sg_dma_len e) + dma_sum (take k es)) (es ! k) (els' ! k)" if "k < length es" for k
    using all [rule_format, of "Suc k"] that by (simp add: els add.assoc)
  moreover have "length els' = length es + 1" "\<exists>p cb tcb. els' ! length es = Link p cb tcb"
    using assms unfolding elements_for_def els by simp_all
  ultimately have "elements_for out (c + ucast (sg_dma_len e)) es els'" unfolding elements_for_def by blast
  moreover have "entry_moves out c e el" using all [rule_format, of 0] by (simp add: els)
  ultimately show ?thesis using els that by blast
qed

text \<open>Inbound, the engine fills the card's memory from the entries and touches nothing else.\<close>

lemma engine_fills:
  assumes "elements_for False dst es els" and "dma_total es < 2 ^ 64"
  shows "(\<forall>i < length es. \<forall>r < unat (sg_dma_len (es ! i)).
      engine els host dev (dst + dma_sum (take i es) + of_nat r) = host (sg_dma_address (es ! i) + of_nat r)) \<and>
    (\<forall>z. dma_total es \<le> unat (z - dst) \<longrightarrow> engine els host dev z = dev z)"
  using assms
proof (induction es arbitrary: dst els dev)
  case Nil
  then show ?case by (simp add: elements_for_Nil)
next
  case (Cons e es)
  obtain cb lie rie els' where els: "els = Data (sg_dma_address e) dst (sg_dma_len e) cb lie rie # els'"
    "elements_for False (dst + ucast (sg_dma_len e)) es els'"
    by (rule elements_for_Cons [OF Cons.prems(1)]) (auto simp: entry_moves_def)
  let ?n = "sg_dma_len e" and ?dst = "dst + ucast (sg_dma_len e)"
  let ?dev = "\<lambda>z. if unat (z - dst) < unat ?n then host (sg_dma_address e + (z - dst)) else dev z"
  have tot: "dma_total es < 2 ^ 64" using Cons.prems(2) by simp
  note IH = Cons.IH [OF els(2) tot, of ?dev]
  have n: "unat (ucast ?n :: u64) = unat ?n" by (simp add: unsigned_ucast_eq take_bit_nat_eq_self)
  have rest: "unat (z - ?dst) = (if unat ?n \<le> unat (z - dst) then unat (z - dst) - unat ?n
      else unat (z - dst) + 2 ^ 64 - unat ?n)" for z
    using unat_sub_if' [of "z - dst" "ucast ?n :: u64"] by (simp add: n diff_diff_eq)
  have run: "engine els host dev z = engine els' host ?dev z" for z by (simp add: els(1))
  have "engine els host dev (dst + dma_sum (take i (e # es)) + of_nat r) = host (sg_dma_address ((e # es) ! i) + of_nat r)"
    if i: "i < length (e # es)" "r < unat (sg_dma_len ((e # es) ! i))" for i r
  proof (cases i)
    case 0
    let ?z = "dst + of_nat r"
    have "unat ?n < 2 ^ 64" by (rule order_less_le_trans [OF unsigned_less]) simp
    then have r: "r < unat ?n" "r < 2 ^ 64" using i(2) 0 by simp_all
    then have "unat (?z - dst) = r" by (simp add: unat_of_nat_small)
    moreover from this have "unat (?z - ?dst) = r + 2 ^ 64 - unat ?n"
      using rest [of ?z] r(1) by (simp only: if_not_P not_le)
    ultimately have "dma_total es \<le> unat (?z - ?dst)" "?dev ?z = host (sg_dma_address e + of_nat r)"
      using Cons.prems(2) r(1) by simp_all
    then show ?thesis using IH 0 by (simp add: run)
  next
    case (Suc j)
    have "engine els' host ?dev (?dst + dma_sum (take j es) + of_nat r) = host (sg_dma_address (es ! j) + of_nat r)"
      using IH i Suc by simp
    then show ?thesis by (simp add: run Suc add.assoc)
  qed
  moreover have "engine els host dev z = dev z" if "dma_total (e # es) \<le> unat (z - dst)" for z
  proof -
    have "dma_total es \<le> unat (z - ?dst)" "\<not> unat (z - dst) < unat ?n" using that by (simp_all add: rest)
    then show ?thesis using IH by (simp add: run)
  qed
  ultimately show ?case by blast
qed

section \<open>The engine on the driver's list\<close>

text \<open>
  The bus mapping of a scatter list maps every page on its own, at the bus address \<open>bus\<close> gives it.
\<close>

definition maps_pages :: "'a sg_env_scheme \<Rightarrow> (u64 \<Rightarrow> u64) \<Rightarrow> bool" where
  "maps_pages env bus \<longleftrightarrow> (\<forall>h es d i. i < length es \<longrightarrow> snd (k_map_sg env h es d) i =
     (bus (sg_page (es ! i)) + ucast (sg_offset (es ! i)), sg_length (es ! i)))"

text \<open>Byte \<open>v\<close> (a virtual address) of the buffer at \<open>a\<close> whose pages are pinned, and its bus address.\<close>

definition user_addr :: "(u64 \<Rightarrow> u64) \<Rightarrow> u64 list \<Rightarrow> nat \<Rightarrow> nat \<Rightarrow> u64" where
  "user_addr bus pages a v = bus (pages ! (v div 4096 - a div 4096)) + of_nat (v mod 4096)"

definition user_byte :: "(u64 \<Rightarrow> u64) \<Rightarrow> u64 list \<Rightarrow> mem \<Rightarrow> nat \<Rightarrow> nat \<Rightarrow> u8" where
  "user_byte bus pages host a v = host (user_addr bus pages a v)"

lemma setup_dma:
  assumes "maps_pages env bus" and "dpu_setup_sg env x pd a f h = (0, x', h')" and "i < length (xi_sg x')"
  shows "sg_dma_address (xi_sg x' ! i) = bus (sg_page (xi_sg x' ! i)) + ucast (sg_offset (xi_sg x' ! i))"
    "sg_dma_len (xi_sg x' ! i) = sg_length (xi_sg x' ! i)"
proof -
  have "\<exists>g es d. xi_sg x' = set_dma (snd (k_map_sg env g es d)) es"
    using assms(2) by (auto simp: dpu_setup_sg_def Let_def split: prod.splits if_splits) (metis snd_conv)+
  then obtain g es d where "xi_sg x' = set_dma (snd (k_map_sg env g es d)) es" by blast
  then show "sg_dma_address (xi_sg x' ! i) = bus (sg_page (xi_sg x' ! i)) + ucast (sg_offset (xi_sg x' ! i))"
    "sg_dma_len (xi_sg x' ! i) = sg_length (xi_sg x' ! i)"
    using assms(1,3) by (simp_all add: nth_set_dma maps_pages_def)
qed

lemma dma_sum_total: "dma_sum es = of_nat (dma_total es)"
  by (induction es) simp_all

lemma dma_total_lengths:
  "(\<And>i. i < length es \<Longrightarrow> sg_dma_len (es ! i) = sg_length (es ! i)) \<Longrightarrow> dma_total es = sg_sum es"
  unfolding dma_total_def sg_sum_def by (intro arg_cong [where f = sum_list] map_cong) (auto simp: in_set_conv_nth)

lemma locate_byte:
  assumes "t < sg_sum es"
  obtains i r where "i < length es" "r < unat (sg_length (es ! i))" "t = sg_sum (take i es) + r"
  using assms
proof (induction es arbitrary: t thesis)
  case (Cons e es)
  show ?case
  proof (cases "t < unat (sg_length e)")
    case True
    then show ?thesis by (intro Cons.prems(1) [of 0 t]) simp_all
  next
    case False
    then have "t - unat (sg_length e) < sg_sum es" using Cons.prems(2) by simp
    then obtain i r where "i < length es" "r < unat (sg_length (es ! i))" "t - unat (sg_length e) = sg_sum (take i es) + r"
      using Cons.IH by blast
    then show ?thesis using False by (intro Cons.prems(1) [of "Suc i" r]) simp_all
  qed
qed simp

lemma page_step:
  assumes "s mod 4096 + r < (4096::nat)"
  shows "(s + r) div 4096 = s div 4096" "(s + r) mod 4096 = s mod 4096 + r"
proof -
  show "(s + r) div 4096 = s div 4096" using assms div_add1_eq [of s r 4096] by simp
  show "(s + r) mod 4096 = s mod 4096 + r" using assms by (metis mod_add_left_eq mod_less)
qed

text \<open>Every byte of the buffer is a byte of one entry, and the entry has the bus address of that byte.\<close>

lemma setup_bytes:
  assumes "gup_counts env" and "maps_pages env bus" and s: "dpu_setup_sg env x pd a f h = (0, x', h')"
    and "unat (xi_size x) < 2 ^ 32" and "unat a + unat (xi_size x) + 4096 < 2 ^ 64"
  shows "dma_total (xi_sg x') = unat (xi_size x)"
    "\<And>i. dma_sum (take i (xi_sg x')) = of_nat (sg_sum (take i (xi_sg x')))"
    "\<And>i r. i < length (xi_sg x') \<Longrightarrow> r < unat (sg_dma_len (xi_sg x' ! i)) \<Longrightarrow>
      sg_dma_address (xi_sg x' ! i) + of_nat r =
        user_addr bus (hmem_pages (xi_hmem_info x')) (unat a) (unat a + (sg_sum (take i (xi_sg x')) + r)) \<and>
      (unat a + (sg_sum (take i (xi_sg x')) + r)) div 4096 - unat a div 4096 = i \<and>
      sg_sum (take i (xi_sg x')) + r < unat (xi_size x)"
    "\<And>t. t < unat (xi_size x) \<Longrightarrow> \<exists>i r. i < length (xi_sg x') \<and> r < unat (sg_dma_len (xi_sg x' ! i)) \<and>
      t = sg_sum (take i (xi_sg x')) + r"
proof -
  let ?es = "xi_sg x'"
  note S = dpu_setup_sg_tiles [OF assms(1) s assms(4,5)]
  note D = setup_dma [OF assms(2) s]
  show "dma_total ?es = unat (xi_size x)" using S dma_total_lengths [OF D(2)] by simp
  show "dma_sum (take i ?es) = of_nat (sg_sum (take i ?es))" for i
    unfolding dma_sum_total using D(2) by (subst dma_total_lengths) simp_all
  show "\<exists>i r. i < length ?es \<and> r < unat (sg_dma_len (?es ! i)) \<and> t = sg_sum (take i ?es) + r"
    if "t < unat (xi_size x)" for t
    using locate_byte [of t ?es] that S D(2) by metis
  fix i r assume i: "i < length ?es" "r < unat (sg_dma_len (?es ! i))"
  let ?s = "unat a + sg_sum (take i ?es)"
  have e: "sg_page (?es ! i) = hmem_pages (xi_hmem_info x') ! i" "unat (sg_offset (?es ! i)) = ?s mod 4096"
    "?s div 4096 = unat a div 4096 + i" "unat (sg_offset (?es ! i)) + unat (sg_length (?es ! i)) \<le> 4096"
    using S [THEN conjunct2, THEN conjunct2, rule_format, OF i(1)] unfolding Let_def by blast+
  have r: "r < unat (sg_length (?es ! i))" using i(2) D(2) [OF i(1)] by simp
  then have "?s mod 4096 + r < 4096" using e(2,4) by linarith
  note page_step [OF this]
  then have v: "(unat a + (sg_sum (take i ?es) + r)) div 4096 - unat a div 4096 = i"
    "(unat a + (sg_sum (take i ?es) + r)) mod 4096 = unat (sg_offset (?es ! i)) + r"
    using e(2,3) by (simp_all add: add.assoc)
  have "sg_sum ?es = sg_sum (take i ?es) + (unat (sg_length (?es ! i)) + sg_sum (drop (Suc i) ?es))"
    unfolding sg_sum_def by (subst id_take_nth_drop [OF i(1)]) (simp add: i(1) min_def)
  then have "sg_sum (take i ?es) + r < unat (xi_size x)" using r S by simp
  moreover have "sg_dma_address (?es ! i) + of_nat r =
      user_addr bus (hmem_pages (xi_hmem_info x')) (unat a) (unat a + (sg_sum (take i ?es) + r))"
    unfolding user_addr_def v by (simp add: D(1) [OF i(1)] e(1) add.assoc)
  ultimately show "sg_dma_address (?es ! i) + of_nat r =
        user_addr bus (hmem_pages (xi_hmem_info x')) (unat a) (unat a + (sg_sum (take i ?es) + r)) \<and>
      (unat a + (sg_sum (take i ?es) + r)) div 4096 - unat a div 4096 = i \<and>
      sg_sum (take i ?es) + r < unat (xi_size x)" using v(1) by simp
qed

lemma engine_copies_buffer:
  assumes "gup_counts env" and "maps_pages env bus" and s: "dpu_setup_sg env x pd a f h = (0, x', h')"
    and "unat (xi_size x) < 2 ^ 32" and "unat a + unat (xi_size x) + 4096 < 2 ^ 64"
    and "elements_for False dst (xi_sg x') els"
  shows "(\<forall>t < unat (xi_size x). engine els host dev (dst + of_nat t) =
      user_byte bus (hmem_pages (xi_hmem_info x')) host (unat a) (unat a + t)) \<and>
    (\<forall>z. unat (xi_size x) \<le> unat (z - dst) \<longrightarrow> engine els host dev z = dev z)"
proof -
  let ?es = "xi_sg x'"
  note B = setup_bytes [OF assms(1-5)]
  have E: "(\<forall>i < length ?es. \<forall>r < unat (sg_dma_len (?es ! i)).
      engine els host dev (dst + dma_sum (take i ?es) + of_nat r) = host (sg_dma_address (?es ! i) + of_nat r)) \<and>
    (\<forall>z. dma_total ?es \<le> unat (z - dst) \<longrightarrow> engine els host dev z = dev z)"
    by (rule engine_fills [OF assms(6)]) (use B(1) assms(4) in simp)
  have "engine els host dev (dst + of_nat t) = user_byte bus (hmem_pages (xi_hmem_info x')) host (unat a) (unat a + t)"
    if "t < unat (xi_size x)" for t
  proof -
    obtain i r where i: "i < length ?es" "r < unat (sg_dma_len (?es ! i))" "t = sg_sum (take i ?es) + r"
      using B(4) [OF \<open>t < _\<close>] by blast
    have "engine els host dev (dst + of_nat t) = host (sg_dma_address (?es ! i) + of_nat r)"
      using E i by (simp add: B(2) add.assoc)
    then show ?thesis using B(3) [OF i(1,2)] i(3) by (simp add: user_byte_def)
  qed
  then show ?thesis using E B(1) by simp
qed

text \<open>
  Outbound, a byte of an entry that no later entry writes over is the card's byte, and what no
  entry covers keeps its value.
\<close>

definition covers :: "sg_entry \<Rightarrow> u64 \<Rightarrow> bool" where
  "covers e z \<longleftrightarrow> unat (z - sg_dma_address e) < unat (sg_dma_len e)"

lemma coversE:
  assumes "covers e z"
  obtains r where "r < unat (sg_dma_len e)" "z = sg_dma_address e + of_nat r"
proof
  show "unat (z - sg_dma_address e) < unat (sg_dma_len e)" using assms by (simp add: covers_def)
qed simp

lemma engine_scatters:
  assumes "elements_for True c es els"
  shows "(\<forall>z. (\<forall>e \<in> set es. \<not> covers e z) \<longrightarrow> engine els soc mem z = mem z) \<and>
    (\<forall>i < length es. \<forall>r < unat (sg_dma_len (es ! i)).
      (\<forall>j < length es. i < j \<longrightarrow> \<not> covers (es ! j) (sg_dma_address (es ! i) + of_nat r)) \<longrightarrow>
      engine els soc mem (sg_dma_address (es ! i) + of_nat r) = soc (c + dma_sum (take i es) + of_nat r))"
  using assms
proof (induction es arbitrary: c els mem)
  case Nil
  then show ?case by (simp add: elements_for_Nil)
next
  case (Cons e es)
  obtain cb lie rie els' where els: "els = Data c (sg_dma_address e) (sg_dma_len e) cb lie rie # els'"
    "elements_for True (c + ucast (sg_dma_len e)) es els'"
    by (rule elements_for_Cons [OF Cons.prems]) (auto simp: entry_moves_def)
  let ?mem = "\<lambda>z. if covers e z then soc (c + (z - sg_dma_address e)) else mem z"
  note IH = Cons.IH [OF els(2), of ?mem]
  have run: "engine els soc mem z = engine els' soc ?mem z" for z
    by (simp add: els(1) covers_def)
  have "engine els soc mem (sg_dma_address ((e # es) ! i) + of_nat r) = soc (c + dma_sum (take i (e # es)) + of_nat r)"
    if i: "i < length (e # es)" "r < unat (sg_dma_len ((e # es) ! i))"
      and later: "\<forall>j < length (e # es). i < j \<longrightarrow> \<not> covers ((e # es) ! j) (sg_dma_address ((e # es) ! i) + of_nat r)"
    for i r
  proof (cases i)
    case 0
    have "unat (sg_dma_len e) < 2 ^ 64" by (rule order_less_le_trans [OF unsigned_less]) simp
    then have "r < 2 ^ 64" using i(2) 0 by simp
    then have "covers e (sg_dma_address e + of_nat r)" using i(2) 0 by (simp add: covers_def unat_of_nat_small)
    moreover have "\<not> covers e' (sg_dma_address e + of_nat r)" if "e' \<in> set es" for e'
      using later that 0 unfolding in_set_conv_nth by force
    ultimately show ?thesis using IH 0 by (simp add: run)
  next
    case (Suc k)
    have "\<forall>j < length es. k < j \<longrightarrow> \<not> covers (es ! j) (sg_dma_address (es ! k) + of_nat r)"
      using later Suc by force
    then show ?thesis using IH i Suc by (simp add: run add.assoc)
  qed
  then show ?case using IH by (simp add: run)
qed

text \<open>The pinned pages do not overlap on the bus.\<close>

definition frames_apart :: "(u64 \<Rightarrow> u64) \<Rightarrow> u64 list \<Rightarrow> bool" where
  "frames_apart bus pages \<longleftrightarrow> (\<forall>i < length pages. \<forall>j < length pages. i \<noteq> j \<longrightarrow>
     4096 \<le> unat (bus (pages ! i) - bus (pages ! j)))"

lemma frames_apart_same:
  assumes "frames_apart bus pages" and "i < length pages" "j < length pages"
    and "r < 4096" "s < 4096" and "bus (pages ! i) + of_nat r = bus (pages ! j) + (of_nat s :: u64)"
  shows "i = j"
proof (rule ccontr)
  assume "i \<noteq> j"
  then have "4096 \<le> unat (bus (pages ! i) - bus (pages ! j))" "4096 \<le> unat (bus (pages ! j) - bus (pages ! i))"
    using assms(1-3) unfolding frames_apart_def by blast+
  moreover have "bus (pages ! i) - bus (pages ! j) = (of_nat s - of_nat r :: u64)"
    "bus (pages ! j) - bus (pages ! i) = (of_nat r - of_nat s :: u64)"
    using assms(6) by (simp_all add: algebra_simps)
  moreover have "unat (of_nat s - of_nat r :: u64) < 4096 \<or> unat (of_nat r - of_nat s :: u64) < 4096"
  proof (cases "r \<le> s")
    case True
    then have "(of_nat s - of_nat r :: u64) = of_nat (s - r)" by simp
    then have "unat (of_nat s - of_nat r :: u64) = s - r" using assms(5) by (simp add: unat_of_nat_small)
    then show ?thesis using assms(5) by linarith
  next
    case False
    then have "(of_nat r - of_nat s :: u64) = of_nat (r - s)" by simp
    then have "unat (of_nat r - of_nat s :: u64) = r - s" using assms(4) by (simp add: unat_of_nat_small)
    then show ?thesis using assms(4) by linarith
  qed
  ultimately show False by simp
qed

lemma setup_pages:
  assumes "gup_counts env" and "dpu_setup_sg env x pd a f h = (0, x', h')"
    and "unat (xi_size x) < 2 ^ 32" and "unat a + unat (xi_size x) + 4096 < 2 ^ 64"
  shows "length (hmem_pages (xi_hmem_info x')) = length (xi_sg x')"
proof -
  have "length (xi_sg x') = npages (unat a) (unat (xi_size x))"
    using dpu_setup_sg_tiles [OF assms] unat_get_pages_nr [OF assms(4)] by simp
  note len = this
  show ?thesis using assms(1,2)
    by (cases rule: dpu_setup_sg_cases)
      (use len pages_nr_fits [OF assms(3,4)] unat_get_pages_nr [OF assms(4)] in \<open>simp_all add: hmem_pages_def\<close>)
qed

lemma engine_fills_buffer:
  assumes "gup_counts env" and "maps_pages env bus" and s: "dpu_setup_sg env x pd a f h = (0, x', h')"
    and "unat (xi_size x) < 2 ^ 32" and "unat a + unat (xi_size x) + 4096 < 2 ^ 64"
    and "elements_for True src (xi_sg x') els" and apart: "frames_apart bus (hmem_pages (xi_hmem_info x'))"
  shows "(\<forall>t < unat (xi_size x).
      engine els soc host (user_addr bus (hmem_pages (xi_hmem_info x')) (unat a) (unat a + t)) = soc (src + of_nat t)) \<and>
    (\<forall>z. (\<forall>t < unat (xi_size x). z \<noteq> user_addr bus (hmem_pages (xi_hmem_info x')) (unat a) (unat a + t)) \<longrightarrow>
      engine els soc host z = host z)"
proof -
  let ?es = "xi_sg x'" and ?pages = "hmem_pages (xi_hmem_info x')"
  let ?at = "\<lambda>i r. sg_dma_address (?es ! i) + (of_nat r :: u64)"
  note B = setup_bytes [OF assms(1-5)]
  note E = engine_scatters [OF assms(6), of soc host]
  have len: "length ?pages = length ?es" by (rule setup_pages [OF assms(1) s assms(4,5)])
  have at: "?at i r = bus (?pages ! i) + of_nat ((unat a + (sg_sum (take i ?es) + r)) mod 4096)"
    if "i < length ?es" "r < unat (sg_dma_len (?es ! i))" for i r
    using B(3) [OF that] by (simp add: user_addr_def)
  have same: "i = j" if i: "i < length ?es" "r < unat (sg_dma_len (?es ! i))" and j: "j < length ?es" "covers (?es ! j) (?at i r)"
    for i j r
  proof -
    obtain q where q: "q < unat (sg_dma_len (?es ! j))" "?at i r = ?at j q" using j(2) by (rule coversE)
    then show ?thesis using at [OF i] at [OF j(1) q(1)] i(1) j(1)
      by (intro frames_apart_same [OF apart, of i j "(unat a + (sg_sum (take i ?es) + r)) mod 4096"
            "(unat a + (sg_sum (take j ?es) + q)) mod 4096"]) (simp_all add: len)
  qed
  have "engine els soc host (user_addr bus ?pages (unat a) (unat a + t)) = soc (src + of_nat t)" if t: "t < unat (xi_size x)" for t
  proof -
    obtain i r where i: "i < length ?es" "r < unat (sg_dma_len (?es ! i))" "t = sg_sum (take i ?es) + r"
      using B(4) [OF t] by blast
    have "engine els soc host (?at i r) = soc (src + dma_sum (take i ?es) + of_nat r)"
      using E same [OF i(1,2)] i(1,2) by blast
    then show ?thesis using B(3) [OF i(1,2)] by (simp add: i(3) B(2) add.assoc)
  qed
  moreover have "engine els soc host z = host z"
    if z: "\<forall>t < unat (xi_size x). z \<noteq> user_addr bus ?pages (unat a) (unat a + t)" for z
  proof -
    have "\<not> covers e z" if e: "e \<in> set ?es" for e
    proof
      assume "covers e z"
      then obtain r where r: "r < unat (sg_dma_len e)" "z = sg_dma_address e + of_nat r" by (rule coversE)
      obtain i where "i < length ?es" "e = ?es ! i" using e by (metis in_set_conv_nth)
      then show False using B(3) [of i r] r z by auto
    qed
    then show ?thesis using E by blast
  qed
  ultimately show ?thesis by blast
qed

section \<open>Later histories\<close>

definition extends :: "hist \<Rightarrow> hist \<Rightarrow> bool" where
  "extends h h' \<longleftrightarrow> (\<exists>g. h' = g @ h)"

lemma extends_refl [simp]: "extends h h"
  by (simp add: extends_def)

lemma extends_Cons [simp]: "extends h h' \<Longrightarrow> extends h (e # h')"
  unfolding extends_def by (metis append_Cons)

lemma extends_trans: "extends h1 h2 \<Longrightarrow> extends h2 h3 \<Longrightarrow> extends h1 h3"
  unfolding extends_def by (metis append.assoc)

lemma extends_accesses: "accesses A h h' \<Longrightarrow> extends h h'"
  by (induction rule: accesses.induct) simp_all

lemma extends_kernel_only: "kernel_only h h' \<Longrightarrow> extends h h'"
  by (auto simp: kernel_only_def extends_def)

lemma extends_regs_operations:
  assumes "regs_operations env dev q h = (ret, q', dev', h')"
  shows "extends h h'"
proof -
  obtain dev1 h1 where s: "slide_window env dev (ra_reg_addr q) (mutex_lock (conbar_lock dev) h) = (dev1, h1)"
    by fastforce
  have "extends h h1"
    using extends_trans [OF _ extends_accesses [OF slide_window_accesses [OF s]]] by (simp add: mutex_lock_def)
  then show ?thesis using assms
    by (auto simp: regs_operations_def s Let_def access_defs mutex_unlock_def split: if_splits)
qed

lemma extends_write_infos: "write_infos env ws dev h = (ret, dev', h') \<Longrightarrow> extends h h'"
proof (induction ws arbitrary: dev h)
  case (Cons w ws)
  let ?q = "\<lparr>ra_reg_addr = rad_reg_addr w, ra_reg_data = rad_reg_data w, ra_rw_flag = REG_WRITE\<rparr>"
  obtain e q dev1 h1 where o: "regs_operations env dev ?q h = (e, q, dev1, h1)" by (metis prod_cases4)
  show ?case using Cons.prems Cons.IH [of dev1 h1] extends_trans [OF extends_regs_operations [OF o]]
      extends_regs_operations [OF o] by (auto simp: o split: if_splits)
qed simp

section \<open>A whole transfer\<close>

text \<open>The run of the list, when it was enabled and did not fail.\<close>

lemma llmode_rings:
  assumes "window_ok dev h" and "dev_channel dev n t c"
    and "dma_llmode_transmit env dev c di dma_enable ri h = (0, c', dev', h')"
  obtains g where "extends h g" "extends (Ev_write32 (r_doorbell (hc_ctx c)) 1 # g) h'"
    "pair_val c LLP_HIGH LLP_LOW g = Some (di_desc_device_addr di)" "reg_val c CONTROL1 g = Some 3"
proof -
  let ?p = "run_cmds env dev (data_cmds di) c (spin_lock (hc_lock c) h)"
  obtain rv dev1 g where w: "write_infos env (user_writes ri) dev ?p = (rv, dev1, g)" by (metis prod_cases3)
  note L = llmode_prepared [OF assms(1,2) w]
  have "extends (spin_lock (hc_lock c) h) ?p" by (rule extends_accesses [OF cmds.op_accesses])
  then have "extends h ?p" by (rule extends_trans [rotated]) (simp add: spin_lock_def)
  then have g: "extends h g" using extends_write_infos [OF w] by (rule extends_trans)
  have "rv = 0" using assms(3) by (auto simp: dma_llmode_transmit_eq w Let_def split: if_splits prod.splits)
  then have "extends (Ev_write32 (r_doorbell (hc_ctx c)) 1 # g) h'"
    using assms(3) by (auto simp: dma_llmode_transmit_eq w start_cmd_eq spin_unlock_def Let_def split: prod.splits)
  then show ?thesis using that g L(6,7) by blast
qed

lemma setup_shape:
  assumes "gup_counts env" and "dpu_setup_sg env x pd a f h = (0, x', h')"
    and "unat (xi_size x) < 2 ^ 32" and "unat a + unat (xi_size x) + 4096 < 2 ^ 64"
  shows "xi_sglen x' = of_nat (length (xi_sg x'))" "length (xi_sg x') + 1 < 2 ^ 32"
    "xi_dir x' = xi_dir x" "xj_dst (xi_align x') = xj_dst (xi_align x)" "xj_src (xi_align x') = xj_src (xi_align x)"
proof -
  have nr: "unat (ucast (get_pages_nr a (xi_size x)) :: u32) = npages (unat a) (unat (xi_size x))"
    using pages_nr_fits [OF assms(3,4)] unat_get_pages_nr [OF assms(4)] by simp
  have len: "length (xi_sg x') = npages (unat a) (unat (xi_size x))"
    using dpu_setup_sg_tiles [OF assms] unat_get_pages_nr [OF assms(4)] by simp
  have "npages (unat a) (unat (xi_size x)) \<le> (4095 + 2 ^ 32 + 4095) div 4096"
    unfolding npages_def using assms(3) by (intro div_le_mono) simp
  then show "length (xi_sg x') + 1 < 2 ^ 32" unfolding len by simp
  have "xi_sglen x' = ucast (get_pages_nr a (xi_size x)) \<and> xi_dir x' = xi_dir x \<and>
      xi_align x' = (xi_align x)\<lparr>xj_size := xi_size x\<rparr>"
    using assms(1,2) by (cases rule: dpu_setup_sg_cases) simp_all
  then show "xi_sglen x' = of_nat (length (xi_sg x'))" "xi_dir x' = xi_dir x"
    "xj_dst (xi_align x') = xj_dst (xi_align x)" "xj_src (xi_align x') = xj_src (xi_align x)"
    unfolding len nr [symmetric] by simp_all
qed

lemma inbound_elements:
  assumes "set_hdma_desc env x di pd h = (0, di', h')" and "xi_sglen x = of_nat (length (xi_sg x))"
    and "length (xi_sg x) + 1 < 2 ^ 32" and "xi_dir x = DMA_MEM_TO_DEV"
  shows "elements_for False (xj_dst (xi_align x)) (xi_sg x) (map fetch_element (di_cells di'))"
    "unat (di_desc_size di') = 24 * (length (xi_sg x) + 1)"
proof -
  note C = set_hdma_desc_cells [OF assms(1,2) refl assms(3)]
  then show "unat (di_desc_size di') = 24 * (length (xi_sg x) + 1)" by simp
  show "elements_for False (xj_dst (xi_align x)) (xi_sg x) (map fetch_element (di_cells di'))"
    unfolding elements_for_def entry_moves_def using C assms(4) by (auto simp: Let_def)
qed

lemma outbound_elements:
  assumes "set_hdma_desc env x di pd h = (0, di', h')" and "xi_sglen x = of_nat (length (xi_sg x))"
    and "length (xi_sg x) + 1 < 2 ^ 32" and "xi_dir x = DMA_DEV_TO_MEM"
  shows "elements_for True (xj_src (xi_align x)) (xi_sg x) (map fetch_element (di_cells di'))"
    "unat (di_desc_size di') = 24 * (length (xi_sg x) + 1)"
proof -
  note C = set_hdma_desc_cells [OF assms(1,2) refl assms(3)]
  then show "unat (di_desc_size di') = 24 * (length (xi_sg x) + 1)" by simp
  have "DMA_DEV_TO_MEM \<noteq> DMA_MEM_TO_DEV" by (simp add: DMA_DEV_TO_MEM_def DMA_MEM_TO_DEV_def)
  then show "elements_for True (xj_src (xi_align x)) (xi_sg x) (map fetch_element (di_cells di'))"
    using C assms(4) unfolding elements_for_def entry_moves_def by (auto simp: Let_def)
qed

text \<open>
  How the device gets the list \<open>di\<close>. The channel \<open>cd\<close> rings first, with the registers set to copy the
  bytes of the list from the host to \<open>p\<close> on the card, and the channel \<open>c\<close> rings later, in link-list mode
  (bits 0 and 1 of \<open>CONTROL1\<close>), with its list pointer at \<open>p\<close>.
\<close>

definition list_handed_over :: "hdma_context \<Rightarrow> hdma_context \<Rightarrow> dpu_desc_info \<Rightarrow> u64 \<Rightarrow> hist \<Rightarrow> bool" where
  "list_handed_over cd c di p h \<longleftrightarrow> (\<exists>g1 g2.
     pair_val cd SAR_HIGH SAR_LOW g1 = Some (di_desc_addr di) \<and> pair_val cd DAR_HIGH DAR_LOW g1 = Some p \<and>
     reg_val cd XFERSIZE g1 = Some (of_nat (24 * length (di_cells di))) \<and>
     extends (Ev_write32 (r_doorbell (hc_ctx cd)) 1 # g1) g2 \<and>
     pair_val c LLP_HIGH LLP_LOW g2 = Some p \<and> reg_val c CONTROL1 g2 = Some 3 \<and>
     extends (Ev_write32 (r_doorbell (hc_ctx c)) 1 # g2) h)"

lemma list_handed_over_cong: "hc_ctx c1 = hc_ctx c \<Longrightarrow> list_handed_over cd c1 = list_handed_over cd c"
  by (simp add: fun_eq_iff list_handed_over_def pair_val_def reg_val_def)

lemma list_handed_over_extends: "list_handed_over cd c di p h \<Longrightarrow> extends h h' \<Longrightarrow> list_handed_over cd c di p h'"
  unfolding list_handed_over_def by (meson extends_trans)

lemma runs_hand_over:
  assumes "window_ok dev h" and "dev_channel dev m t cd" and "dev_channel dev m' t' c"
    and "unat (di_desc_size di) = 24 * length (di_cells di)"
    and "tranfer_desc env dev cd di h = (0, cd', h1)"
    and "dma_llmode_transmit env dev c di dma_enable ri h1 = (0, c', dev', h2)"
  shows "list_handed_over cd c di (di_desc_device_addr di) h2"
proof -
  obtain g1 rv where g1: "h1 = spin_unlock (hc_lock cd) (Ev_sleep (hc_wq cd) rv # Ev_write32 (r_doorbell (hc_ctx cd)) 1 # g1)"
    "pair_val cd SAR_HIGH SAR_LOW g1 = Some (di_desc_addr di)" "pair_val cd DAR_HIGH DAR_LOW g1 = Some (di_desc_device_addr di)"
    "reg_val cd XFERSIZE g1 = Some (ucast (di_desc_size di))"
    by (rule tranfer_desc_rings [OF assms(2,5)])
  obtain g2 where g2: "extends h1 g2" "extends (Ev_write32 (r_doorbell (hc_ctx c)) 1 # g2) h2"
    "pair_val c LLP_HIGH LLP_LOW g2 = Some (di_desc_device_addr di)" "reg_val c CONTROL1 g2 = Some 3"
    by (rule llmode_rings [OF tranfer_desc_keeps(1) [OF assms(5,2,1)] assms(3,6)])
  have "extends (Ev_write32 (r_doorbell (hc_ctx cd)) 1 # g1) g2"
    by (rule extends_trans [OF _ g2(1)]) (simp add: g1(1) spin_unlock_def)
  moreover have "(ucast (di_desc_size di) :: u32) = of_nat (unat (di_desc_size di))" by simp
  ultimately show ?thesis using g1(2-4) g2(2-4) unfolding list_handed_over_def assms(4) by metis
qed

text \<open>Both directions hand their list over, inbound on one channel, outbound on two.\<close>

lemma prepared_window_ok:
  assumes "window_ok dev h" and "dpu_setup_sg env x0 pd a f h = (r, x, h1)" and "set_hdma_desc env x di0 pd' h1 = (0, di, h2)"
  shows "window_ok dev h2"
  using assms(1) dpu_setup_sg_only [OF assms(2)] set_hdma_desc_only [OF assms(3)] by (blast intro: window_ok_only)

lemma elements_size:
  assumes "elements_for out c es (map fetch_element (di_cells di))" and "unat (di_desc_size di) = 24 * (length es + 1)"
  shows "unat (di_desc_size di) = 24 * length (di_cells di)"
  using assms by (simp add: elements_for_def)

lemma desc_keeps_pointer:
  "set_hdma_desc env x di pd h = (0, di', h') \<Longrightarrow> di_desc_device_addr di' = di_desc_device_addr di"
  by (erule set_hdma_desc_cases) simp_all

text \<open>A run whose wait is answered and whose register writes are in range succeeds.\<close>

lemma tranfer_desc_answered:
  assumes "\<And>h q t. fst (k_wait env h q t) \<noteq> 0" and "tranfer_desc env dev c di h = (ret, c', h')"
  shows "ret = 0"
proof -
  let ?g = "run_cmds env dev (desc_cmds di) c (spin_lock (hc_lock c) h)"
  have "fst (k_wait env ?g (hc_wq c) HDMA_TIMEOUT_LENGTH) \<noteq> 0" by (rule assms(1))
  then show ?thesis using assms(2) by (simp add: tranfer_desc_eq Let_def case_prod_beta)
qed

lemma llmode_answered:
  assumes "window_ok dev h" and "dev_channel dev m t c" and "\<And>h q t. fst (k_wait env h q t) \<noteq> 0"
    and "\<forall>w \<in> set (user_writes ri). in_reg_range (rad_reg_addr w)"
    and "dma_llmode_transmit env dev c di en ri h = (ret, c', dev', h')"
  shows "ret = 0"
proof -
  obtain rv dev1 g where w: "write_infos env (user_writes ri) dev
      (run_cmds env dev (data_cmds di) c (spin_lock (hc_lock c) h)) = (rv, dev1, g)" by (metis prod_cases3)
  have "rv = 0" using llmode_prepared(1) [OF assms(1,2) w] assms(4) by simp
  then show ?thesis using assms(3,5)
    by (auto simp: dma_llmode_transmit_eq w Let_def split: prod.splits if_splits) (metis fst_conv)+
qed

section \<open>Properties\<close>

text \<open>
  C1: an inbound transfer moves exactly the user's buffer. Suppose it returns 0, its pages are
  pinned and mapped one by one. Then the list it made, run by the engine, copies byte after byte the
  user's buffer to the card address asked for and changes nothing else on the card, and the list
  was handed over: its own bytes were copied to the list address on the card first, and the
  channel was started there afterwards.
\<close>

theorem inbound_moves_buffer:
  assumes "gup_counts env" and "maps_pages env bus" and "window_ok dev h" and "dev_channel dev m t c"
    and "unat n < 2 ^ 32" and "unat a + unat n + 4096 < 2 ^ 64"
    and "eon_hdma_inbound env dev c a d n p dma_enable ri h = (0, c', dev', h')"
  shows "\<exists>x h1 di h2. dpu_setup_sg env (inbound_info a d n) (pdev dev) a 1 h = (0, x, h1) \<and>
    set_hdma_desc env x (inbound_desc p) (pdev dev) h1 = (0, di, h2) \<and> list_handed_over c c di p h' \<and>
    (\<forall>host mem. let mem' = engine (map fetch_element (di_cells di)) host mem in
       (\<forall>k < unat n. mem' (d + of_nat k) =
          user_byte bus (hmem_pages (xi_hmem_info x)) host (unat a) (unat a + k)) \<and>
       (\<forall>z. unat n \<le> unat (z - d) \<longrightarrow> mem' z = mem z))"
  using assms(7)
proof (cases rule: inbound_cases)
  case (data x h1 di h2 c1 h3 h4)
  have sz: "xi_size (inbound_info a d n) = n" "xj_dst (xi_align (inbound_info a d n)) = d"
    "xi_dir (inbound_info a d n) = DMA_MEM_TO_DEV" "di_desc_device_addr (inbound_desc p) = p"
    by (simp_all add: inbound_info_def inbound_desc_def)
  note sh = setup_shape [OF assms(1) data(1), unfolded sz, OF assms(5,6)]
  note el = inbound_elements [OF data(2) sh(1-3)]
  have els: "elements_for False d (xi_sg x) (map fetch_element (di_cells di))" using el(1) by (simp only: sh(4))
  have bytes: "unat n < 2 ^ 32" "unat a + unat n + 4096 < 2 ^ 64" using assms(5,6) by simp_all
  note copy = engine_copies_buffer [OF assms(1,2) data(1), unfolded sz, OF bytes els]
  have w: "window_ok dev h2" by (rule prepared_window_ok [OF assms(3) data(1,2)])
  have c1: "hc_ctx c1 = hc_ctx c" by (rule tranfer_desc_keeps(2) [OF data(3) assms(4) w])
  then have "dev_channel dev m t c1" using assms(4) by (simp add: dev_channel_cong [OF refl c1])
  from runs_hand_over [OF w assms(4) this elements_size [OF els el(2)] data(3,4)]
  have "list_handed_over c c di p h4" by (simp only: list_handed_over_cong [OF c1] desc_keeps_pointer [OF data(2)] sz)
  moreover have "extends h4 h'" unfolding data(5) by (intro extends_kernel_only) simp
  ultimately have "list_handed_over c c di p h'" by (rule list_handed_over_extends)
  moreover have "\<forall>host mem. let mem' = engine (map fetch_element (di_cells di)) host mem in
       (\<forall>k < unat n. mem' (d + of_nat k) =
          user_byte bus (hmem_pages (xi_hmem_info x)) host (unat a) (unat a + k)) \<and>
       (\<forall>z. unat n \<le> unat (z - d) \<longrightarrow> mem' z = mem z)"
    unfolding Let_def using copy by blast
  ultimately show ?thesis using data(1,2) by blast
qed simp_all

definition demo_move_env :: xfer_env where
  "demo_move_env = (demo_xfer_env 1 TRANSFER_STATE_COMPLETED)
     \<lparr>k_gup := \<lambda>_ _ n. (uint n, \<lambda>i. if i = 0 then 0xa000 else 0x7000),
      k_map_sg := \<lambda>_ es _. (1, \<lambda>i. (sg_page (es ! i) + ucast (sg_offset (es ! i)), sg_length (es ! i)))\<rparr>"

lemma demo_move: "gup_counts demo_move_env" "maps_pages demo_move_env (\<lambda>p. p)"
  "k_wait demo_move_env h q t = (1, TRANSFER_STATE_COMPLETED)"
  "fst (dpu_setup_sg demo_move_env x pd a f h) = 0" "fst (set_hdma_desc demo_move_env x di pd h) = 0"
  by (simp_all add: demo_move_env_def gup_counts_def demo_xfer_env_def maps_pages_def dpu_setup_sg_def
      dpu_get_pages_def get_user_pages_fast_def vmalloc_def kmalloc_def set_hdma_desc_def u32_of_int_def Let_def)

text \<open>A buffer of four bytes over the end of a page: two pages, which do not overlap.\<close>

lemma demo_pages:
  assumes "dpu_setup_sg demo_move_env x pd 0x1ffe f h = (0, x', h')" and "xi_size x = 4"
  shows "hmem_pages (xi_hmem_info x') = [0xa000, 0x7000]"
proof -
  have nr: "get_pages_nr 0x1ffe 4 = 2" using unat_get_pages_nr [of "0x1ffe" "4"] by (simp add: npages_def word_unat_eq_iff)
  have "[0..<2] = [0, 1 :: nat]" by (simp add: upt_rec)
  then show ?thesis using assms
    by (auto simp: dpu_setup_sg_def dpu_get_pages_def get_user_pages_fast_def demo_move_env_def demo_xfer_env_def
        vmalloc_def kmalloc_def u32_of_int_def nr hmem_pages_def Let_def)
qed

lemma demo_user_byte: "user_byte (\<lambda>p. p) [0xa000, 0x7000] host (unat (0x1ffe :: u64)) (unat (0x1ffe :: u64) + 3) = host 0x7001"
  by (simp add: user_byte_def user_addr_def)

theorem inbound_moves_buffer_witness:
  "\<exists>x h1 di h2. dpu_setup_sg demo_move_env (inbound_info 0x1ffe 0x50000000 4) 0x8000 0x1ffe 1 [] = (0, x, h1) \<and>
    set_hdma_desc demo_move_env x (inbound_desc 0x48010000) 0x8000 h1 = (0, di, h2) \<and>
    (\<forall>host mem. engine (map fetch_element (di_cells di)) host mem 0x50000003 = host 0x7001)"
proof -
  let ?ri = "demo_reg_infos\<lparr>ri_num := 0\<rparr>"
  obtain ret c' dev' h' where i: "eon_hdma_inbound demo_move_env demo_device demo_channel
      0x1ffe 0x50000000 4 0x48010000 dma_enable ?ri [] = (ret, c', dev', h')"
    by (metis prod_cases4)
  have u: "user_writes ?ri = []" by (simp add: user_writes_def)
  have "ret = 0" using i
  proof (cases rule: inbound_cases)
    case (pin x) then show ?thesis using demo_move(4) by (metis fst_conv)
  next
    case (desc x h1 di h2) then show ?thesis using demo_move(5) by (metis fst_conv)
  next
    case (copy x h1 di h2 h3) then show ?thesis by (auto simp: tranfer_desc_eq demo_move(3) Let_def)
  next
    case (data x h1 di h2 c1 h3 h4)
    then show ?thesis by (auto simp: dma_llmode_transmit_eq u demo_move(3) Let_def)
  qed
  note i = i [unfolded this]
  have b: "unat (4 :: u64) < 2 ^ 32" "unat (0x1ffe :: u64) + unat (4 :: u64) + 4096 < 2 ^ 64" "(3 :: nat) < unat (4 :: u64)"
    "pdev demo_device = 0x8000" by (simp_all add: demo_device_def)
  obtain x h1 di h2 where r: "dpu_setup_sg demo_move_env (inbound_info 0x1ffe 0x50000000 4) 0x8000 0x1ffe 1 [] = (0, x, h1)"
    "set_hdma_desc demo_move_env x (inbound_desc 0x48010000) 0x8000 h1 = (0, di, h2)"
    "\<forall>host mem. let mem' = engine (map fetch_element (di_cells di)) host mem in
       (\<forall>k < unat (4 :: u64). mem' (0x50000000 + of_nat k) =
          user_byte (\<lambda>p. p) (hmem_pages (xi_hmem_info x)) host (unat (0x1ffe :: u64)) (unat (0x1ffe :: u64) + k)) \<and>
       (\<forall>z. unat (4 :: u64) \<le> unat (z - 0x50000000) \<longrightarrow> mem' z = mem z)"
    using inbound_moves_buffer [OF demo_move(1,2) demo_window_ok demo_dev_channel b(1,2) i, unfolded b(4)]
    by (elim exE conjE) (rule that)
  have p: "hmem_pages (xi_hmem_info x) = [0xa000, 0x7000]" by (rule demo_pages [OF r(1)]) (simp add: inbound_info_def)
  have "engine (map fetch_element (di_cells di)) host mem (0x50000000 + of_nat 3) = host 0x7001" for host mem
    using r(3) [unfolded Let_def, THEN spec, THEN spec, THEN conjunct1, THEN spec, THEN mp, OF b(3), of host mem]
    by (simp only: p demo_user_byte)
  then show ?thesis using r(1,2) by auto
qed

text \<open>
  C2: an outbound transfer fills exactly the user's buffer. Suppose its buffer is pinned, its
  pages lie apart on the bus, the list is prepared, every wait is answered and the register writes are in range.
  Then it returns 0, and the list, run by the engine, puts the card's bytes from the address asked for into the
  user's buffer byte after byte and changes nothing else in the host's memory. The list is handed
  over by the second channel, and the first one runs it.
\<close>

theorem outbound_moves_buffer:
  assumes "gup_counts env" and "maps_pages env bus" and "window_ok dev h"
    and "dev_channel dev m t c" and "dev_channel dev m' t' cd"
    and "unat n < 2 ^ 32" and "unat a + unat n + 4096 < 2 ^ 64"
    and "\<And>h q t. fst (k_wait env h q t) \<noteq> 0" and "\<forall>w \<in> set (user_writes ri). in_reg_range (rad_reg_addr w)"
    and "dpu_setup_sg env (outbound_info a s n) (pdev dev) a 1 h = (0, x, h1)"
    and "frames_apart bus (hmem_pages (xi_hmem_info x))"
    and "set_hdma_desc env x (outbound_desc p) (pdev dev) h1 = (0, di, h2)"
    and "eon_hdma_outbound env dev c cd a s n p dma_enable ri h = (ret, c', cd', dev', h')"
  shows "ret = 0 \<and> list_handed_over cd c di p h' \<and>
    (\<forall>soc mem. let mem' = engine (map fetch_element (di_cells di)) soc mem in
       (\<forall>k < unat n. user_byte bus (hmem_pages (xi_hmem_info x)) mem' (unat a) (unat a + k) = soc (s + of_nat k)) \<and>
       (\<forall>z. (\<forall>k < unat n. z \<noteq> user_addr bus (hmem_pages (xi_hmem_info x)) (unat a) (unat a + k)) \<longrightarrow>
          mem' z = mem z))"
  using assms(13)
proof (cases rule: outbound_cases)
  case (copy x' g1 di' g2 g3 r)
  then show ?thesis using tranfer_desc_answered [OF assms(8) copy(3)] by simp
next
  case (data x' g1 di' g2 h3 h4 r)
  then have eq: "x' = x" "g1 = h1" "di' = di" "g2 = h2" using assms(10,12) by simp_all
  have sz: "xi_size (outbound_info a s n) = n" "xj_src (xi_align (outbound_info a s n)) = s"
    "xi_dir (outbound_info a s n) = DMA_DEV_TO_MEM" "di_desc_device_addr (outbound_desc p) = p"
    by (simp_all add: outbound_info_def outbound_desc_def)
  note sh = setup_shape [OF assms(1,10), unfolded sz, OF assms(6,7)]
  note el = outbound_elements [OF assms(12) sh(1-3)]
  have els: "elements_for True s (xi_sg x) (map fetch_element (di_cells di))" using el(1) by (simp only: sh(5))
  have bytes: "unat n < 2 ^ 32" "unat a + unat n + 4096 < 2 ^ 64" using assms(6,7) by simp_all
  note fill = engine_fills_buffer [OF assms(1,2,10), unfolded sz, OF bytes els assms(11)]
  have w: "window_ok dev h2" by (rule prepared_window_ok [OF assms(3,10,12)])
  note keep = tranfer_desc_keeps [OF data(3) assms(5), unfolded eq, OF w]
  have "r = 0" by (rule llmode_answered [OF keep(1) assms(4,8,9) data(4) [unfolded eq]])
  note run = data(4) [unfolded eq this]
  from runs_hand_over [OF w assms(5,4) elements_size [OF els el(2)] data(3) [unfolded eq] run]
  have "list_handed_over cd c di p h4" by (simp only: desc_keeps_pointer [OF assms(12)] sz)
  moreover have "extends h4 h'" unfolding data(5) by (intro extends_kernel_only) simp
  ultimately have "list_handed_over cd c di p h'" by (rule list_handed_over_extends)
  then show ?thesis using data(6) fill by (simp add: Let_def user_byte_def)
qed (use assms(10,12) in simp_all)

theorem outbound_moves_buffer_witness:
  "\<exists>x h1 di h2. dpu_setup_sg demo_move_env (outbound_info 0x1ffe 0x50000000 4) 0x8000 0x1ffe 1 [] = (0, x, h1) \<and>
    set_hdma_desc demo_move_env x (outbound_desc 0x48010000) 0x8000 h1 = (0, di, h2) \<and>
    (\<forall>soc mem. engine (map fetch_element (di_cells di)) soc mem 0x7001 = soc 0x50000003 \<and>
       engine (map fetch_element (di_cells di)) soc mem 0x7002 = mem 0x7002)"
proof -
  let ?ri = "demo_reg_infos\<lparr>ri_num := 0\<rparr>"
  obtain ret c' cd' dev' h' where i: "eon_hdma_outbound demo_move_env demo_device demo_channel demo_channel
      0x1ffe 0x50000000 4 0x48010000 dma_enable ?ri [] = (ret, c', cd', dev', h')"
    by (metis prod_cases5)
  have u: "\<forall>w \<in> set (user_writes ?ri). in_reg_range (rad_reg_addr w)" by (simp add: user_writes_def)
  have k: "fst (k_wait demo_move_env h q t) \<noteq> 0" for h q t by (simp add: demo_move(3))
  obtain x h1 where s: "dpu_setup_sg demo_move_env (outbound_info 0x1ffe 0x50000000 4) (pdev demo_device) 0x1ffe 1 [] = (0, x, h1)"
    using demo_move(4) by (metis surjective_pairing)
  obtain di h2 where d: "set_hdma_desc demo_move_env x (outbound_desc 0x48010000) (pdev demo_device) h1 = (0, di, h2)"
    using demo_move(5) by (metis surjective_pairing)
  have b: "unat (4 :: u64) < 2 ^ 32" "unat (0x1ffe :: u64) + unat (4 :: u64) + 4096 < 2 ^ 64" "(3 :: nat) < unat (4 :: u64)"
    "pdev demo_device = 0x8000" by (simp_all add: demo_device_def)
  have p: "hmem_pages (xi_hmem_info x) = [0xa000, 0x7000]" by (rule demo_pages [OF s]) (simp add: outbound_info_def)
  have apart: "frames_apart (\<lambda>p. p) (hmem_pages (xi_hmem_info x))"
    by (auto simp: p frames_apart_def less_Suc_eq)
  note T = outbound_moves_buffer [OF demo_move(1,2) demo_window_ok demo_dev_channel demo_dev_channel b(1,2) k u s apart d i,
      THEN conjunct2, THEN conjunct2, unfolded Let_def p]
  have "engine (map fetch_element (di_cells di)) soc mem 0x7001 = soc (0x50000000 + of_nat 3)" for soc mem
    using T [THEN spec, THEN spec, THEN conjunct1, THEN spec, THEN mp, OF b(3), of soc mem]
    by (simp only: demo_user_byte)
  moreover have "engine (map fetch_element (di_cells di)) soc mem 0x7002 = mem 0x7002" for soc mem
  proof -
    have "0x7002 \<noteq> user_addr (\<lambda>p. p) [0xa000, 0x7000] (unat (0x1ffe :: u64)) (unat (0x1ffe :: u64) + k)" if "k < unat (4 :: u64)" for k
    proof -
      have "k = 0 \<or> k = 1 \<or> k = 2 \<or> k = 3" using that by auto
      then show ?thesis by (auto simp: user_addr_def)
    qed
    then show ?thesis using T [THEN spec, THEN spec, THEN conjunct2, THEN spec, THEN mp, of "0x7002" soc mem] by blast
  qed
  ultimately show ?thesis using s d unfolding b(4) by auto
qed

end
