(* ===== verification/Spec2Isabelle.thy ===== *)
theory Spec2Isabelle
  imports Eon_Recovery Eon_EndToEnd
begin

text \<open>
  A verification development for the \<open>eon\<close> PCIe driver: a Linux driver for a DPU card with a
  DesignWare HDMA engine. User space reaches the card through one character device per card
  and two ioctls, one for register access through a sliding window and one for DMA transfers
  between user memory and card memory.

  \<^bold>\<open>The program and the model.\<close> What the driver does to the device and to the kernel is a history of
  events (\<open>Eon_Kernel\<close>: \<open>event\<close>, \<open>hist\<close>, newest first); what device, kernel and user space answer is an
  environment record, extended along the theories (\<open>kenv\<close>, \<open>io_env\<close>, \<open>sg_env\<close>, \<open>xfer_env\<close>, \<open>cdev_env\<close>,
  \<open>probe_env\<close>; \<open>irq_env\<close> for the thread). An operation is a function from the environment, its arguments, the structures it
  changes and the history to its result, the changed structures and the new history. Observers
  on histories (\<open>last_write\<close>, \<open>held\<close>, \<open>locks\<close>, \<open>no_bad_release\<close>, \<open>sleeps_in_atomic\<close>) say what was
  achieved. Errors are the code's own error numbers; a NULL or uninitialised pointer that is used
  gives \<open>None\<close> (\<open>Oops\<close> in the thread). Integers have the width of the C type.

  \<^item> \<open>Eon_Prelude\<close>, \<open>Eon_Kernel\<close>: types, hint collections, word lemmas; events, observers and the
    accessors of \<open>eon_drv.c\<close>. \<open>accesses A h h'\<close> is the frame of an operation that only talks to the device.
  \<^item> \<open>Eon_Device\<close>: the structs of \<open>eon_drv.h\<close>, \<open>hdma.h\<close>, \<open>test_dev.h\<close>.
  \<^item> \<open>Register_Bank\<close>: the interface (a locale) of a bank of registers; interpreted for the ATU and for
    the HDMA engine, it gives that different registers have different addresses.
  \<^item> \<open>Eon_Iatu\<close> (\<open>iatu.c\<close>, \<open>iatu.h\<close>): the register macros and both mapping operations, with what a
    region translates to afterwards.
  \<^item> \<open>Hdma_Regs\<close>, \<open>Hdma_Ops\<close>, \<open>Hdma_Desc\<close> (\<open>hdma.c\<close>, \<open>hdma.h\<close>): all register macros, the channel
    operations, mutual exclusion by \<open>hdma_lock\<close>, isolation of the channels, the bit-field layout of the descriptors.
  \<^item> \<open>Eon_Sg\<close> (\<open>test_dev.c\<close>): pinning of user pages and scatter lists: coverage of the buffer, balance of resources.
  \<^item> \<open>Eon_Window\<close> (\<open>test_dev.c\<close>): register access through the window; an abstract machine of device
    accesses, refinement, and the invariant over any interleaving.
  \<^item> \<open>Eon_Transfer\<close> (\<open>test_dev.c\<close>): descriptor lists and both DMA runs; what the engine fetches, order of
    writes and doorbell, resources on every path, outcomes of time-outs and signals.
  \<^item> \<open>Eon_Ioctl\<close> (\<open>test_dev.c\<close>): the character device and the ioctls; every ioctl returns and keeps
    \<open>dev_inv\<close> (window invariant, a context with the right registers for every channel).
  \<^item> \<open>Eon_EndToEnd\<close>: a whole transfer in either direction against an abstract engine on two memories: pinning,
    scatter list, descriptor list and both runs together copy exactly the user's buffer, or fill it.
  \<^item> \<open>Eon_Irq\<close> (\<open>eon_drv.c\<close>): the interrupt handler, the FIFO and the thread; termination and livelock, interleaving.
  \<^item> \<open>Eon_Probe\<close> (\<open>eon_drv.c\<close>): DMA mask, MSI, interrupts, channels, probe, remove, module init and exit.
  \<^item> \<open>Eon_Lifecycle\<close>: the composition: probe, then ioctls, interrupts and thread steps in any order, then remove.
  \<^item> \<open>Eon_Recovery\<close>: the thread against a device that latches its status: a scan is the search for the
    first pending channel, and 32 rounds without any interrupt serve every channel that was pending.

  \<^bold>\<open>Contracts.\<close> The interfaces between the components are locales, interpreted on the model: a
  register bank (\<open>Register_Bank\<close>), and an operation on a channel, which accesses the registers of its
  own channel only (\<open>Hdma_Ops\<close>). The environment's contracts are named
  hypotheses: \<open>gup_counts\<close> (\<open>get_user_pages_fast\<close> pins at most what it is asked for), \<open>bars_apart\<close> (the mappings of two BARs do not
  overlap), \<open>no_lone_abort\<close> (the device does not report an abort alone), \<open>latched\<close> (a status register
  keeps its value until it is cleared) and \<open>quiet\<close> (no interrupt comes), \<open>maps_pages\<close> (every page of a scatter list
  is mapped by itself, keeping offset and length), \<open>frames_apart\<close> (the pinned pages do not overlap on the bus), \<open>front_ok\<close> and \<open>probe_ok\<close> (kernel calls that succeed). Theorems without them hold for any answers.

  \<^bold>\<open>Bounds and fuel.\<close> The thread's loop has no bound of its own, so \<open>drain\<close> takes fuel:
  \<open>33 * 4096 + 32\<close> iterations are enough for any state of the 4096-byte FIFO when no abort comes alone, because a fruitless
  iteration is counted and the 32nd takes a byte out, and any other iteration takes one out at
  once. With a lone abort no fuel is enough, which is a theorem too. The outer loop runs until the thread is stopped; \<open>thread_rounds\<close> counts its
  rounds.

  \<^bold>\<open>Not modelled.\<close> Debug printing (\<open>dpu_dbg\<close>, \<open>sgt_dump\<close>, \<open>dump_desc\<close>, \<open>dump_dma_args\<close>) and code under
  \<open>#if 0\<close> or \<open>DISABLE_THREAD_HANDLE\<close>; the id table and the operation tables, which the kernel's core reads; memory that the kernel's device management releases by
  itself; the timing of waits. An ioctl is one step of the interleavings in
  \<open>Eon_Lifecycle\<close>: what others do while it waits shows in the environment's answers only, and interrupts
  are taken by the thread at its next wait except in the step relation of \<open>Eon_Irq\<close>.
  \<open>eon.mod.c\<close> is generated by the build; \<open>hdma_test.c\<close> is not in the build and does not
  compile.
\<close>

end
